(* ===== verification/Prelude.thy ===== *)
theory Prelude
  imports Complex_Main "HOL-Library.Word"
begin

text \<open>
  Shared vocabulary of the development: Go's fixed-width integers, byte strings, the
  lemma collections the component theories fill, and generic facts on lists and
  strings.  A Go \<open>string\<close> is a byte sequence, which is what the type \<open>string\<close> (a list of
  8-bit \<open>char\<close>) is.
\<close>

type_synonym int64 = "64 word"
type_synonym int32 = "32 word"
type_synonym uint64 = "64 word"

named_theorems go_string \<open>facts on the byte-string helpers of the Go library\<close>
named_theorems f64_simps \<open>evaluation rules of the binary64 operations\<close>
named_theorems step_simps \<open>unfolding rules of the reconciler's state-passing steps\<close>

section \<open>Sums as error returns\<close>

text \<open>A Go result pair \<open>(T, error)\<close> is \<open>'e + 'a\<close>: \<open>Inl\<close> carries the error.\<close>

definition is_ok :: "'e + 'a \<Rightarrow> bool" where
  "is_ok r = (case r of Inl _ \<Rightarrow> False | Inr _ \<Rightarrow> True)"

lemma is_ok_simps [simp]: "is_ok (Inr a)" "\<not> is_ok (Inl e)"
  by (simp_all add: is_ok_def)

lemma is_ok_iff: "is_ok r \<longleftrightarrow> (\<exists>a. r = Inr a)"
  by (cases r) simp_all

section \<open>Byte strings\<close>

text \<open>\<open>strings.ReplaceAll\<close> with a one-byte pattern.\<close>

fun replace_byte :: "char \<Rightarrow> string \<Rightarrow> string \<Rightarrow> string" where
  "replace_byte c new [] = []"
| "replace_byte c new (x # xs) =
     (if x = c then new @ replace_byte c new xs else x # replace_byte c new xs)"

lemma replace_byte_append [go_string]:
  "replace_byte c new (xs @ ys) = replace_byte c new xs @ replace_byte c new ys"
  by (induction xs) auto

lemma replace_byte_absent [go_string]: "c \<notin> set xs \<Longrightarrow> replace_byte c new xs = xs"
  by (induction xs) auto

text \<open>
  \<open>strings.ReplaceAll\<close> with a two-byte pattern: matches are taken left to right and do
  not overlap.
\<close>

fun replace_pair :: "char \<Rightarrow> char \<Rightarrow> string \<Rightarrow> string \<Rightarrow> string" where
  "replace_pair a b new (x # y # xs) =
     (if x = a \<and> y = b then new @ replace_pair a b new xs
      else x # replace_pair a b new (y # xs))"
| "replace_pair a b new xs = xs"

text \<open>\<open>strings.Contains\<close> with a one-byte and with a two-byte needle.\<close>

definition contains_byte :: "string \<Rightarrow> char \<Rightarrow> bool" where
  "contains_byte s c = (c \<in> set s)"

fun contains_pair :: "string \<Rightarrow> char \<Rightarrow> char \<Rightarrow> bool" where
  "contains_pair (x # y # xs) a b = (x = a \<and> y = b \<or> contains_pair (y # xs) a b)"
| "contains_pair _ a b = False"

text \<open>\<open>strings.TrimRight\<close> with a one-byte cutset.\<close>

definition trim_right :: "string \<Rightarrow> char \<Rightarrow> string" where
  "trim_right s c = rev (dropWhile (\<lambda>x. x = c) (rev s))"

text \<open>\<open>strings.ToLower\<close> on ASCII bytes; other bytes are left alone.\<close>

definition to_lower_byte :: "char \<Rightarrow> char" where
  "to_lower_byte c =
     (let n = of_char c :: nat in if 65 \<le> n \<and> n \<le> 90 then char_of (n + 32) else c)"

definition is_digit :: "char \<Rightarrow> bool" where
  "is_digit c = (let n = of_char c :: nat in 48 \<le> n \<and> n \<le> 57)"

definition is_alnum :: "char \<Rightarrow> bool" where
  "is_alnum c = (let n = of_char c :: nat in
     48 \<le> n \<and> n \<le> 57 \<or> 65 \<le> n \<and> n \<le> 90 \<or> 97 \<le> n \<and> n \<le> 122)"

end
