(* ===== verification/Float64.thy ===== *)
theory Float64
  imports Prelude
begin

text \<open>
  Go's \<open>float64\<close>: IEEE 754 binary64.  A finite value is kept as the rational it denotes;
  every arithmetic operation computes the exact rational result and rounds it to the
  nearest representable value, ties to even, which is what the standard prescribes.
  The sign of zero is not kept: the modelled code never divides by zero and never looks
  at it.
\<close>

section \<open>Rounding a rational to 53 significant bits\<close>

text \<open>The exponent of a positive rational: \<open>2 ^ flog2 x \<le> x < 2 ^ (flog2 x + 1)\<close>.\<close>

function ilog2 :: "int \<Rightarrow> int" where
  "ilog2 n = (if n \<le> 1 then 0 else ilog2 (n div 2) + 1)"
  by pat_completeness auto
termination
  by (relation "measure nat") auto

declare ilog2.simps [simp del]

definition flog2 :: "rat \<Rightarrow> int" where
  "flog2 x =
     (let (p, q) = quotient_of x; k = ilog2 p - ilog2 q
      in if 2 powi k \<le> x then k else k - 1)"

text \<open>Round half to even.\<close>

definition rne :: "rat \<Rightarrow> int" where
  "rne x =
     (let f = \<lfloor>x\<rfloor>; d = x - of_int f
      in if d < 1 / 2 then f else if 1 / 2 < d then f + 1 else if even f then f else f + 1)"

definition f64_exp :: "rat \<Rightarrow> int" where
  "f64_exp x = max (flog2 \<bar>x\<bar> - 52) (- 1074)"

definition ulp :: "rat \<Rightarrow> rat" where
  "ulp x = 2 powi f64_exp x"

definition rnd :: "rat \<Rightarrow> rat" where
  "rnd x = (if x = 0 then 0 else of_int (rne (x / ulp x)) * ulp x)"

definition representable :: "rat \<Rightarrow> bool" where
  "representable x \<longleftrightarrow> (\<exists>m e. x = of_int m * 2 powi e \<and> \<bar>m\<bar> \<le> 2 ^ 53 \<and> - 1074 \<le> e)"

subsection \<open>The exponent\<close>

lemma powi2_pos [simp]: "0 < (2 :: rat) powi k"
  by (rule zero_less_power_int) simp

lemma powi2_mono: "m \<le> n \<Longrightarrow> (2 :: rat) powi m \<le> 2 powi n"
  by (rule power_int_increasing) simp_all

lemma powi2_less_imp_less: "(2 :: rat) powi m < 2 powi n \<Longrightarrow> m < n"
  by (meson linorder_not_less powi2_mono)

lemma powi2_add: "(2 :: rat) powi (m + n) = 2 powi m * 2 powi n"
  by (simp add: power_int_add)

lemma ilog2_bounds:
  "0 < n \<Longrightarrow> (2 :: rat) powi ilog2 n \<le> of_int n \<and> of_int n < (2 :: rat) powi (ilog2 n + 1)"
proof (induction n rule: ilog2.induct)
  case (1 n)
  show ?case
  proof (cases "n \<le> 1")
    case True
    with "1.prems" have "n = 1" by simp
    then show ?thesis by (simp add: ilog2.simps)
  next
    case False
    define h where "h = n div 2"
    have n: "n = 2 * h \<or> n = 2 * h + 1" unfolding h_def by linarith
    have IH: "(2 :: rat) powi ilog2 h \<le> of_int h" "of_int h < (2 :: rat) powi (ilog2 h + 1)"
      using "1.IH" False by (auto simp: h_def)
    have e: "ilog2 n = ilog2 h + 1" using False by (subst ilog2.simps) (simp add: h_def)
    have "0 \<le> ilog2 h" for h
      by (induction h rule: ilog2.induct) (subst ilog2.simps, simp)
    then have "(2 :: rat) powi (ilog2 h + 1) = of_int (2 ^ nat (ilog2 h + 1))"
      by (simp add: power_int_def)
    with IH(2) have "h + 1 \<le> 2 ^ nat (ilog2 h + 1)"
      by (metis of_int_less_iff zless_iff_Suc_zadd zless_imp_add1_zle)
    then have "of_int (h + 1) \<le> (2 :: rat) powi (ilog2 h + 1)"
      using \<open>(2 :: rat) powi (ilog2 h + 1) = _\<close> by (metis of_int_le_iff)
    moreover have "(of_int n :: rat) < 2 * of_int (h + 1)" "2 * of_int h \<le> (of_int n :: rat)"
      using n by auto
    ultimately show ?thesis using IH(1) unfolding e powi2_add by simp
  qed
qed

lemma flog2_bounds:
  assumes "0 < x"
  shows "2 powi flog2 x \<le> x \<and> x < 2 powi (flog2 x + 1)"
proof -
  obtain p q where pq: "quotient_of x = (p, q)" by (cases "quotient_of x")
  have q: "0 < q" using quotient_of_denom_pos [OF pq] .
  have x: "x = of_int p / of_int q" using quotient_of_div [OF pq] .
  with assms q have p: "0 < p" by (simp add: zero_less_divide_iff)
  define a where "a = ilog2 p"
  define b where "b = ilog2 q"
  note ai = ilog2_bounds [OF p, folded a_def]
  note bi = ilog2_bounds [OF q, folded b_def]
  define k where "k = a - b"
  have low: "2 powi (k - 1) \<le> x"
  proof -
    have "2 powi (k - 1) * of_int q \<le> 2 powi (k - 1) * (2 :: rat) powi (b + 1)"
      using bi by (intro mult_left_mono less_imp_le [OF powi2_pos]) simp
    also have "\<dots> = 2 powi a"
      unfolding k_def by (subst powi2_add [symmetric]) (simp add: algebra_simps)
    also have "\<dots> \<le> of_int p" using ai ..
    finally show ?thesis using q by (simp add: x pos_le_divide_eq)
  qed
  have high: "x < 2 powi (k + 1)"
  proof -
    have "of_int p < (2 :: rat) powi (a + 1)" using ai ..
    also have "\<dots> = 2 powi (k + 1) * (2 :: rat) powi b"
      unfolding k_def by (subst powi2_add [symmetric]) (simp add: algebra_simps)
    also have "\<dots> \<le> 2 powi (k + 1) * of_int q"
      using bi by (intro mult_left_mono less_imp_le [OF powi2_pos]) simp
    finally show ?thesis using q by (simp add: x pos_divide_less_eq)
  qed
  have "flog2 x = (if 2 powi k \<le> x then k else k - 1)"
    by (simp add: flog2_def pq k_def a_def b_def Let_def)
  then show ?thesis using low high by auto
qed

lemma flog2_unique:
  assumes "2 powi k \<le> x" and "x < 2 powi (k + 1)"
  shows "flog2 x = k"
proof -
  have x: "0 < x" using assms(1) powi2_pos [of k] by linarith
  have "k < flog2 x + 1"
    by (rule powi2_less_imp_less) (use assms flog2_bounds [OF x] in linarith)
  moreover have "flog2 x < k + 1"
    by (rule powi2_less_imp_less) (use assms flog2_bounds [OF x] in linarith)
  ultimately show ?thesis by simp
qed

lemma flog2_mono: "0 < x \<Longrightarrow> x \<le> y \<Longrightarrow> flog2 x \<le> flog2 y"
proof -
  assume x: "0 < x" "x \<le> y"
  have "2 powi flog2 x < (2 :: rat) powi (flog2 y + 1)"
    using flog2_bounds [of x] flog2_bounds [of y] x by linarith
  then show ?thesis using powi2_less_imp_less by fastforce
qed

subsection \<open>Rounding to an integer\<close>

lemma rne_of_int [simp]: "rne (of_int n) = n"
  by (simp add: rne_def)

lemma rne_error: "\<bar>of_int (rne x) - x\<bar> \<le> 1 / 2"
proof -
  have "of_int \<lfloor>x\<rfloor> \<le> x" "x < of_int \<lfloor>x\<rfloor> + 1" by linarith+
  then show ?thesis by (auto simp: rne_def Let_def abs_le_iff)
qed

lemma rne_mono: "x \<le> y \<Longrightarrow> rne x \<le> rne y"
proof (cases "\<lfloor>x\<rfloor> = \<lfloor>y\<rfloor>")
  case True
  assume "x \<le> y"
  with True show ?thesis by (auto simp: rne_def Let_def)
next
  case False
  assume "x \<le> y"
  then have "\<lfloor>x\<rfloor> \<le> \<lfloor>y\<rfloor>" by (rule floor_mono)
  with False have "\<lfloor>x\<rfloor> + 1 \<le> \<lfloor>y\<rfloor>" by simp
  moreover have "rne x \<le> \<lfloor>x\<rfloor> + 1" "\<lfloor>y\<rfloor> \<le> rne y" by (auto simp: rne_def Let_def)
  ultimately show ?thesis by linarith
qed

lemma rne_le_int: "x \<le> of_int n \<Longrightarrow> rne x \<le> n"
  using rne_mono [of x "of_int n"] by simp

lemma rne_ge_int: "of_int n \<le> x \<Longrightarrow> n \<le> rne x"
  using rne_mono [of "of_int n" x] by simp

subsection \<open>Rounding to a representable value\<close>

lemma ulp_pos [simp]: "0 < ulp x"
  by (simp add: ulp_def)

lemma rnd_zero [simp]: "rnd 0 = 0"
  by (simp add: rnd_def)

lemma flog2_le_exp: "flog2 \<bar>x\<bar> \<le> f64_exp x + 52"
  by (simp add: f64_exp_def)

lemma rnd_pos_le:
  assumes "0 < x" shows "rnd x \<le> 2 powi (f64_exp x + 53)"
proof -
  have "x < 2 powi (flog2 x + 1)" using flog2_bounds [OF assms] by simp
  also have "\<dots> \<le> 2 powi (f64_exp x + 53)"
    using flog2_le_exp [of x] assms by (intro powi2_mono) simp
  also have "\<dots> = 2 ^ 53 * ulp x" by (simp add: powi2_add ulp_def)
  finally have "x / ulp x \<le> of_int (2 ^ 53)" by (simp add: pos_divide_le_eq)
  then have "rne (x / ulp x) \<le> 2 ^ 53" by (rule rne_le_int)
  then have "of_int (rne (x / ulp x)) \<le> (2 ^ 53 :: rat)"
    by (metis of_int_le_iff of_int_numeral of_int_power)
  then have "of_int (rne (x / ulp x)) * ulp x \<le> 2 ^ 53 * ulp x"
    by (rule mult_right_mono) (simp add: less_imp_le)
  then show ?thesis using assms by (simp add: rnd_def powi2_add ulp_def)
qed

lemma rnd_pos_ge:
  assumes "0 < x" and e: "f64_exp x = flog2 x - 52" shows "2 powi flog2 x \<le> rnd x"
proof -
  have "2 powi flog2 x = (2 :: rat) powi (52 + f64_exp x)" using e by simp
  also have "\<dots> = 2 ^ 52 * ulp x" unfolding ulp_def by (subst powi2_add) simp
  finally have p: "2 powi flog2 x = 2 ^ 52 * ulp x" .
  have "2 powi flog2 x \<le> x" using flog2_bounds [OF assms(1)] by simp
  with p have "of_int (2 ^ 52) \<le> x / ulp x" by (simp add: pos_le_divide_eq)
  then have "2 ^ 52 \<le> rne (x / ulp x)" by (rule rne_ge_int)
  then have "(2 ^ 52 :: rat) \<le> of_int (rne (x / ulp x))"
    by (metis of_int_le_iff of_int_numeral of_int_power)
  then have "2 ^ 52 * ulp x \<le> of_int (rne (x / ulp x)) * ulp x"
    by (rule mult_right_mono) (simp add: less_imp_le)
  then show ?thesis using assms by (simp add: rnd_def p)
qed

lemma rnd_nonneg: "0 \<le> x \<Longrightarrow> 0 \<le> rnd x"
proof -
  assume "0 \<le> x"
  then have "0 \<le> x / ulp x" by (simp add: divide_nonneg_pos)
  then have "0 \<le> rne (x / ulp x)" using rne_ge_int [of 0 "x / ulp x"] by simp
  then show ?thesis by (simp add: rnd_def less_imp_le)
qed

lemma rnd_mono_pos:
  assumes x: "0 < x" and xy: "x \<le> y" shows "rnd x \<le> rnd y"
proof (cases "f64_exp x = f64_exp y")
  case True
  then have u: "ulp x = ulp y" by (simp add: ulp_def)
  have "x / ulp y \<le> y / ulp y" using xy by (simp add: divide_right_mono less_imp_le)
  then have "rne (x / ulp y) \<le> rne (y / ulp y)" by (rule rne_mono)
  then have "of_int (rne (x / ulp y)) * ulp y \<le> of_int (rne (y / ulp y)) * ulp y"
    by (intro mult_right_mono) (simp_all add: less_imp_le)
  with x xy show ?thesis by (simp add: rnd_def u)
next
  case False
  have "flog2 x \<le> flog2 y" using flog2_mono [OF x xy] .
  then have "f64_exp x \<le> f64_exp y" using x xy by (auto simp: f64_exp_def)
  with False have lt: "f64_exp x + 1 \<le> f64_exp y" by simp
  then have ey: "f64_exp y = flog2 y - 52" using x xy by (auto simp: f64_exp_def)
  have "rnd x \<le> 2 powi (f64_exp x + 53)" by (rule rnd_pos_le [OF x])
  also have "\<dots> \<le> 2 powi flog2 y" using lt ey by (intro powi2_mono) simp
  also have "\<dots> \<le> rnd y" using x xy ey by (intro rnd_pos_ge) simp_all
  finally show ?thesis .
qed

lemma rne_minus: "rne (- x) = - rne x"
proof (cases "x = of_int \<lfloor>x\<rfloor>")
  case True
  then show ?thesis by (metis of_int_minus rne_of_int)
next
  case False
  then have c: "\<lfloor>- x\<rfloor> = - \<lfloor>x\<rfloor> - 1" by linarith
  show ?thesis unfolding rne_def Let_def c by auto
qed

lemma ulp_minus [simp]: "ulp (- x) = ulp x"
  by (simp add: ulp_def f64_exp_def)

lemma rnd_minus: "rnd (- x) = - rnd x"
  by (simp add: rnd_def rne_minus)

lemma rnd_mono: "x \<le> y \<Longrightarrow> rnd x \<le> rnd y"
proof -
  assume xy: "x \<le> y"
  consider "0 < x" | "x \<le> 0 \<and> 0 \<le> y" | "y < 0" by linarith
  then show ?thesis
  proof cases
    case 1
    then show ?thesis using xy by (rule rnd_mono_pos)
  next
    case 2
    then have "0 \<le> rnd (- x)" "0 \<le> rnd y" by (auto intro: rnd_nonneg)
    then show ?thesis by (simp add: rnd_minus)
  next
    case 3
    then have "rnd (- y) \<le> rnd (- x)" using xy by (intro rnd_mono_pos) simp_all
    then show ?thesis by (simp add: rnd_minus)
  qed
qed

subsection \<open>Representable values are fixed points\<close>

lemma flog2_less_powi: "0 < x \<Longrightarrow> x < 2 powi k \<Longrightarrow> flog2 x < k"
proof -
  assume "0 < x" "x < 2 powi k"
  with flog2_bounds [of x] have "2 powi flog2 x < (2 :: rat) powi k" by linarith
  then show ?thesis by (rule powi2_less_imp_less)
qed

lemma rnd_grid:
  assumes "f64_exp (of_int m * 2 powi e) \<le> e"
  shows "rnd (of_int m * 2 powi e) = of_int m * 2 powi e"
proof (cases "m = 0")
  case True
  then show ?thesis by simp
next
  case False
  let ?x = "of_int m * 2 powi e :: rat"
  define d where "d = nat (e - f64_exp ?x)"
  have "e = f64_exp ?x + int d" using assms by (simp add: d_def)
  then have "2 powi e = ulp ?x * 2 ^ d"
    by (metis power_int_of_nat powi2_add ulp_def)
  then have "?x = of_int (m * 2 ^ d) * ulp ?x" by (simp add: mult_ac)
  then have q: "?x / ulp ?x = of_int (m * 2 ^ d)"
    using ulp_pos [of ?x] by (metis less_irrefl nonzero_eq_divide_eq)
  have "rnd ?x = of_int (rne (?x / ulp ?x)) * ulp ?x"
    using False by (simp add: rnd_def)
  also have "\<dots> = of_int (m * 2 ^ d) * ulp ?x" unfolding q by (simp only: rne_of_int)
  also have "\<dots> = ?x" by (rule sym) fact
  finally show ?thesis .
qed

lemma rnd_representable: "representable x \<Longrightarrow> rnd x = x"
proof -
  assume "representable x"
  then obtain m e where x: "x = of_int m * 2 powi e" and m: "\<bar>m\<bar> \<le> 2 ^ 53" and e: "- 1074 \<le> e"
    by (auto simp: representable_def)
  show ?thesis
  proof (cases "\<bar>m\<bar> < 2 ^ 53")
    case True
    show ?thesis
    proof (cases "m = 0")
      case True
      then show ?thesis by (simp add: x)
    next
      case False
      have "\<bar>x\<bar> = of_int \<bar>m\<bar> * 2 powi e" by (simp add: x abs_mult)
      also have "\<dots> < 2 ^ 53 * 2 powi e"
        using \<open>\<bar>m\<bar> < 2 ^ 53\<close> by (intro mult_strict_right_mono) (simp_all flip: of_int_less_iff)
      also have "\<dots> = 2 powi (53 + e)" by (subst powi2_add) simp
      finally have "flog2 \<bar>x\<bar> < 53 + e" using False x by (intro flog2_less_powi) auto
      then have "f64_exp x \<le> e" using e by (simp add: f64_exp_def)
      then show ?thesis unfolding x by (rule rnd_grid)
    qed
  next
    case False
    with m have "m = 2 ^ 53 \<or> m = - (2 ^ 53)" by linarith
    then obtain s :: int where s: "\<bar>s\<bar> = 1" and ms: "m = s * 2 ^ 53"
      by (metis abs_minus_cancel abs_one mult_1 mult_minus1)
    have x': "x = of_int s * 2 powi (53 + e)" unfolding x ms by (subst powi2_add) simp
    have "\<bar>x\<bar> = 2 powi (53 + e)" unfolding x' using s by (simp add: abs_mult flip: of_int_abs)
    then have "flog2 \<bar>x\<bar> = 53 + e" by (intro flog2_unique) (simp_all add: powi2_add)
    then have "f64_exp x \<le> 53 + e" using e by (simp add: f64_exp_def)
    then show ?thesis unfolding x' by (rule rnd_grid)
  qed
qed

lemma representable_int: "\<bar>n\<bar> \<le> 2 ^ 53 \<Longrightarrow> representable (of_int n)"
  unfolding representable_def by (rule exI [of _ n], rule exI [of _ 0]) simp

lemma rnd_int: "\<bar>n\<bar> \<le> 2 ^ 53 \<Longrightarrow> rnd (of_int n) = of_int n"
  by (rule rnd_representable) (rule representable_int)

lemma representable_rnd: "representable (rnd x)"
proof -
  have pos: "representable (rnd x)" if x: "0 < x" for x
  proof -
    have "rnd x \<le> 2 powi (53 + f64_exp x)" using rnd_pos_le [OF x] by (simp add: add.commute)
    also have "\<dots> = 2 ^ 53 * ulp x" unfolding ulp_def by (subst powi2_add) simp
    finally have "of_int (rne (x / ulp x)) * ulp x \<le> 2 ^ 53 * ulp x"
      using x by (simp add: rnd_def)
    then have "of_int (rne (x / ulp x)) \<le> (2 ^ 53 :: rat)" by (simp add: mult_le_cancel_right)
    then have "rne (x / ulp x) \<le> 2 ^ 53"
      by (metis of_int_le_iff of_int_numeral of_int_power)
    moreover have "0 \<le> rne (x / ulp x)"
      using rne_ge_int [of 0 "x / ulp x"] x by (simp add: less_imp_le)
    ultimately show ?thesis
      unfolding representable_def ulp_def rnd_def using x
      by (intro exI [of _ "rne (x / ulp x)"] exI [of _ "f64_exp x"]) (simp add: f64_exp_def ulp_def)
  qed
  have neg: "representable (- y)" if r: "representable y" for y
  proof -
    obtain m e where "y = of_int m * 2 powi e" "\<bar>m\<bar> \<le> 2 ^ 53" "- 1074 \<le> e"
      using r unfolding representable_def by blast
    then show ?thesis
      unfolding representable_def by (intro exI [of _ "- m"] exI [of _ e]) simp
  qed
  consider "0 < x" | "x = 0" | "0 < - x" by linarith
  then show ?thesis
  proof cases
    case 1
    then show ?thesis by (rule pos)
  next
    case 2
    then show ?thesis using representable_int [of 0] by simp
  next
    case 3
    then show ?thesis using neg [OF pos [OF 3]] by (simp add: rnd_minus)
  qed
qed

section \<open>The float64 values and operations the code uses\<close>

text \<open>Magnitudes from \<open>2 ^ 1024\<close> on overflow to an infinity.\<close>

definition f64_lim :: rat where
  "f64_lim = 2 ^ 1024"

lemma f64_lim_pos [simp]: "0 < f64_lim"
  by (simp add: f64_lim_def)

lemma numeral_less_f64_lim [simp]: "1 < f64_lim" "100 < f64_lim"
  by (simp_all add: f64_lim_def)

lemma f64_lim_not_le_zero [simp]: "\<not> f64_lim \<le> 0"
  by (simp add: f64_lim_def)

lemma less_f64_lim: "x \<le> 2 ^ 1000 \<Longrightarrow> x < f64_lim"
  by (rule le_less_trans [of _ "2 ^ 1000"]) (simp_all add: f64_lim_def)

datatype f64 = FNaN | FPInf | FNInf | FFin rat

definition f64_of :: "rat \<Rightarrow> f64" where
  "f64_of x =
     (let r = rnd x
      in if f64_lim \<le> r then FPInf else if r \<le> - f64_lim then FNInf else FFin r)"

text \<open>A float64 holds a representable value below the overflow limit, or is special.\<close>

fun wf_f64 :: "f64 \<Rightarrow> bool" where
  "wf_f64 (FFin x) = (representable x \<and> \<bar>x\<bar> < f64_lim)"
| "wf_f64 _ = True"

fun f_le :: "f64 \<Rightarrow> f64 \<Rightarrow> bool" where
  "f_le FNaN y = False"
| "f_le FNInf y = (y \<noteq> FNaN)"
| "f_le FPInf y = (y = FPInf)"
| "f_le (FFin x) (FFin y) = (x \<le> y)"
| "f_le (FFin x) y = (y = FPInf)"

fun f_lt :: "f64 \<Rightarrow> f64 \<Rightarrow> bool" where
  "f_lt FNaN y = False"
| "f_lt FPInf y = False"
| "f_lt FNInf y = (y \<noteq> FNaN \<and> y \<noteq> FNInf)"
| "f_lt (FFin x) (FFin y) = (x < y)"
| "f_lt (FFin x) y = (y = FPInf)"

definition f_eq :: "f64 \<Rightarrow> f64 \<Rightarrow> bool" where
  "f_eq x y = (x \<noteq> FNaN \<and> x = y)"

fun f_neg :: "f64 \<Rightarrow> f64" where
  "f_neg FNaN = FNaN"
| "f_neg FPInf = FNInf"
| "f_neg FNInf = FPInf"
| "f_neg (FFin x) = FFin (- x)"

fun f_add :: "f64 \<Rightarrow> f64 \<Rightarrow> f64" where
  "f_add (FFin x) (FFin y) = f64_of (x + y)"
| "f_add FNaN y = FNaN"
| "f_add x FNaN = FNaN"
| "f_add FPInf y = (if y = FNInf then FNaN else FPInf)"
| "f_add FNInf y = (if y = FPInf then FNaN else FNInf)"
| "f_add x y = y"

definition f_sub :: "f64 \<Rightarrow> f64 \<Rightarrow> f64" where
  "f_sub x y = f_add x (f_neg y)"

text \<open>An infinite result of the sign of the given rational; \<open>NaN\<close> for zero.\<close>

definition f_inf_sgn :: "rat \<Rightarrow> f64" where
  "f_inf_sgn s = (if 0 < s then FPInf else if s < 0 then FNInf else FNaN)"

fun f_sgn :: "f64 \<Rightarrow> rat" where
  "f_sgn (FFin x) = sgn x"
| "f_sgn FPInf = 1"
| "f_sgn FNInf = - 1"
| "f_sgn FNaN = 0"

fun f_mul :: "f64 \<Rightarrow> f64 \<Rightarrow> f64" where
  "f_mul (FFin x) (FFin y) = f64_of (x * y)"
| "f_mul x y = (if x = FNaN \<or> y = FNaN then FNaN else f_inf_sgn (f_sgn x * f_sgn y))"

text \<open>
  Division.  A zero divisor gives an infinity whose sign would need the sign of that
  zero; the callers only divide by strictly positive values.
\<close>

fun f_div :: "f64 \<Rightarrow> f64 \<Rightarrow> f64" where
  "f_div (FFin x) (FFin y) = (if y = 0 then f_inf_sgn x else f64_of (x / y))"
| "f_div FNaN y = FNaN"
| "f_div x FNaN = FNaN"
| "f_div (FFin x) y = FFin 0"
| "f_div x (FFin y) = f_inf_sgn (f_sgn x * (if y = 0 then 1 else sgn y))"
| "f_div x y = FNaN"

text \<open>\<open>math.Abs\<close>, \<open>math.Round\<close> (half away from zero), \<open>math.IsNaN\<close>, \<open>math.IsInf(x, 0)\<close>.\<close>

fun f_abs :: "f64 \<Rightarrow> f64" where
  "f_abs FNaN = FNaN"
| "f_abs FPInf = FPInf"
| "f_abs FNInf = FPInf"
| "f_abs (FFin x) = FFin \<bar>x\<bar>"

definition round_away :: "rat \<Rightarrow> int" where
  "round_away x = (if 0 \<le> x then \<lfloor>x + 1 / 2\<rfloor> else - \<lfloor>1 / 2 - x\<rfloor>)"

fun f_round :: "f64 \<Rightarrow> f64" where
  "f_round (FFin x) = FFin (of_int (round_away x))"
| "f_round x = x"

definition f_isNaN :: "f64 \<Rightarrow> bool" where
  "f_isNaN x = (x = FNaN)"

definition f_isInf :: "f64 \<Rightarrow> bool" where
  "f_isInf x = (x = FPInf \<or> x = FNInf)"

text \<open>
  \<open>math.Nextafter\<close> on finite values: the neighbour of \<open>x\<close> in the direction of \<open>y\<close>.
  Below a power of two the spacing halves, down to the subnormal spacing.
\<close>

definition f_mag_up :: "rat \<Rightarrow> rat" where
  "f_mag_up x = (if x = 0 then 2 powi (- 1074) else x + ulp x)"

definition f_mag_down :: "rat \<Rightarrow> rat" where
  "f_mag_down x =
     (if x = 2 powi flog2 x \<and> - 1074 < f64_exp x then x - ulp x / 2 else x - ulp x)"

definition f_nextafter :: "rat \<Rightarrow> rat \<Rightarrow> rat" where
  "f_nextafter x y =
     (if x = y then x
      else if x = 0 then (if 0 < y then f_mag_up 0 else - f_mag_up 0)
      else if (x < y) = (0 < x) then sgn x * f_mag_up \<bar>x\<bar>
      else sgn x * f_mag_down \<bar>x\<bar>)"

text \<open>
  The conversion \<open>int64(x)\<close> truncates.  Go leaves the result of an out-of-range
  conversion to the implementation: \<open>ovf\<close> is that unknown result.
\<close>

definition f_trunc :: "rat \<Rightarrow> int" where
  "f_trunc x = (if 0 \<le> x then \<lfloor>x\<rfloor> else \<lceil>x\<rceil>)"

fun in_int64 :: "f64 \<Rightarrow> bool" where
  "in_int64 (FFin x) = (- (2 ^ 63) \<le> f_trunc x \<and> f_trunc x < 2 ^ 63)"
| "in_int64 x = False"

fun f_to_int64 :: "(f64 \<Rightarrow> int64) \<Rightarrow> f64 \<Rightarrow> int64" where
  "f_to_int64 ovf (FFin x) =
     (if in_int64 (FFin x) then word_of_int (f_trunc x) else ovf (FFin x))"
| "f_to_int64 ovf x = ovf x"

definition f_of_int :: "int \<Rightarrow> f64" where
  "f_of_int n = f64_of (of_int n)"

subsection \<open>Basic facts\<close>

lemma f64_of_cases: "f64_of x = FPInf \<or> f64_of x = FNInf \<or> f64_of x = FFin (rnd x)"
  by (simp add: f64_of_def Let_def)

lemma f64_of_not_NaN [simp]: "f64_of x \<noteq> FNaN"
  using f64_of_cases [of x] by auto

lemma wf_f64_of [simp]: "wf_f64 (f64_of x)"
  by (auto simp: f64_of_def Let_def representable_rnd abs_less_iff)

lemma f64_of_bounded:
  assumes "- b \<le> x" "x \<le> b" "representable b" "b < f64_lim"
  shows "f64_of x = FFin (rnd x)" "- b \<le> rnd x" "rnd x \<le> b"
proof -
  have "rnd x \<le> rnd b" "rnd (- b) \<le> rnd x" using assms by (auto intro: rnd_mono)
  then show b: "- b \<le> rnd x" "rnd x \<le> b"
    using rnd_representable [OF assms(3)] by (simp_all add: rnd_minus)
  then show "f64_of x = FFin (rnd x)" using assms(4) by (auto simp: f64_of_def Let_def)
qed

lemma f64_of_representable:
  "representable x \<Longrightarrow> \<bar>x\<bar> < f64_lim \<Longrightarrow> f64_of x = FFin x"
  by (auto simp: f64_of_def Let_def rnd_representable)

lemma f64_lim_excl: "f64_lim \<le> r \<Longrightarrow> \<not> r \<le> - f64_lim"
  using f64_lim_pos by linarith

lemma f64_of_minus: "f64_of (- x) = f_neg (f64_of x)"
proof -
  have "(f64_lim \<le> - r) = (r \<le> - f64_lim)" "(- r \<le> - f64_lim) = (f64_lim \<le> r)" for r
    by linarith+
  then show ?thesis
    using f64_lim_excl [of "rnd x"] by (simp add: f64_of_def Let_def rnd_minus)
qed

lemma f_abs_f64_of: "f_abs (f64_of x) = f64_of \<bar>x\<bar>"
proof -
  have pos: "f_abs (f64_of y) = f64_of y" if "0 \<le> y" for y
  proof -
    have "\<not> rnd y \<le> - f64_lim" using rnd_nonneg [OF that] f64_lim_pos by linarith
    then show ?thesis using rnd_nonneg [OF that] by (simp add: f64_of_def Let_def)
  qed
  have "f_abs (f_neg y) = f_abs y" for y by (cases y) simp_all
  then have "f_abs (f64_of x) = f_abs (f64_of (- x))" by (simp add: f64_of_minus)
  then show ?thesis using pos [of x] pos [of "- x"] by (cases "0 \<le> x") simp_all
qed

lemma f64_of_int [f64_simps]: "\<bar>n\<bar> \<le> 2 ^ 53 \<Longrightarrow> f64_of (of_int n) = FFin (of_int n)"
proof (rule f64_of_representable)
  assume n: "\<bar>n\<bar> \<le> 2 ^ 53"
  then show "representable (of_int n)" by (rule representable_int)
  have "\<bar>of_int n :: rat\<bar> \<le> of_int (2 ^ 53)" using n by (simp only: of_int_abs [symmetric] of_int_le_iff)
  also have "\<dots> < f64_lim" by (rule less_f64_lim) simp
  finally show "\<bar>of_int n :: rat\<bar> < f64_lim" .
qed

lemma round_away_of_int [simp]: "round_away (of_int n) = n"
proof -
  have "\<lfloor>of_int n + 1 / 2 :: rat\<rfloor> = n" "\<lfloor>1 / 2 - of_int n :: rat\<rfloor> = - n"
    by (rule floor_unique; simp)+
  then show ?thesis by (simp add: round_away_def)
qed

lemma round_away_int_bounds:
  assumes "of_int a \<le> x" "x \<le> of_int b"
  shows "a \<le> round_away x" "round_away x \<le> b"
proof -
  have mono: "u \<le> v \<Longrightarrow> round_away u \<le> round_away v" for u v
    unfolding round_away_def by (auto; linarith)
  show "a \<le> round_away x" using mono [OF assms(1)] by simp
  show "round_away x \<le> b" using mono [OF assms(2)] by simp
qed

lemma round_away_mono: "x \<le> y \<Longrightarrow> round_away x \<le> round_away y"
  unfolding round_away_def by (auto; linarith)

lemma round_away_nonneg: "0 \<le> x \<Longrightarrow> 0 \<le> round_away x"
  unfolding round_away_def by simp

lemma f_trunc_of_int [simp]: "f_trunc (of_int n) = n"
  by (simp add: f_trunc_def)

lemma f_to_int64_in_range: "in_int64 x \<Longrightarrow> f_to_int64 ovf x = f_to_int64 ovf' x"
  by (cases x) simp_all

text \<open>Rounding a concrete value: exhibit the exponent and the nearest integer multiple.\<close>

lemma rne_eqI: "\<bar>of_int m - x\<bar> < 1 / 2 \<Longrightarrow> rne x = m"
  using rne_error [of x] by linarith

lemma rnd_eqI:
  assumes "2 powi (e + 52) \<le> x" "x < 2 powi (e + 53)" "- 1074 \<le> e"
    and "\<bar>of_int m - x / 2 powi e\<bar> < 1 / 2"
  shows "rnd x = of_int m * 2 powi e"
proof -
  have x: "0 < x" using assms(1) powi2_pos [of "e + 52"] by linarith
  have "flog2 x = e + 52" using assms(1,2) by (intro flog2_unique) (simp_all add: add.commute)
  then have "f64_exp x = e" using x assms(3) by (simp add: f64_exp_def)
  then have "ulp x = 2 powi e" by (simp add: ulp_def)
  then show ?thesis using x rne_eqI [OF assms(4)] by (simp add: rnd_def)
qed

subsection \<open>Relative error of one rounding\<close>

lemma rnd_rel_error:
  assumes "2 powi (- 1022) \<le> \<bar>x\<bar>"
  shows "\<bar>rnd x - x\<bar> \<le> \<bar>x\<bar> / 2 ^ 53"
proof -
  have x: "0 < \<bar>x\<bar>" using assms powi2_pos [of "- 1022"] by linarith
  have "2 powi (- 1022) < (2 :: rat) powi (flog2 \<bar>x\<bar> + 1)"
    using assms flog2_bounds [OF x] by linarith
  then have "- 1022 \<le> flog2 \<bar>x\<bar>" using powi2_less_imp_less by fastforce
  then have "flog2 \<bar>x\<bar> = f64_exp x + 52" by (simp add: f64_exp_def)
  then have u: "2 powi flog2 \<bar>x\<bar> = ulp x * 2 ^ 52" by (simp add: powi2_add ulp_def)
  have "\<bar>rnd x - x\<bar> = \<bar>of_int (rne (x / ulp x)) - x / ulp x\<bar> * ulp x"
  proof -
    have "(of_int (rne (x / ulp x)) - x / ulp x) * ulp x = rnd x - x"
      using x ulp_pos [of x] by (auto simp: rnd_def left_diff_distrib simp del: ulp_pos)
    then show ?thesis using ulp_pos [of x] by (metis abs_mult abs_of_pos)
  qed
  also have "\<dots> \<le> 1 / 2 * ulp x"
    by (rule mult_right_mono [OF rne_error]) (simp add: less_imp_le)
  also have "\<dots> = (ulp x * 2 ^ 52) / 2 ^ 53" by simp
  also have "\<dots> \<le> \<bar>x\<bar> / 2 ^ 53"
    using flog2_bounds [OF x] u by (simp add: divide_right_mono)
  finally show ?thesis .
qed

lemma rnd_rel_bounds:
  assumes "2 powi (- 1022) \<le> x"
  shows "x * (1 - 1 / 2 ^ 53) \<le> rnd x" "rnd x \<le> x * (1 + 1 / 2 ^ 53)"
proof -
  have "0 < x" using assms powi2_pos [of "- 1022"] by linarith
  then have e: "\<bar>rnd x - x\<bar> \<le> x / 2 ^ 53" using rnd_rel_error [of x] assms by simp
  then have "rnd x - x \<le> x / 2 ^ 53" "x - rnd x \<le> x / 2 ^ 53" by linarith+
  then show "x * (1 - 1 / 2 ^ 53) \<le> rnd x" "rnd x \<le> x * (1 + 1 / 2 ^ 53)"
    by (simp_all add: field_simps)
qed

text \<open>One rounding moves a normal value by a factor within \<open>1 - 2 ^ - 53\<close> and \<open>1 + 2 ^ - 53\<close>.\<close>

lemma f64_of_normal:
  assumes "2 powi (- 1022) \<le> x" "x \<le> 2 powi 1000"
  shows "f64_of x = FFin (rnd x)" "x * (1 - 1 / 2 ^ 53) \<le> rnd x" "rnd x \<le> x * (1 + 1 / 2 ^ 53)"
proof -
  have r: "representable (2 ^ 1000)"
    unfolding representable_def by (rule exI [of _ 1], rule exI [of _ 1000]) simp
  have x: "0 \<le> x" using assms(1) powi2_pos [of "- 1022"] by linarith
  show "f64_of x = FFin (rnd x)"
    by (rule f64_of_bounded [of "2 ^ 1000"]) (use r x assms less_f64_lim [of "2 ^ 1000"] in simp_all)
  show "x * (1 - 1 / 2 ^ 53) \<le> rnd x" "rnd x \<le> x * (1 + 1 / 2 ^ 53)"
    using rnd_rel_bounds assms by auto
qed

text \<open>A representable value of at least \<open>2 ^ k\<close> is a multiple of \<open>2 ^ (k - 53)\<close>.\<close>

lemma representable_grid:
  assumes "representable x" "2 powi k \<le> x" "- 1074 \<le> k - 53"
  shows "\<exists>n. x = of_int n * 2 powi (k - 53)"
proof -
  obtain m e where x: "x = of_int m * 2 powi e" and m: "\<bar>m\<bar> \<le> 2 ^ 53"
    using assms(1) unfolding representable_def by blast
  have "(2 :: rat) powi k \<le> of_int m * 2 powi e" using assms(2) x by simp
  also have "\<dots> \<le> of_int (2 ^ 53) * 2 powi e"
    using m by (intro mult_right_mono) (simp_all only: of_int_le_iff powi2_pos less_imp_le abs_le_iff)
  also have "\<dots> = 2 powi (53 + e)" by (subst powi2_add) simp
  finally have "(2 :: rat) powi k < 2 powi (53 + e + 1)"
    by (rule le_less_trans) (rule power_int_strict_increasing, simp_all)
  then have "k < 53 + e + 1" by (rule powi2_less_imp_less)
  then have "e = (k - 53) + int (nat (e - (k - 53)))" by simp
  then have "(2 :: rat) powi e = 2 powi (k - 53) * 2 ^ nat (e - (k - 53))"
    by (metis power_int_of_nat powi2_add)
  then have "x = of_int (m * 2 ^ nat (e - (k - 53))) * 2 powi (k - 53)" by (simp add: x)
  then show ?thesis by blast
qed

end
