(* ===== verification/Go_Number.thy ===== *)
theory Go_Number
  imports Float64
begin

text \<open>
  The number readers of Go's standard library the code calls: \<open>strconv.ParseFloat\<close> at 64
  bits and \<open>time.ParseDuration\<close>.  Both are total functions here; an error is \<open>None\<close> (the
  callers look at nothing but its presence).
\<close>

section \<open>Digits\<close>

definition digit_val :: "char \<Rightarrow> int" where
  "digit_val c = of_char c - 48"

definition lower_byte :: "char \<Rightarrow> char" where
  "lower_byte c = to_lower_byte c"

definition is_hex_letter :: "char \<Rightarrow> bool" where
  "is_hex_letter c = (let n = of_char (lower_byte c) :: nat in 97 \<le> n \<and> n \<le> 102)"

definition hex_val :: "char \<Rightarrow> int" where
  "hex_val c = (if is_digit c then digit_val c else of_char (lower_byte c) - 87)"

section \<open>ParseFloat\<close>

text \<open>
  The mantissa scan of \<open>readFloat\<close>: digits of the base, underscores and at most one dot.
  The accumulator holds the mantissa, the number of digits after the dot, and whether a
  dot, a digit, an underscore was seen; the scan stops at the first other byte.
\<close>

record float_scan =
  fs_mant :: int
  fs_frac :: int
  fs_dot :: bool
  fs_digits :: bool
  fs_under :: bool

definition digit_of_base :: "int \<Rightarrow> char \<Rightarrow> bool" where
  "digit_of_base b c = (is_digit c \<or> b = 16 \<and> is_hex_letter c)"

fun scan_mantissa :: "int \<Rightarrow> float_scan \<Rightarrow> string \<Rightarrow> float_scan \<times> string" where
  "scan_mantissa b st [] = (st, [])"
| "scan_mantissa b st (c # cs) =
     (if c = CHR ''_'' then scan_mantissa b (st\<lparr>fs_under := True\<rparr>) cs
      else if c = CHR ''.'' then
        (if fs_dot st then (st, c # cs) else scan_mantissa b (st\<lparr>fs_dot := True\<rparr>) cs)
      else if digit_of_base b c then
        scan_mantissa b
          (st\<lparr>fs_mant := fs_mant st * b + hex_val c,
              fs_frac := fs_frac st + (if fs_dot st then 1 else 0), fs_digits := True\<rparr>) cs
      else (st, c # cs))"

text \<open>The exponent digits: values stop growing once they reach five digits.\<close>

fun scan_exponent :: "int \<Rightarrow> bool \<Rightarrow> string \<Rightarrow> (int \<times> bool) \<times> string" where
  "scan_exponent e u [] = ((e, u), [])"
| "scan_exponent e u (c # cs) =
     (if c = CHR ''_'' then scan_exponent e True cs
      else if is_digit c then
        scan_exponent (if e < 10000 then e * 10 + digit_val c else e) u cs
      else ((e, u), c # cs))"

text \<open>
  \<open>underscoreOK\<close>: an underscore only between two digits, or between the base prefix and a
  digit.  The state is the class of the previous byte: \<open>0\<close> for a digit, \<open>_\<close> for an
  underscore, \<open>!\<close> for anything else, \<open>^\<close> at the beginning.
\<close>

fun underscore_scan :: "bool \<Rightarrow> char \<Rightarrow> string \<Rightarrow> bool" where
  "underscore_scan hex st [] = (st \<noteq> CHR ''_'')"
| "underscore_scan hex st (c # cs) =
     (if is_digit c \<or> hex \<and> is_hex_letter c then underscore_scan hex (CHR ''0'') cs
      else if c = CHR ''_'' then st = CHR ''0'' \<and> underscore_scan hex (CHR ''_'') cs
      else st \<noteq> CHR ''_'' \<and> underscore_scan hex (CHR ''!'') cs)"

definition underscoreOK :: "string \<Rightarrow> bool" where
  "underscoreOK s =
     (let s = (case s of c # cs \<Rightarrow> if c = CHR ''-'' \<or> c = CHR ''+'' then cs else s | [] \<Rightarrow> s)
      in case s of
           z # p # cs \<Rightarrow>
             (if z = CHR ''0'' \<and> lower_byte p \<in> set ''box''
              then underscore_scan (lower_byte p = CHR ''x'') (CHR ''0'') cs
              else underscore_scan False (CHR ''^'') s)
         | _ \<Rightarrow> underscore_scan False (CHR ''^'') s)"

text \<open>The optional sign.\<close>

definition read_sign :: "string \<Rightarrow> bool \<times> string" where
  "read_sign s =
     (case s of
        c # cs \<Rightarrow> if c = CHR ''+'' then (False, cs) else if c = CHR ''-'' then (True, cs)
                  else (False, s)
      | [] \<Rightarrow> (False, []))"

text \<open>The optional exponent part; \<open>None\<close> when it is malformed or missing after hex digits.\<close>

definition read_exponent :: "int \<Rightarrow> string \<Rightarrow> (int \<times> bool \<times> string) option" where
  "read_exponent b s =
     (case s of
        c # cs \<Rightarrow>
          (if lower_byte c = (if b = 16 then CHR ''p'' else CHR ''e'') then
             (let (neg, t) = read_sign cs
              in case t of
                   d # _ \<Rightarrow>
                     (if is_digit d then
                        (let ((e, u), r) = scan_exponent 0 False t
                         in Some (if neg then - e else e, u, r))
                      else None)
                 | [] \<Rightarrow> None)
           else if b = 16 then None else Some (0, False, s))
      | [] \<Rightarrow> if b = 16 then None else Some (0, False, []))"

text \<open>\<open>readFloat\<close> on a whole string: the exact rational it denotes.\<close>

definition readFloat :: "string \<Rightarrow> rat option" where
  "readFloat s =
     (let (neg, t) = read_sign s;
          hexp = (case t of z # x # _ # _ \<Rightarrow> z = CHR ''0'' \<and> lower_byte x = CHR ''x'' | _ \<Rightarrow> False);
          b = (if hexp then 16 else 10 :: int);
          (st, r) = scan_mantissa b
            \<lparr>fs_mant = 0, fs_frac = 0, fs_dot = False, fs_digits = False, fs_under = False\<rparr>
            (if hexp then drop 2 t else t)
      in if \<not> fs_digits st then None
         else case read_exponent b r of
                None \<Rightarrow> None
              | Some (e, u, rest) \<Rightarrow>
                  (if rest \<noteq> [] \<or> ((fs_under st \<or> u) \<and> \<not> underscoreOK s) then None
                   else let m = of_int (fs_mant st) :: rat;
                            v = (if hexp then m * 2 powi (e - 4 * fs_frac st)
                                 else m * 10 powi (e - fs_frac st))
                        in Some (if neg then - v else v)))"

text \<open>The special values: signed \<open>inf\<close> and \<open>infinity\<close>, unsigned \<open>nan\<close>, in any case.\<close>

definition float_special :: "string \<Rightarrow> f64 option" where
  "float_special s =
     (let low = map lower_byte s; (neg, t) = read_sign low
      in if t = ''inf'' \<or> t = ''infinity'' then Some (if neg then FNInf else FPInf)
         else if low = ''nan'' then Some FNaN else None)"

text \<open>\<open>ParseFloat(s, 64)\<close>: correctly rounded; a finite number that overflows is an error.\<close>

definition ParseFloat :: "string \<Rightarrow> f64 option" where
  "ParseFloat s =
     (case float_special s of
        Some v \<Rightarrow> Some v
      | None \<Rightarrow>
          (case readFloat s of
             None \<Rightarrow> None
           | Some x \<Rightarrow> (case f64_of x of FFin r \<Rightarrow> Some (FFin r) | _ \<Rightarrow> None)))"

section \<open>ParseDuration\<close>

text \<open>Unsigned 64-bit accumulators; every product and sum is checked before it can wrap.\<close>

fun leadingInt :: "int \<Rightarrow> string \<Rightarrow> (int \<times> string) option" where
  "leadingInt x [] = Some (x, [])"
| "leadingInt x (c # cs) =
     (if \<not> is_digit c then Some (x, c # cs)
      else if 2 ^ 63 div 10 < x then None
      else let y = x * 10 + digit_val c in if 2 ^ 63 < y then None else leadingInt y cs)"

text \<open>The fraction digits: value and its power of ten; once it would overflow, digits are skipped.\<close>

fun leadingFraction :: "int \<Rightarrow> int \<Rightarrow> bool \<Rightarrow> string \<Rightarrow> (int \<times> int) \<times> string" where
  "leadingFraction x k ov [] = ((x, k), [])"
| "leadingFraction x k ov (c # cs) =
     (if \<not> is_digit c then ((x, k), c # cs)
      else if ov \<or> (2 ^ 63 - 1) div 10 < x then leadingFraction x k True cs
      else let y = x * 10 + digit_val c
           in if 2 ^ 63 < y then leadingFraction x k True cs
              else leadingFraction y (10 * k) False cs)"

definition duration_unit :: "string \<Rightarrow> int option" where
  "duration_unit u =
     map_of [(''ns'', 1), (''us'', 1000), ([CHR 0xC2, CHR 0xB5, CHR ''s''], 1000),
             ([CHR 0xCE, CHR 0xBC, CHR ''s''], 1000), (''ms'', 1000000),
             (''s'', 1000000000), (''m'', 60000000000), (''h'', 3600000000000)] u"

definition unit_byte_go :: "char \<Rightarrow> bool" where
  "unit_byte_go c = (c \<noteq> CHR ''.'' \<and> \<not> is_digit c)"

text \<open>\<open>uint64(x)\<close> of a float64 in range truncates.\<close>

definition uint64_of_f64 :: "f64 \<Rightarrow> int" where
  "uint64_of_f64 x = (case x of FFin r \<Rightarrow> \<lfloor>r\<rfloor> | _ \<Rightarrow> 0)"

text \<open>One \<open>number unit\<close> element of a duration: its nanoseconds and the rest.\<close>

definition duration_element :: "string \<Rightarrow> (int \<times> string) option" where
  "duration_element s =
     (case leadingInt 0 s of
        None \<Rightarrow> None
      | Some (v, s1) \<Rightarrow>
          (let pre = (length s1 \<noteq> length s);
               (f, k, post, s2) =
                 (case s1 of
                    c # cs \<Rightarrow>
                      (if c = CHR ''.'' then
                         (let ((f, k), r) = leadingFraction 0 1 False cs
                          in (f, k, length r \<noteq> length cs, r))
                       else (0, 1, False, s1))
                  | [] \<Rightarrow> (0, 1, False, []))
           in if \<not> pre \<and> \<not> post then None
              else
                (let u = takeWhile unit_byte_go s2; s3 = dropWhile unit_byte_go s2
                 in if u = [] then None
                    else case duration_unit u of
                           None \<Rightarrow> None
                         | Some unit \<Rightarrow>
                             (if 2 ^ 63 div unit < v then None
                              else
                                (let v = v * unit;
                                     scale = f_of_int k;
                                     v = (if 0 < f
                                          then v + uint64_of_f64 (f_mul (f_of_int f)
                                                     (f_div (f_of_int unit) scale))
                                          else v)
                                 in if 2 ^ 63 < v then None else Some (v, s3))))))"

text \<open>The loop over the elements; every element consumes at least one byte of the fuel.\<close>

fun duration_loop :: "nat \<Rightarrow> int \<Rightarrow> string \<Rightarrow> int option" where
  "duration_loop fuel d [] = Some d"
| "duration_loop 0 d (c # cs) = None"
| "duration_loop (Suc fuel) d (c # cs) =
     (if \<not> (c = CHR ''.'' \<or> is_digit c) then None
      else case duration_element (c # cs) of
             None \<Rightarrow> None
           | Some (v, r) \<Rightarrow> if 2 ^ 63 < d + v then None else duration_loop fuel (d + v) r)"

definition ParseDuration :: "string \<Rightarrow> int option" where
  "ParseDuration s =
     (let (neg, t) = read_sign s
      in if t = ''0'' then Some 0
         else if t = [] then None
         else case duration_loop (length t) 0 t of
                None \<Rightarrow> None
              | Some d \<Rightarrow> if neg then Some (- d)
                          else if 2 ^ 63 - 1 < d then None else Some d)"

lemmas parse_duration_eval =
  ParseDuration_def read_sign_def duration_element_def duration_unit_def is_digit_def digit_val_def
  unit_byte_go_def f_of_int_def

section \<open>The fuel of the duration loop\<close>

text \<open>
  An element consumes at least its unit, so the length of the text is enough fuel: more fuel
  never changes the result, and \<open>None\<close> is always an error of the parser.
\<close>

lemma leadingInt_length: "leadingInt x s = Some (v, r) \<Longrightarrow> length r \<le> length s"
  by (induction x s rule: leadingInt.induct) (auto simp: Let_def split: if_splits)

lemma leadingFraction_length: "leadingFraction x k ov s = (p, r) \<Longrightarrow> length r \<le> length s"
  by (induction x k ov s rule: leadingFraction.induct) (auto simp: Let_def split: if_splits)

lemma dropWhile_length_less: "takeWhile P s \<noteq> [] \<Longrightarrow> length (dropWhile P s) < length s"
  by (metis length_append length_greater_0_conv less_add_same_cancel2 takeWhile_dropWhile_id)

lemma duration_element_length:
  assumes "duration_element s = Some (v, r)" shows "length r < length s"
proof -
  obtain x s1 where s1: "leadingInt 0 s = Some (x, s1)"
    using assms by (auto simp: duration_element_def split: option.splits)
  have "\<exists>s2. length s2 \<le> length s1 \<and> takeWhile unit_byte_go s2 \<noteq> [] \<and> r = dropWhile unit_byte_go s2"
  proof (cases "\<exists>cs. s1 = CHR ''.'' # cs")
    case True
    then obtain cs where cs: "s1 = CHR ''.'' # cs" ..
    obtain f k s2 where f: "leadingFraction 0 1 False cs = ((f, k), s2)"
      by (metis surj_pair)
    show ?thesis
      using assms s1 cs f leadingFraction_length [OF f]
      by (intro exI [of _ s2]) (auto simp: duration_element_def Let_def split: if_splits option.splits)
  next
    case False
    then show ?thesis
      using assms s1
      by (intro exI [of _ s1])
        (auto simp: duration_element_def Let_def split: if_splits option.splits list.splits)
  qed
  then show ?thesis
    using leadingInt_length [OF s1] dropWhile_length_less by fastforce
qed

lemma duration_loop_fuel: "length s \<le> fuel \<Longrightarrow> duration_loop (fuel + k) d s = duration_loop fuel d s"
proof (induction fuel arbitrary: d s)
  case 0
  then show ?case by (cases k) auto
next
  case (Suc fuel)
  show ?case
  proof (cases s)
    case (Cons c cs)
    show ?thesis
    proof (cases "duration_element s")
      case (Some vr)
      obtain v r where vr: "vr = (v, r)" by (cases vr)
      have "length r < length s" using duration_element_length Some vr by blast
      then have "duration_loop (fuel + k) (d + v) r = duration_loop fuel (d + v) r"
        using Suc.prems by (intro Suc.IH) simp
      then show ?thesis using Some vr Cons by auto
    qed (auto simp: Cons)
  qed simp
qed

end
