(* ===== verification/Go_Url.thy ===== *)
theory Go_Url
  imports Prelude "HOL-Library.Char_ord" "HOL-Library.List_Lexorder"
begin

text \<open>
  The URL value of \<open>net/url\<close> with the fields the code reads and writes, and the query-string
  escaping used for the PromQL expression.
\<close>

record url =
  u_Scheme :: string
  u_Opaque :: string
  u_User :: "string option"
  u_Host :: string
  u_Path :: string
  u_RawQuery :: string
  u_Fragment :: string

text \<open>
  \<open>url.QueryEscape\<close>: letters, digits and \<open>-_.~\<close> stay, a space becomes a plus sign, any
  other byte becomes a percent sign and two upper-case hexadecimal digits.
\<close>

definition upper_hex :: "nat \<Rightarrow> char" where
  "upper_hex d = ''0123456789ABCDEF'' ! d"

definition query_unreserved :: "char \<Rightarrow> bool" where
  "query_unreserved c = (is_alnum c \<or> c \<in> set ''-_.~'')"

definition escape_byte :: "char \<Rightarrow> string" where
  "escape_byte c =
     (if query_unreserved c then [c]
      else if c = CHR '' '' then ''+''
      else [CHR ''%'', upper_hex (of_char c div 16), upper_hex (of_char c mod 16)])"

definition QueryEscape :: "string \<Rightarrow> string" where
  "QueryEscape s = concat (map escape_byte s)"

text \<open>\<open>url.QueryUnescape\<close>, which a server runs as well: hexadecimal in either case.\<close>

definition unhex :: "char \<Rightarrow> nat option" where
  "unhex c =
     (let n = of_char c :: nat
      in if 48 \<le> n \<and> n \<le> 57 then Some (n - 48)
         else if 65 \<le> n \<and> n \<le> 70 then Some (n - 55)
         else if 97 \<le> n \<and> n \<le> 102 then Some (n - 87) else None)"

fun QueryUnescape :: "string \<Rightarrow> string option" where
  "QueryUnescape [] = Some []"
| "QueryUnescape (c # cs) =
     (if c = CHR ''%'' then
        (case cs of
           a # b # ds \<Rightarrow>
             (case (unhex a, unhex b) of
                (Some i, Some j) \<Rightarrow> map_option (\<lambda>r. char_of (i * 16 + j) # r) (QueryUnescape ds)
              | _ \<Rightarrow> None)
         | _ \<Rightarrow> None)
      else map_option (\<lambda>r. (if c = CHR ''+'' then CHR '' '' else c) # r) (QueryUnescape cs))"

lemma unhex_of_upper_hex: "d < 16 \<Longrightarrow> unhex (upper_hex d) = Some d"
proof -
  have "\<forall>d \<in> set [0..<16]. unhex (upper_hex d) = Some d"
    by code_simp
  then show "d < 16 \<Longrightarrow> unhex (upper_hex d) = Some d" by simp
qed

lemma QueryUnescape_escape_byte:
  "QueryUnescape (escape_byte c @ r) = map_option (\<lambda>s. c # s) (QueryUnescape r)"
proof -
  have "of_char c < (256 :: nat)" by (rule nat_of_char_less_256)
  then have l: "of_char c div 16 < (16 :: nat)" by linarith
  have d: "of_char c div 16 * 16 + of_char c mod 16 = (of_char c :: nat)" by simp
  have u: "query_unreserved c \<Longrightarrow> c \<noteq> CHR ''%'' \<and> c \<noteq> CHR ''+''"
    by (auto simp: query_unreserved_def is_alnum_def)
  show ?thesis
    using u l d by (simp add: escape_byte_def unhex_of_upper_hex)
qed

lemma QueryUnescape_QueryEscape [go_string]: "QueryUnescape (QueryEscape s) = Some s"
  by (induction s) (simp_all add: QueryEscape_def QueryUnescape_escape_byte)

section \<open>Query strings\<close>

text \<open>
  \<open>url.Values\<close> is a map from keys to value lists, kept as an association list without
  duplicate keys.  \<open>ParseQuery\<close> skips empty settings, settings with a semicolon and settings
  that do not unescape; \<open>Encode\<close> writes the keys in order.
\<close>

type_synonym url_values = "(string \<times> string list) list"

fun split_byte :: "char \<Rightarrow> string \<Rightarrow> string list" where
  "split_byte c [] = [[]]"
| "split_byte c (x # xs) =
     (if x = c then [] # split_byte c xs
      else case split_byte c xs of [] \<Rightarrow> [[x]] | p # ps \<Rightarrow> (x # p) # ps)"

definition cut_byte :: "char \<Rightarrow> string \<Rightarrow> string \<times> string" where
  "cut_byte c s = (takeWhile (\<lambda>x. x \<noteq> c) s, drop 1 (dropWhile (\<lambda>x. x \<noteq> c) s))"

fun values_add :: "url_values \<Rightarrow> string \<Rightarrow> string \<Rightarrow> url_values" where
  "values_add [] k v = [(k, [v])]"
| "values_add ((k', vs) # r) k v =
     (if k' = k then (k', vs @ [v]) # r else (k', vs) # values_add r k v)"

fun values_set :: "url_values \<Rightarrow> string \<Rightarrow> string \<Rightarrow> url_values" where
  "values_set [] k v = [(k, [v])]"
| "values_set ((k', vs) # r) k v =
     (if k' = k then (k', [v]) # r else (k', vs) # values_set r k v)"

definition query_setting :: "url_values \<Rightarrow> string \<Rightarrow> url_values" where
  "query_setting m s =
     (if s = [] \<or> contains_byte s (CHR '';'') then m
      else let (k, v) = cut_byte (CHR ''='') s
           in case (QueryUnescape k, QueryUnescape v) of
                (Some k', Some v') \<Rightarrow> values_add m k' v'
              | _ \<Rightarrow> m)"

definition url_Query :: "string \<Rightarrow> url_values" where
  "url_Query raw = foldl query_setting [] (split_byte (CHR ''&'') raw)"

fun join_byte :: "char \<Rightarrow> string list \<Rightarrow> string" where
  "join_byte c [] = []"
| "join_byte c [s] = s"
| "join_byte c (s # t # r) = s @ [c] @ join_byte c (t # r)"

definition values_Encode :: "url_values \<Rightarrow> string" where
  "values_Encode m =
     join_byte (CHR ''&'')
       (concat (map (\<lambda>(k, vs). map (\<lambda>v. QueryEscape k @ ''='' @ QueryEscape v) vs)
          (sort_key fst m)))"

lemma url_Query_empty [simp]: "url_Query [] = []"
  by (simp add: url_Query_def query_setting_def)

lemma values_Encode_single [simp]:
  "values_Encode [(k, [v])] = QueryEscape k @ ''='' @ QueryEscape v"
  by (simp add: values_Encode_def)

lemma QueryEscape_query [simp]: "QueryEscape ''query'' = ''query''"
  by (simp add: QueryEscape_def escape_byte_def query_unreserved_def is_alnum_def)

lemma upper_hex_alnum: "d < 16 \<Longrightarrow> is_alnum (upper_hex d)"
proof -
  have "\<forall>d \<in> set [0..<16]. is_alnum (upper_hex d)" by code_simp
  then show "d < 16 \<Longrightarrow> is_alnum (upper_hex d)" by simp
qed

lemma QueryEscape_bytes:
  assumes "\<not> query_unreserved c" "c \<notin> {CHR ''%'', CHR ''+''}"
  shows "c \<notin> set (QueryEscape s)"
proof -
  have "c \<notin> set (escape_byte x)" for x
  proof -
    have "of_char x < (256 :: nat)" by (rule nat_of_char_less_256)
    then have "of_char x div 16 < (16 :: nat)" "of_char x mod 16 < (16 :: nat)" by linarith simp
    then show ?thesis
      using assms upper_hex_alnum by (auto simp: escape_byte_def query_unreserved_def)
  qed
  then show ?thesis by (simp add: QueryEscape_def)
qed

end
