(* ===== verification/Go_Json.thy ===== *)
theory Go_Json
  imports Go_Number Go_Url
begin

text \<open>
  \<open>encoding/json.Unmarshal\<close> of Go's standard library, as far as the client uses it: the syntax of
  JSON with the decoder's nesting limit and its reading of strings, and the decoding of a value
  into the payload struct of \<open>Query\<close>, with the decoder's rules for null, for repeated and
  unknown keys and for arrays of another length.
\<close>

section \<open>UTF-8\<close>

abbreviation byte_in :: "nat \<Rightarrow> char \<Rightarrow> nat \<Rightarrow> bool" where
  "byte_in a c b \<equiv> a \<le> of_char c \<and> of_char c \<le> b"

text \<open>The length of the first rune, zero when the bytes are no UTF-8 (\<open>utf8.DecodeRune\<close>).\<close>

definition rune_lead :: "char \<Rightarrow> nat" where
  "rune_lead a =
     (if (of_char a :: nat) < 0x80 then 1 else if byte_in 0xC2 a 0xDF then 2
      else if byte_in 0xE0 a 0xEF then 3 else if byte_in 0xF0 a 0xF4 then 4 else 0)"

definition rune_second :: "char \<Rightarrow> char \<Rightarrow> bool" where
  "rune_second a b \<longleftrightarrow>
     (a = CHR 0xE0 \<longrightarrow> 0xA0 \<le> (of_char b :: nat)) \<and> (a = CHR 0xED \<longrightarrow> (of_char b :: nat) \<le> 0x9F) \<and>
     (a = CHR 0xF0 \<longrightarrow> 0x90 \<le> (of_char b :: nat)) \<and> (a = CHR 0xF4 \<longrightarrow> (of_char b :: nat) \<le> 0x8F)"

definition rune_len :: "string \<Rightarrow> nat" where
  "rune_len s =
     (case s of
        [] \<Rightarrow> 0
      | a # t \<Rightarrow>
          (let n = rune_lead a
           in if n \<le> 1 then n
              else if n - 1 \<le> length t \<and> rune_second a (hd t) \<and> list_all (\<lambda>b. byte_in 0x80 b 0xBF) (take (n - 1) t)
              then n else 0))"

text \<open>The bytes of a rune (\<open>utf8.AppendRune\<close>), and of the replacement character.\<close>

definition rune_bytes :: "nat \<Rightarrow> string" where
  "rune_bytes n =
     map char_of
       (if n < 0x80 then [n]
        else if n < 0x800 then [0xC0 + n div 0x40, 0x80 + n mod 0x40]
        else if n < 0x10000 then [0xE0 + n div 0x1000, 0x80 + n div 0x40 mod 0x40, 0x80 + n mod 0x40]
        else [0xF0 + n div 0x40000, 0x80 + n div 0x1000 mod 0x40, 0x80 + n div 0x40 mod 0x40, 0x80 + n mod 0x40])"

definition replacement :: string where
  "replacement = [CHR 0xEF, CHR 0xBF, CHR 0xBD]"

section \<open>Strings\<close>

text \<open>The bytes between the quotes, still escaped, and the rest after the closing quote.\<close>

fun scan_string :: "string \<Rightarrow> (string \<times> string) option" where
  "scan_string [] = None"
| "scan_string (c # s) =
     (if c = CHR 0x22 then Some ([], s)
      else if (of_char c :: nat) < 0x20 then None
      else if c = CHR 0x5C then
        (case s of
           [] \<Rightarrow> None
         | e # t \<Rightarrow>
             (if e \<in> {CHR ''b'', CHR ''f'', CHR ''n'', CHR ''r'', CHR ''t'', CHR 0x5C, CHR ''/'', CHR 0x22} \<or>
                 e = CHR ''u'' \<and> 4 \<le> length t \<and> list_all (\<lambda>h. unhex h \<noteq> None) (take 4 t)
              then map_option (\<lambda>(raw, r). (c # e # raw, r)) (scan_string t)
              else None))
      else map_option (\<lambda>(raw, r). (c # raw, r)) (scan_string s))"

text \<open>\<open>getu4\<close>: the number of a \<open>u\<close> escape with four hexadecimal digits.\<close>

fun getu4 :: "string \<Rightarrow> nat option" where
  "getu4 (x # u # a # b # c # d # s) =
     (if x = CHR 0x5C \<and> u = CHR ''u'' then
        (case (unhex a, unhex b, unhex c, unhex d) of
           (Some i, Some j, Some k, Some l) \<Rightarrow> Some (((i * 16 + j) * 16 + k) * 16 + l)
         | _ \<Rightarrow> None)
      else None)"
| "getu4 s = None"

definition escape_char :: "char \<Rightarrow> char" where
  "escape_char e =
     (if e = CHR ''b'' then CHR 0x08 else if e = CHR ''f'' then CHR 0x0C else if e = CHR ''n'' then CHR 0x0A
      else if e = CHR ''r'' then CHR 0x0D else if e = CHR ''t'' then CHR 0x09 else e)"

text \<open>
  \<open>unquoteBytes\<close>: escapes, surrogate pairs, and the replacement of lone surrogates and of bytes
  that are no UTF-8.
\<close>

function unquote :: "string \<Rightarrow> string" where
  "unquote [] = []"
| "unquote (c # s) =
     (if c = CHR 0x5C then
        (case getu4 (c # s) of
           Some r \<Rightarrow>
             (if 0xD800 \<le> r \<and> r \<le> 0xDFFF then
                (case getu4 (drop 5 s) of
                   Some r2 \<Rightarrow>
                     (if r \<le> 0xDBFF \<and> 0xDC00 \<le> r2 \<and> r2 \<le> 0xDFFF
                      then rune_bytes (0x10000 + (r - 0xD800) * 0x400 + (r2 - 0xDC00)) @ unquote (drop 11 s)
                      else replacement @ unquote (drop 5 s))
                 | None \<Rightarrow> replacement @ unquote (drop 5 s))
              else rune_bytes r @ unquote (drop 5 s))
         | None \<Rightarrow>
             (case s of [] \<Rightarrow> [] | e # t \<Rightarrow> escape_char e # unquote t))
      else if rune_len (c # s) = 0 then replacement @ unquote s
      else take (rune_len (c # s)) (c # s) @ unquote (drop (rune_len (c # s) - 1) s))"
  by pat_completeness auto
termination by (relation "measure length") auto

section \<open>Values\<close>

datatype json = JNul | JBoo bool | JNum string | JStr string | JArr "json list" | JObj "(string \<times> json) list"

definition skip_ws :: "string \<Rightarrow> string" where
  "skip_ws = dropWhile (\<lambda>c. c \<in> {CHR 0x20, CHR 0x09, CHR 0x0A, CHR 0x0D})"

text \<open>A number: its text and the rest.\<close>

definition scan_digits :: "string \<Rightarrow> string option" where
  "scan_digits s = (if s \<noteq> [] \<and> is_digit (hd s) then Some (dropWhile is_digit s) else None)"

definition scan_int :: "string \<Rightarrow> string option" where
  "scan_int s =
     (let s = (if s \<noteq> [] \<and> hd s = CHR ''-'' then tl s else s)
      in if s \<noteq> [] \<and> hd s = CHR ''0'' then Some (tl s) else scan_digits s)"

definition scan_frac :: "string \<Rightarrow> string option" where
  "scan_frac s = (if s \<noteq> [] \<and> hd s = CHR ''.'' then scan_digits (tl s) else Some s)"

definition scan_exp :: "string \<Rightarrow> string option" where
  "scan_exp s =
     (if s \<noteq> [] \<and> hd s \<in> {CHR ''e'', CHR ''E''} then
        scan_digits (if tl s \<noteq> [] \<and> hd (tl s) \<in> {CHR ''+'', CHR ''-''} then tl (tl s) else tl s)
      else Some s)"

definition scan_number :: "string \<Rightarrow> (string \<times> string) option" where
  "scan_number s =
     map_option (\<lambda>r. (take (length s - length r) s, r))
       (Option.bind (Option.bind (scan_int s) scan_frac) scan_exp)"

fun parse_value :: "nat \<Rightarrow> nat \<Rightarrow> string \<Rightarrow> (json \<times> string) option"
  and parse_members :: "nat \<Rightarrow> nat \<Rightarrow> string \<Rightarrow> ((string \<times> json) list \<times> string) option"
  and parse_elements :: "nat \<Rightarrow> nat \<Rightarrow> string \<Rightarrow> (json list \<times> string) option" where
  "parse_value 0 d s = None"
| "parse_value (Suc f) d s =
     (case skip_ws s of
        [] \<Rightarrow> None
      | c # r \<Rightarrow>
          (if c = CHR ''{'' then
             (if d = 0 then None
              else case skip_ws r of
                     [] \<Rightarrow> None
                   | c2 # r2 \<Rightarrow>
                       (if c2 = CHR ''}'' then Some (JObj [], r2)
                        else map_option (\<lambda>(ms, r). (JObj ms, r)) (parse_members f (d - 1) r)))
           else if c = CHR ''['' then
             (if d = 0 then None
              else case skip_ws r of
                     [] \<Rightarrow> None
                   | c2 # r2 \<Rightarrow>
                       (if c2 = CHR '']'' then Some (JArr [], r2)
                        else map_option (\<lambda>(vs, r). (JArr vs, r)) (parse_elements f (d - 1) r)))
           else if c = CHR 0x22 then map_option (\<lambda>(raw, r). (JStr (unquote raw), r)) (scan_string r)
           else if c = CHR ''-'' \<or> is_digit c then map_option (\<lambda>(t, r). (JNum t, r)) (scan_number (c # r))
           else if take 4 (c # r) = ''true'' then Some (JBoo True, drop 3 r)
           else if take 5 (c # r) = ''false'' then Some (JBoo False, drop 4 r)
           else if take 4 (c # r) = ''null'' then Some (JNul, drop 3 r)
           else None))"
| "parse_members 0 d s = None"
| "parse_members (Suc f) d s =
     (case skip_ws s of
        [] \<Rightarrow> None
      | c # r \<Rightarrow>
          (if c \<noteq> CHR 0x22 then None
           else case scan_string r of
                  None \<Rightarrow> None
                | Some (raw, r) \<Rightarrow>
                    (case skip_ws r of
                       [] \<Rightarrow> None
                     | c # r \<Rightarrow>
                         (if c \<noteq> CHR '':'' then None
                          else case parse_value f d r of
                                 None \<Rightarrow> None
                               | Some (v, r) \<Rightarrow>
                                   (case skip_ws r of
                                      [] \<Rightarrow> None
                                    | c # r \<Rightarrow>
                                        (if c = CHR ''}'' then Some ([(unquote raw, v)], r)
                                         else if c = CHR '','' then
                                           map_option (\<lambda>(ms, r). ((unquote raw, v) # ms, r)) (parse_members f d r)
                                         else None))))))"
| "parse_elements 0 d s = None"
| "parse_elements (Suc f) d s =
     (case parse_value f d s of
        None \<Rightarrow> None
      | Some (v, r) \<Rightarrow>
          (case skip_ws r of
             [] \<Rightarrow> None
           | c # r \<Rightarrow>
               (if c = CHR '']'' then Some ([v], r)
                else if c = CHR '','' then map_option (\<lambda>(vs, r). (v # vs, r)) (parse_elements f d r)
                else None)))"

text \<open>The nesting limit of the scanner, and a whole text.\<close>

definition maxNestingDepth :: nat where
  "maxNestingDepth = 10000"

definition json_fuel :: "string \<Rightarrow> nat" where
  "json_fuel s = Suc (2 * length s)"

definition json_parse :: "string \<Rightarrow> json option" where
  "json_parse s =
     (case parse_value (json_fuel s) maxNestingDepth s of
        Some (v, r) \<Rightarrow> if skip_ws r = [] then Some v else None
      | None \<Rightarrow> None)"

section \<open>Decoding into the payload\<close>

text \<open>A value decoded into \<open>any\<close>: numbers must be in the range of float64.\<close>

datatype json_any = JNull | JBool bool | JNumber f64 | JString string | JArray | JObject

fun any_ok :: "json \<Rightarrow> bool" where
  "any_ok (JNum t) = (ParseFloat t \<noteq> None)"
| "any_ok (JArr vs) = list_all any_ok vs"
| "any_ok (JObj ms) = list_all (\<lambda>m. any_ok (snd m)) ms"
| "any_ok v = True"

definition any_value :: "json \<Rightarrow> json_any option" where
  "any_value v =
     (if \<not> any_ok v then None
      else Some (case v of
                   JNul \<Rightarrow> JNull | JBoo b \<Rightarrow> JBool b | JNum t \<Rightarrow> JNumber (the (ParseFloat t))
                 | JStr s \<Rightarrow> JString s | JArr _ \<Rightarrow> JArray | JObj _ \<Rightarrow> JObject))"

text \<open>Field names match under case folding, which knows two runes outside ASCII.\<close>

function fold_name :: "string \<Rightarrow> string" where
  "fold_name [] = []"
| "fold_name (c # cs) =
     (if take 2 (c # cs) = [CHR 0xC5, CHR 0xBF] then CHR ''s'' # fold_name (drop 1 cs)
      else if take 3 (c # cs) = [CHR 0xE2, CHR 0x84, CHR 0xAA] then CHR ''k'' # fold_name (drop 2 cs)
      else to_lower_byte c # fold_name cs)"
  by pat_completeness auto
termination by (relation "measure length") auto

declare fold_name.simps [simp del]

text \<open>Members in order; a repeated key decodes into what is there already.\<close>

fun decode_members :: "(string \<Rightarrow> json \<Rightarrow> 'a \<Rightarrow> 'a option) \<Rightarrow> (string \<times> json) list \<Rightarrow> 'a \<Rightarrow> 'a option" where
  "decode_members f [] x = Some x"
| "decode_members f ((k, v) # ms) x = Option.bind (f (fold_name k) v x) (decode_members f ms)"

definition decode_struct :: "(string \<Rightarrow> json \<Rightarrow> 'a \<Rightarrow> 'a option) \<Rightarrow> json \<Rightarrow> 'a \<Rightarrow> 'a option" where
  "decode_struct f v x = (case v of JNul \<Rightarrow> Some x | JObj ms \<Rightarrow> decode_members f ms x | _ \<Rightarrow> None)"

definition decode_string :: "json \<Rightarrow> string \<Rightarrow> string option" where
  "decode_string v x = (case v of JNul \<Rightarrow> Some x | JStr s \<Rightarrow> Some s | _ \<Rightarrow> None)"

text \<open>\<open>[2]any\<close>, of which only the second component is looked at.\<close>

definition decode_value :: "json \<Rightarrow> json_any \<Rightarrow> json_any option" where
  "decode_value v x =
     (case v of
        JNul \<Rightarrow> Some x
      | JArr (a # b # _) \<Rightarrow> if any_ok a then any_value b else None
      | JArr [a] \<Rightarrow> if any_ok a then Some JNull else None
      | JArr [] \<Rightarrow> Some JNull
      | _ \<Rightarrow> None)"

definition decode_sample :: "json \<Rightarrow> json_any \<Rightarrow> json_any option" where
  "decode_sample = decode_struct (\<lambda>k v x. if k = ''value'' then decode_value v x else Some x)"

text \<open>
  A slice: the elements of its array that were ever written and its length.  Elements are
  decoded into those that are there, also beyond the length.
\<close>

fun decode_elements :: "json list \<Rightarrow> json_any list \<Rightarrow> json_any list option" where
  "decode_elements [] xs = Some xs"
| "decode_elements (v # vs) xs =
     (case decode_sample v (case xs of x # _ \<Rightarrow> x | [] \<Rightarrow> JNull) of
        None \<Rightarrow> None
      | Some y \<Rightarrow> map_option ((#) y) (decode_elements vs (tl xs)))"

definition decode_result :: "json \<Rightarrow> json_any list \<times> nat \<Rightarrow> (json_any list \<times> nat) option" where
  "decode_result v x =
     (case v of
        JNul \<Rightarrow> Some ([], 0)
      | JArr vs \<Rightarrow> if vs = [] then Some ([], 0) else map_option (\<lambda>xs. (xs, length vs)) (decode_elements vs (fst x))
      | _ \<Rightarrow> None)"

record payload =
  pl_Status :: string
  pl_ResultType :: string
  pl_Result :: "json_any list"

definition decode_payload_json :: "json \<Rightarrow> (string \<times> string \<times> json_any list \<times> nat) option" where
  "decode_payload_json v =
     decode_struct (\<lambda>k v (st, rt, res).
       if k = ''status'' then map_option (\<lambda>st. (st, rt, res)) (decode_string v st)
       else if k = ''data'' then
         map_option (\<lambda>(rt, res). (st, rt, res))
           (decode_struct (\<lambda>k v (rt, res).
              if k = ''resulttype'' then map_option (\<lambda>rt. (rt, res)) (decode_string v rt)
              else if k = ''result'' then map_option (\<lambda>res. (rt, res)) (decode_result v res)
              else Some (rt, res)) v (rt, res))
       else Some (st, rt, res)) v ([], [], [], 0)"

definition json_Unmarshal :: "string \<Rightarrow> string + payload" where
  "json_Unmarshal s =
     (case json_parse s of
        None \<Rightarrow> Inl ''invalid JSON''
      | Some v \<Rightarrow>
          (case decode_payload_json v of
             None \<Rightarrow> Inl ''cannot unmarshal into the payload''
           | Some (st, rt, res, n) \<Rightarrow> Inr \<lparr>pl_Status = st, pl_ResultType = rt, pl_Result = take n res\<rparr>))"

section \<open>Enough fuel\<close>

lemma length_dropWhile_le: "length (dropWhile P s) \<le> length s"
  by (induction s) auto

lemma skip_ws_length: "skip_ws s = c # r \<Longrightarrow> length r < length s"
  using length_dropWhile_le [of "\<lambda>c. c \<in> {CHR 0x20, CHR 0x09, CHR 0x0A, CHR 0x0D}" s]
  by (simp add: skip_ws_def)

lemma scan_string_length: "scan_string s = Some (raw, r) \<Longrightarrow> length r < length s"
  by (induction s arbitrary: raw r rule: scan_string.induct) (fastforce split: if_splits list.splits)+

lemma scan_digits_length: "scan_digits s = Some r \<Longrightarrow> length r < length s"
  using length_dropWhile_le [of is_digit "tl s"] by (cases s) (auto simp: scan_digits_def split: if_splits)

lemma scan_int_length: "scan_int s = Some r \<Longrightarrow> length r < length s"
  by (cases s) (auto simp: scan_int_def Let_def split: if_splits dest: scan_digits_length)

lemma scan_frac_length: "scan_frac s = Some r \<Longrightarrow> length r \<le> length s"
  by (cases s) (auto simp: scan_frac_def split: if_splits dest: scan_digits_length)

lemma scan_exp_length: "scan_exp s = Some r \<Longrightarrow> length r \<le> length s"
  by (cases s; cases "tl s") (auto simp: scan_exp_def split: if_splits dest!: scan_digits_length)

lemma scan_number_length: "scan_number s = Some (t, r) \<Longrightarrow> length r < length s"
  by (auto simp: scan_number_def bind_eq_Some_conv dest!: scan_int_length scan_frac_length scan_exp_length)

lemma parse_length:
  "parse_value f d s = Some (v, r) \<Longrightarrow> length r < length s"
  "parse_members f d s = Some (ms, r) \<Longrightarrow> length r < length s"
  "parse_elements f d s = Some (vs, r) \<Longrightarrow> length r < length s"
proof (induction f d s and f d s and f d s arbitrary: v r and ms r and vs r
    rule: parse_value_parse_members_parse_elements.induct)
  case (2 f d s)
  show ?case
  proof (cases "skip_ws s")
    case (Cons c t)
    then have l: "length t < length s" by (rule skip_ws_length)
    have "take n (c # t) \<noteq> [] \<Longrightarrow> length (drop k t) \<le> length t" for n k by simp
    then show ?thesis using 2 Cons l
      by (fastforce split: if_splits list.splits dest: skip_ws_length scan_string_length scan_number_length)
  qed (use 2 in simp)
next
  case (4 f d s)
  then show ?case
    by (fastforce split: if_splits list.splits option.splits dest: skip_ws_length scan_string_length)
next
  case (6 f d s)
  then show ?case
    by (fastforce split: if_splits list.splits option.splits dest: skip_ws_length)
qed simp_all


text \<open>
  With more fuel than twice the length the fuel does not matter: what is parsed is shorter at
  every second call at least.
\<close>

lemma parse_fuel:
  "2 * length s < f \<Longrightarrow> 2 * length s < f' \<Longrightarrow> parse_value f d s = parse_value f' d s"
  "2 * length s < f \<Longrightarrow> 2 * length s < f' \<Longrightarrow> parse_members f d s = parse_members f' d s"
  "Suc (2 * length s) < f \<Longrightarrow> Suc (2 * length s) < f' \<Longrightarrow> parse_elements f d s = parse_elements f' d s"
proof (induction f arbitrary: d s f' and d s f' and d s f')
  case (Suc f)
  { case 1
    then obtain g where f': "f' = Suc g" by (cases f') auto
    show ?case
    proof (cases "skip_ws s")
      case (Cons c r)
      have "length r < length s" by (rule skip_ws_length [OF Cons])
      then have "parse_members f k r = parse_members g k r" "parse_elements f k r = parse_elements g k r" for k
        using 1 f' by (auto intro!: Suc.IH(2,3))
      then show ?thesis using Cons by (simp add: f' split: list.split)
    qed (simp add: f')
  next
    case 2
    then obtain g where f': "f' = Suc g" by (cases f') auto
    have same: "parse_value f d t = parse_value g d t" "parse_members f d t = parse_members g d t"
      if "length t < length s" for t
      using 2 f' that by (auto intro!: Suc.IH(1,2))
    show ?case
    proof (cases "skip_ws s")
      case (Cons c r)
      note l = skip_ws_length [OF Cons]
      show ?thesis
      proof (cases "scan_string r")
        case (Some x)
        obtain raw r1 where x: "x = (raw, r1)" by fastforce
        have l1: "length r1 < length s" using scan_string_length Some x l by fastforce
        show ?thesis
        proof (cases "skip_ws r1")
          case c2: (Cons c2 r2)
          have l2: "length r2 < length s" using skip_ws_length [OF c2] l1 by simp
          have "parse_members f d u = parse_members g d u"
            if "parse_value g d r2 = Some (v, r3)" "skip_ws r3 = c3 # u" for v r3 c3 u
            using that parse_length(1) skip_ws_length l2 by (fastforce intro: same(2))
          then show ?thesis using Cons Some x c2 same(1) [OF l2]
            by (auto simp: f' split: list.split option.split)
        qed (use Cons Some x in \<open>simp add: f'\<close>)
      qed (use Cons in \<open>simp add: f'\<close>)
    qed (simp add: f')
  next
    case 3
    then obtain g where f': "f' = Suc g" by (cases f') auto
    have "parse_value f d s = parse_value g d s" using 3 f' by (auto intro!: Suc.IH(1))
    moreover have "parse_elements f d t = parse_elements g d t" if "length t < length s" for t
      using 3 f' that by (auto intro!: Suc.IH(3))
    moreover have "length t < length s" if "parse_value g d s = Some (v, r)" "skip_ws r = c # t" for v r c t
      using parse_length(1) [OF that(1)] skip_ws_length [OF that(2)] by simp
    ultimately show ?case
      by (auto simp: f' split: list.split option.split)
  }
qed simp_all

lemma json_fuel_enough:
  "2 * length s < f \<Longrightarrow> parse_value f d s = parse_value (json_fuel s) d s"
  by (rule parse_fuel(1)) (simp_all add: json_fuel_def)

end
