(* ===== verification/Go_Ip.thy ===== *)
theory Go_Ip
  imports Go_Url
begin

text \<open>
  IP addresses as the packages net and net/netip read and print them.  A 16-byte address is its
  eight 16-bit groups; an IPv4 address is the mapped address of its four octets.
\<close>

section \<open>Digits\<close>

definition digit_of :: "nat \<Rightarrow> char" where
  "digit_of d = ''0123456789abcdef'' ! d"

text \<open>The shortest numeral of a number in a base, and the value of a string of digits.\<close>

fun numeral_of :: "nat \<Rightarrow> nat \<Rightarrow> string" where
  "numeral_of b n = (if b < 2 \<or> n < b then [digit_of n] else numeral_of b (n div b) @ [digit_of (n mod b)])"

declare numeral_of.simps [simp del]

definition digits_value :: "nat \<Rightarrow> string \<Rightarrow> nat" where
  "digits_value b s = foldl (\<lambda>a c. a * b + the (unhex c)) 0 s"

definition is_hex :: "char \<Rightarrow> bool" where
  "is_hex c = (unhex c \<noteq> None)"

lemma digit_of_unhex [simp]: "d < 16 \<Longrightarrow> unhex (digit_of d) = Some d"
proof -
  have "\<forall>d \<in> set [0..<16]. unhex (digit_of d) = Some d" by code_simp
  then show "d < 16 \<Longrightarrow> unhex (digit_of d) = Some d" by simp
qed

lemma digit_of_is_digit: "d < 10 \<Longrightarrow> is_digit (digit_of d)"
proof -
  have "\<forall>d \<in> set [0..<10]. is_digit (digit_of d)" by code_simp
  then show "d < 10 \<Longrightarrow> is_digit (digit_of d)" by simp
qed

lemma digit_of_zero: "d < 16 \<Longrightarrow> digit_of d = CHR ''0'' \<longleftrightarrow> d = 0"
proof -
  have "\<forall>d \<in> set [0..<16]. (digit_of d = CHR ''0'') = (d = 0)" by code_simp
  then show "d < 16 \<Longrightarrow> digit_of d = CHR ''0'' \<longleftrightarrow> d = 0" by simp
qed

lemma digits_value_snoc [simp]: "digits_value b (s @ [c]) = digits_value b s * b + the (unhex c)"
  by (simp add: digits_value_def)

lemma digits_value_single [simp]: "digits_value b [c] = the (unhex c)"
  by (simp add: digits_value_def)

lemma numeral_of_value: "2 \<le> b \<Longrightarrow> b \<le> 16 \<Longrightarrow> digits_value b (numeral_of b n) = n"
proof (induction b n rule: numeral_of.induct)
  case (1 b n)
  have "n mod b < b" using 1(2) by simp
  then have "n mod b < 16" using 1(3) by linarith
  then show ?case using 1 by (subst numeral_of.simps) auto
qed

lemma numeral_of_digits: "2 \<le> b \<Longrightarrow> set (numeral_of b n) \<subseteq> digit_of ` {..<b}"
proof (induction b n rule: numeral_of.induct)
  case (1 b n)
  have "n mod b < b" using 1(2) by simp
  then show ?case using 1 by (subst numeral_of.simps) auto
qed

lemma numeral_of_nonempty [simp]: "numeral_of b n \<noteq> []"
  by (subst numeral_of.simps) simp

lemma numeral_of_hd: "2 \<le> b \<Longrightarrow> b \<le> 16 \<Longrightarrow> n \<noteq> 0 \<Longrightarrow> hd (numeral_of b n) \<noteq> CHR ''0''"
proof (induction b n rule: numeral_of.induct)
  case (1 b n)
  show ?case
  proof (cases "n < b")
    case True
    then show ?thesis using 1(2-4) digit_of_zero [of n] by (subst numeral_of.simps) simp
  next
    case False
    then have "n div b \<noteq> 0" using 1(2) by (simp add: div_eq_0_iff)
    then show ?thesis using 1 False by (subst numeral_of.simps) simp
  qed
qed

lemma numeral_of_length: "2 \<le> b \<Longrightarrow> n < b ^ k \<Longrightarrow> 0 < k \<Longrightarrow> length (numeral_of b n) \<le> k"
proof (induction k arbitrary: n)
  case (Suc k)
  show ?case
  proof (cases "n < b")
    case False
    then have "0 < k" using Suc.prems by (cases k) auto
    moreover have "n div b < b ^ k" using Suc.prems by (simp add: less_mult_imp_div_less mult.commute)
    ultimately show ?thesis using Suc.IH [of "n div b"] Suc.prems False by (subst numeral_of.simps) simp
  qed (subst numeral_of.simps, simp)
qed simp

section \<open>Reading an address\<close>

text \<open>
  \<open>netip.parseIPv4\<close>: four decimal fields between dots, each at most 255 and without a leading
  zero.
\<close>

definition octet_ok :: "string \<Rightarrow> bool" where
  "octet_ok s \<longleftrightarrow> s \<noteq> [] \<and> list_all is_digit s \<and> (length s = 1 \<or> hd s \<noteq> CHR ''0'') \<and> digits_value 10 s \<le> 255"

definition parseIPv4 :: "string \<Rightarrow> nat list option" where
  "parseIPv4 s =
     (let fields = split_byte (CHR ''.'') s
      in if length fields = 4 \<and> list_all octet_ok fields then Some (map (digits_value 10) fields)
         else None)"

text \<open>The two groups of an IPv4 address embedded at the end of an IPv6 address.\<close>

definition octet_groups :: "nat list \<Rightarrow> nat list" where
  "octet_groups os = [os ! 0 * 256 + os ! 1, os ! 2 * 256 + os ! 3]"

text \<open>
  The loop of \<open>netip.parseIPv6\<close>: the number of groups still to come, the groups read, the
  position of the ellipsis, and the text.  It returns what it leaves of the text.
\<close>

fun v6_loop ::
  "nat \<Rightarrow> nat list \<Rightarrow> nat option \<Rightarrow> string \<Rightarrow> (nat list \<times> nat option \<times> string) option" where
  "v6_loop 0 gs e s = Some (gs, e, s)"
| "v6_loop (Suc n) gs e s =
     (let h = takeWhile is_hex s; r = dropWhile is_hex s
      in if h = [] \<or> 4 < length h then None
         else if take 1 r = ''.'' then
           (if e = None \<and> n \<noteq> 1 then None
            else if n = 0 then None
            else case parseIPv4 s of
                   None \<Rightarrow> None
                 | Some os \<Rightarrow> Some (gs @ octet_groups os, e, []))
         else
           (let gs' = gs @ [digits_value 16 h]
            in case r of
                 [] \<Rightarrow> Some (gs', e, [])
               | c # r1 \<Rightarrow>
                   (if c \<noteq> CHR '':'' \<or> r1 = [] then None
                    else if hd r1 = CHR '':'' then
                      (if e \<noteq> None then None
                       else if tl r1 = [] then Some (gs', Some (length gs'), [])
                       else v6_loop n gs' (Some (length gs')) (tl r1))
                    else v6_loop n gs' e r1)))"

text \<open>The end of \<open>netip.parseIPv6\<close>: nothing is left, and the ellipsis stands for at least one group.\<close>

definition v6_finish :: "nat list \<times> nat option \<times> string \<Rightarrow> nat list option" where
  "v6_finish = (\<lambda>(gs, e, s).
     if s \<noteq> [] then None
     else case e of
            None \<Rightarrow> if length gs < 8 then None else Some gs
          | Some k \<Rightarrow>
              if length gs < 8 then Some (take k gs @ replicate (8 - length gs) 0 @ drop k gs) else None)"

definition parseIPv6 :: "string \<Rightarrow> nat list option" where
  "parseIPv6 s =
     (if take 2 s = ''::'' then
        (if length s = 2 then Some (replicate 8 0)
         else Option.bind (v6_loop 8 [] (Some 0) (drop 2 s)) v6_finish)
      else Option.bind (v6_loop 8 [] None s) v6_finish)"

text \<open>\<open>netip.Addr\<close>: an IPv4 address, or an IPv6 address with its zone.\<close>

datatype ip_addr = Addr4 "nat list" | Addr6 "nat list" string

text \<open>\<open>netip.ParseAddr\<close>: the first dot, colon or percent sign decides.\<close>

definition ParseAddr :: "string \<Rightarrow> ip_addr option" where
  "ParseAddr s =
     (case dropWhile (\<lambda>c. c \<notin> {CHR ''.'', CHR '':'', CHR ''%''}) s of
        [] \<Rightarrow> None
      | c # _ \<Rightarrow>
          if c = CHR ''.'' then map_option Addr4 (parseIPv4 s)
          else if c = CHR ''%'' then None
          else
            (let (a, zone) = cut_byte (CHR ''%'') s
             in if contains_byte s (CHR ''%'') \<and> zone = [] then None
                else map_option (\<lambda>gs. Addr6 gs zone) (parseIPv6 a)))"

text \<open>\<open>net.ParseIP\<close>: the sixteen bytes of an address without a zone.\<close>

definition mapped_groups :: "nat list \<Rightarrow> nat list" where
  "mapped_groups os = replicate 5 0 @ [65535] @ octet_groups os"

definition ParseIP :: "string \<Rightarrow> nat list option" where
  "ParseIP s =
     (case ParseAddr s of
        None \<Rightarrow> None
      | Some (Addr4 os) \<Rightarrow> Some (mapped_groups os)
      | Some (Addr6 gs zone) \<Rightarrow> if zone = [] then Some gs else None)"

section \<open>Printing an address\<close>

text \<open>The first longest run of at least two zero groups.\<close>

definition zero_run :: "nat list \<Rightarrow> nat \<Rightarrow> nat" where
  "zero_run gs i = length (takeWhile (\<lambda>g. g = 0) (drop i gs))"

definition best_run :: "nat list \<Rightarrow> (nat \<times> nat) option" where
  "best_run gs =
     foldl (\<lambda>best i.
        let l = zero_run gs i; m = (case best of None \<Rightarrow> 1 | Some (_, k) \<Rightarrow> k)
        in if m < l then Some (i, l) else best) None [0..<8]"

definition print_groups :: "nat list \<Rightarrow> string" where
  "print_groups gs = join_byte (CHR '':'') (map (numeral_of 16) gs)"

text \<open>\<open>net.IP.String\<close> of sixteen bytes: dotted for a mapped IPv4 address.\<close>

definition ip_octets :: "nat list \<Rightarrow> nat list option" where
  "ip_octets gs =
     (if take 6 gs = replicate 5 0 @ [65535] then
        Some [gs ! 6 div 256, gs ! 6 mod 256, gs ! 7 div 256, gs ! 7 mod 256]
      else None)"

definition IP_String :: "nat list \<Rightarrow> string" where
  "IP_String gs =
     (case ip_octets gs of
        Some os \<Rightarrow> join_byte (CHR ''.'') (map (numeral_of 10) os)
      | None \<Rightarrow>
          (case best_run gs of
             None \<Rightarrow> print_groups gs
           | Some (i, l) \<Rightarrow> print_groups (take i gs) @ ''::'' @ print_groups (drop (i + l) gs)))"

section \<open>Reading what was printed\<close>

lemma is_hex_digit_of: "d < 16 \<Longrightarrow> is_hex (digit_of d)"
  by (simp add: is_hex_def)

lemma numeral_hex: "list_all is_hex (numeral_of 16 n)"
  using numeral_of_digits [of 16 n] by (auto simp: list_all_iff is_hex_digit_of)

lemma not_hex: "\<not> is_hex CHR '':''" "\<not> is_hex CHR ''.''" "\<not> is_hex CHR ''%''"
  by code_simp+

lemma take_numeral:
  assumes "r = [] \<or> \<not> is_hex (hd r)"
  shows "takeWhile is_hex (numeral_of 16 n @ r) = numeral_of 16 n"
    "dropWhile is_hex (numeral_of 16 n @ r) = r"
  using numeral_hex [of n] assms
  by (cases r; auto simp: list_all_iff takeWhile_eq_all_conv intro!: takeWhile_append2)+

lemma take_numeral_all:
  "takeWhile is_hex (numeral_of 16 n) = numeral_of 16 n" "dropWhile is_hex (numeral_of 16 n) = []"
  using take_numeral [of "[]" n] by simp_all

lemma group_length: "g < 65536 \<Longrightarrow> length (numeral_of 16 g) \<le> 4"
  using numeral_of_length [of 16 g 4] by simp

lemma group_value: "digits_value 16 (numeral_of 16 g) = g"
  by (rule numeral_of_value) simp_all

lemma numeral_hd_hex: "is_hex (hd (numeral_of 16 g))"
  using numeral_hex [of g] by (cases "numeral_of 16 g") auto

text \<open>The loop on printed groups: all of them at the end, or up to an ellipsis.\<close>

lemma v6_loop_group:
  assumes "g < 65536"
  shows "v6_loop (Suc n) gs e (numeral_of 16 g) = Some (gs @ [g], e, [])"
    and "t \<noteq> [] \<Longrightarrow> hd t \<noteq> CHR '':'' \<Longrightarrow>
      v6_loop (Suc n) gs e (numeral_of 16 g @ CHR '':'' # t) = v6_loop n (gs @ [g]) e t"
    and "v6_loop (Suc n) gs None (numeral_of 16 g @ CHR '':'' # CHR '':'' # t) =
      (if t = [] then Some (gs @ [g], Some (Suc (length gs)), [])
       else v6_loop n (gs @ [g]) (Some (Suc (length gs))) t)"
  using group_length [OF assms] by (simp_all add: take_numeral take_numeral_all group_value not_hex)

lemma print_groups_Cons: "print_groups (g # h # gs) = numeral_of 16 g @ CHR '':'' # print_groups (h # gs)"
  by (simp add: print_groups_def)

lemma print_groups_hd: "gs \<noteq> [] \<Longrightarrow> print_groups gs \<noteq> [] \<and> is_hex (hd (print_groups gs))"
  by (cases gs; cases "tl gs") (auto simp: print_groups_def numeral_hd_hex hd_append)

lemma v6_loop_groups:
  assumes "hs \<noteq> []" "\<forall>h \<in> set hs. h < 65536" "length hs \<le> n"
  shows "v6_loop n gs e (print_groups hs) = Some (gs @ hs, e, []) \<and>
    v6_loop n gs None (print_groups hs @ ''::'' @ t) =
      (if t = [] then Some (gs @ hs, Some (length gs + length hs), [])
       else v6_loop (n - length hs) (gs @ hs) (Some (length gs + length hs)) t)"
  using assms
proof (induction hs arbitrary: n gs)
  case (Cons g hs)
  obtain m where m: "n = Suc m" using Cons.prems by (cases n) auto
  show ?case
  proof (cases hs)
    case Nil
    with Cons.prems m v6_loop_group(1,3) [of g] show ?thesis by (simp add: print_groups_def)
  next
    case hs: (Cons h hs')
    note hd = print_groups_hd [of hs]
    have t: "print_groups hs \<noteq> []" "hd (print_groups hs) \<noteq> CHR '':''" using hd hs not_hex by auto
    show ?thesis
      using Cons.prems m hs t v6_loop_group(2) [of g "print_groups hs"]
        v6_loop_group(2) [of g "print_groups hs @ ''::'' @ t"] Cons.IH
      by (simp add: print_groups_Cons)
  qed
qed simp_all

text \<open>The run that is abbreviated: inside the address and all zero.\<close>

lemma zero_run_zero: "take (zero_run gs i) (drop i gs) = replicate (zero_run gs i) 0"
proof -
  have "take (length (takeWhile (\<lambda>g. g = 0) xs)) xs = replicate (length (takeWhile (\<lambda>g. g = 0) xs)) 0"
    for xs :: "nat list"
    by (induction xs) auto
  then show ?thesis by (simp add: zero_run_def)
qed

lemma zero_run_bound: "i + zero_run gs i \<le> max i (length gs)"
  using length_takeWhile_le [of "\<lambda>g. g = 0" "drop i gs"] by (auto simp: zero_run_def max_def)

lemma best_run_fold:
  assumes "list_all (\<lambda>i. i < 8) is"
    and "case best of None \<Rightarrow> True | Some (i, l) \<Rightarrow> i < 8 \<and> 2 \<le> l \<and> l = zero_run gs i"
  shows "case foldl (\<lambda>best i.
        let l = zero_run gs i; m = (case best of None \<Rightarrow> 1 | Some (_, k) \<Rightarrow> k)
        in if m < l then Some (i, l) else best) best is of
      None \<Rightarrow> True | Some (i, l) \<Rightarrow> i < 8 \<and> 2 \<le> l \<and> l = zero_run gs i"
  using assms
proof (induction "is" arbitrary: best)
  case (Cons i "is")
  show ?case
    unfolding foldl.simps by (rule Cons.IH) (use Cons.prems in \<open>auto simp: Let_def split: option.splits if_splits\<close>)
qed simp

lemma best_run_Some:
  assumes "best_run gs = Some (i, l)" "length gs = 8"
  shows "i + l \<le> 8" "2 \<le> l" "take l (drop i gs) = replicate l 0"
proof -
  have "case best_run gs of None \<Rightarrow> True | Some (i, l) \<Rightarrow> i < 8 \<and> 2 \<le> l \<and> l = zero_run gs i"
    unfolding best_run_def by (rule best_run_fold) (simp_all add: list_all_iff)
  then show "i + l \<le> 8" "2 \<le> l" "take l (drop i gs) = replicate l 0"
    using assms zero_run_bound [of i gs] zero_run_zero [of gs i] by auto
qed

lemma best_run_split:
  assumes "best_run gs = Some (i, l)" "length gs = 8"
  shows "gs = take i gs @ replicate l 0 @ drop (i + l) gs"
  using best_run_Some(3) [OF assms] by (metis add.commute append_take_drop_id drop_drop)

lemma parseIPv6_print_groups:
  assumes "length gs = 8" "\<forall>g \<in> set gs. g < 65536"
  shows "parseIPv6 (print_groups gs) = Some gs"
proof -
  have ne: "gs \<noteq> []" using assms(1) by auto
  have "take 2 (print_groups gs) \<noteq> ''::''"
    using print_groups_hd [OF ne] not_hex by (cases "print_groups gs") auto
  then show ?thesis using v6_loop_groups [OF ne assms(2), of 8 "[]" None] assms(1)
    by (simp add: parseIPv6_def v6_finish_def)
qed

lemma parseIPv6_print_run:
  assumes "length gs = 8" "\<forall>g \<in> set gs. g < 65536" "best_run gs = Some (i, l)"
  shows "parseIPv6 (print_groups (take i gs) @ ''::'' @ print_groups (drop (i + l) gs)) = Some gs"
proof -
  note r = best_run_Some [OF assms(3,1)]
  note split = best_run_split [OF assms(3,1)]
  let ?a = "take i gs" and ?b = "drop (i + l) gs"
  have len: "length ?a = i" "length ?b = 8 - (i + l)" using assms(1) r by auto
  have bnd: "\<forall>h \<in> set ?a. h < 65536" "\<forall>h \<in> set ?b. h < 65536"
    using assms(2) by (auto dest: in_set_takeD in_set_dropD)
  have fin: "v6_finish (?a @ ?b, Some i, []) = Some gs"
  proof -
    define x where "x = ?a @ ?b"
    have "8 - length x = l" "length x < 8" "take i x = ?a" "drop i x = ?b"
      using len r by (simp_all add: x_def)
    then have "v6_finish (x, Some i, []) = Some (?a @ replicate l 0 @ ?b)"
      by (simp add: v6_finish_def)
    then show ?thesis using split by (simp add: x_def)
  qed
  have tail: "v6_loop n ?a (Some i) (print_groups ?b) = Some (?a @ ?b, Some i, [])"
    if "?b \<noteq> []" "length ?b \<le> n" for n
    using v6_loop_groups [OF that(1) bnd(2) that(2)] by simp
  have empty: "print_groups ?b = [] \<longleftrightarrow> ?b = []"
    using print_groups_hd [of ?b] by (auto simp: print_groups_def)
  show ?thesis
  proof (cases "i = 0")
    case True
    show ?thesis
    proof (cases "?b = []")
      case True
      then have "gs = replicate 8 0" using split \<open>i = 0\<close> len r by simp
      then show ?thesis using True \<open>i = 0\<close> by (simp add: parseIPv6_def print_groups_def)
    next
      case False
      then show ?thesis using True tail [of 8] fin empty r assms(1)
        by (simp add: parseIPv6_def print_groups_def [of "[]"] len)
    qed
  next
    case False
    then have ne: "?a \<noteq> []" using len by auto
    have "take 2 (print_groups ?a @ ''::'' @ print_groups ?b) \<noteq> ''::''"
      using print_groups_hd [OF ne] not_hex by (cases "print_groups ?a") auto
    then show ?thesis
      using v6_loop_groups [OF ne bnd(1), of 8 "[]" None "print_groups ?b"] tail [of "8 - i"] fin empty len r
      by (auto simp: parseIPv6_def)
  qed
qed

text \<open>The bytes of a printed address, and what \<open>ParseAddr\<close> makes of them.\<close>

lemma cut_byte_absent: "c \<notin> set s \<Longrightarrow> cut_byte c s = (s, [])"
  by (induction s) (auto simp: cut_byte_def)

lemma ParseAddr_colons:
  assumes "CHR ''.'' \<notin> set s" "CHR ''%'' \<notin> set s" "CHR '':'' \<in> set s"
  shows "ParseAddr s = map_option (\<lambda>gs. Addr6 gs []) (parseIPv6 s)"
proof -
  obtain r where "dropWhile (\<lambda>c. c \<notin> {CHR ''.'', CHR '':'', CHR ''%''}) s = CHR '':'' # r"
  proof (cases "dropWhile (\<lambda>c. c \<notin> {CHR ''.'', CHR '':'', CHR ''%''}) s")
    case Nil
    then show thesis using assms(3) by (auto simp: dropWhile_eq_Nil_conv)
  next
    case (Cons c r)
    then have "c \<in> {CHR ''.'', CHR '':'', CHR ''%''}" "c \<in> set s"
      by (simp add: dropWhile_eq_Cons_conv, metis Cons list.set_intros(1) set_dropWhileD)
    then show thesis using assms Cons that by auto
  qed
  then show ?thesis using assms(2) cut_byte_absent [OF assms(2)] by (simp add: ParseAddr_def contains_byte_def)
qed

lemma ParseAddr_dots:
  assumes "CHR '':'' \<notin> set s" "CHR ''%'' \<notin> set s" "CHR ''.'' \<in> set s"
  shows "ParseAddr s = map_option Addr4 (parseIPv4 s)"
proof (cases "dropWhile (\<lambda>c. c \<notin> {CHR ''.'', CHR '':'', CHR ''%''}) s")
  case Nil
  then show ?thesis using assms(3) by (auto simp: dropWhile_eq_Nil_conv)
next
  case (Cons c r)
  then have "c \<in> {CHR ''.'', CHR '':'', CHR ''%''}" "c \<in> set s"
    by (simp add: dropWhile_eq_Cons_conv, metis Cons list.set_intros(1) set_dropWhileD)
  then have "c = CHR ''.''" using assms by auto
  with Cons show ?thesis by (simp add: ParseAddr_def)
qed

lemma set_join_byte: "set (join_byte c ss) \<subseteq> insert c (\<Union> (set ` set ss))"
  by (induction c ss rule: join_byte.induct) auto

lemma print_groups_bytes: "c \<in> set (print_groups gs) \<Longrightarrow> c = CHR '':'' \<or> is_hex c"
  using set_join_byte [of "CHR '':''" "map (numeral_of 16) gs"] numeral_hex
  by (fastforce simp: print_groups_def list_all_iff)

lemma print_groups_colon: "2 \<le> length gs \<Longrightarrow> CHR '':'' \<in> set (print_groups gs)"
  by (cases gs; cases "tl gs") (auto simp: print_groups_Cons)

lemma octet_ok_numeral: "n \<le> 255 \<Longrightarrow> octet_ok (numeral_of 10 n)"
proof -
  assume n: "n \<le> 255"
  have "list_all is_digit (numeral_of 10 n)"
    using numeral_of_digits [of 10 n] digit_of_is_digit by (auto simp: list_all_iff)
  moreover have "n = 0 \<Longrightarrow> length (numeral_of 10 n) = 1" by (subst numeral_of.simps) simp
  ultimately show ?thesis
    using n numeral_of_value [of 10 n] numeral_of_hd [of 10 n] by (auto simp: octet_ok_def)
qed

lemma split_byte_absent: "c \<notin> set s \<Longrightarrow> split_byte c s = [s]"
  by (induction s) auto

lemma split_byte_prefix: "c \<notin> set s \<Longrightarrow> split_byte c (s @ c # t) = s # split_byte c t"
  by (induction s) auto

lemma split_join_byte: "ss \<noteq> [] \<Longrightarrow> \<forall>s \<in> set ss. c \<notin> set s \<Longrightarrow> split_byte c (join_byte c ss) = ss"
  by (induction c ss rule: join_byte.induct) (auto simp: split_byte_absent split_byte_prefix)

lemma dec_bytes: "c \<in> set (numeral_of 10 n) \<Longrightarrow> is_digit c"
  using numeral_of_digits [of 10 n] digit_of_is_digit by auto

lemma not_digit: "\<not> is_digit CHR '':''" "\<not> is_digit CHR ''.''" "\<not> is_digit CHR ''%''"
  by code_simp+

lemma parseIPv4_print:
  assumes "length os = 4" "\<forall>n \<in> set os. n \<le> 255"
  shows "parseIPv4 (join_byte (CHR ''.'') (map (numeral_of 10) os)) = Some os"
proof -
  have "split_byte (CHR ''.'') (join_byte (CHR ''.'') (map (numeral_of 10) os)) = map (numeral_of 10) os"
    using assms(1) dec_bytes not_digit by (intro split_join_byte) auto
  moreover have "map (digits_value 10) (map (numeral_of 10) os) = os"
    by (simp add: map_idI numeral_of_value)
  ultimately show ?thesis
    using assms octet_ok_numeral by (auto simp: parseIPv4_def Let_def list_all_iff)
qed

lemma ip_octets_Some:
  assumes "ip_octets gs = Some os" "length gs = 8" "\<forall>g \<in> set gs. g < 65536"
  shows "length os = 4" "\<forall>n \<in> set os. n \<le> 255" "mapped_groups os = gs"
proof -
  have t: "take 6 gs = replicate 5 0 @ [65535]"
    and os: "os = [gs ! 6 div 256, gs ! 6 mod 256, gs ! 7 div 256, gs ! 7 mod 256]"
    using assms(1) by (auto simp: ip_octets_def split: if_splits)
  have b: "gs ! 6 < 65536" "gs ! 7 < 65536" using assms(2,3) by simp_all
  then have "gs ! 6 div 256 \<le> 255" "gs ! 7 div 256 \<le> 255" by linarith+
  moreover have "gs ! 6 mod 256 \<le> 255" "gs ! 7 mod 256 \<le> 255"
    by (simp_all add: less_Suc_eq_le [symmetric])
  ultimately show "length os = 4" "\<forall>n \<in> set os. n \<le> 255" by (auto simp: os)
  have "drop 6 gs = [gs ! 6, gs ! 7]"
    using assms(2) by (simp add: list_eq_iff_nth_eq numeral_eq_Suc less_Suc_eq)
  then have "gs = replicate 5 0 @ [65535] @ [gs ! 6, gs ! 7]"
    using t append_take_drop_id [of 6 gs] by (metis append.assoc)
  then show "mapped_groups os = gs" by (simp add: mapped_groups_def octet_groups_def os)
qed

text \<open>Printing and reading an address gives the address back.\<close>

lemma ParseIP_IP_String:
  assumes "length gs = 8" "\<forall>g \<in> set gs. g < 65536"
  shows "ParseIP (IP_String gs) = Some gs"
proof (cases "ip_octets gs")
  case (Some os)
  note o = ip_octets_Some [OF Some assms]
  let ?s = "join_byte (CHR ''.'') (map (numeral_of 10) os)"
  have "CHR '':'' \<notin> set ?s" "CHR ''%'' \<notin> set ?s"
    using set_join_byte [of "CHR ''.''" "map (numeral_of 10) os"] dec_bytes not_digit by auto
  moreover have "CHR ''.'' \<in> set ?s"
    using o(1) by (cases os; cases "tl os") auto
  ultimately have "ParseAddr ?s = Some (Addr4 os)"
    using ParseAddr_dots parseIPv4_print [OF o(1,2)] by simp
  then show ?thesis using Some o(3) by (simp add: IP_String_def ParseIP_def)
next
  case None
  define s where "s = IP_String gs"
  have "CHR ''.'' \<notin> set s \<and> CHR ''%'' \<notin> set s \<and> CHR '':'' \<in> set s \<and> parseIPv6 s = Some gs"
  proof (cases "best_run gs")
    case no: None
    then show ?thesis using None assms print_groups_bytes not_hex print_groups_colon [of gs] parseIPv6_print_groups
      by (auto simp: s_def IP_String_def)
  next
    case (Some r)
    then obtain i l where r: "best_run gs = Some (i, l)" by (cases r) auto
    then show ?thesis using None print_groups_bytes not_hex parseIPv6_print_run [OF assms r]
      by (auto simp: s_def IP_String_def)
  qed
  then show ?thesis using ParseAddr_colons by (simp add: ParseIP_def s_def)
qed

text \<open>An address that was read has eight groups of sixteen bits.\<close>

lemma digits_value_bound:
  assumes "0 < b" "\<forall>c \<in> set s. \<exists>d < b. unhex c = Some d"
  shows "digits_value b s < b ^ length s"
  using assms(2)
proof (induction s rule: rev_induct)
  case (snoc c s)
  then obtain d where d: "unhex c = Some d" "d < b" by auto
  have "digits_value b s * b + d < (digits_value b s + 1) * b" using d by simp
  also have "\<dots> \<le> b ^ length s * b" using snoc by (intro mult_le_mono1) simp
  finally show ?case using d by (simp add: mult.commute)
qed (simp add: digits_value_def)

lemma unhex_bound: "unhex c = Some d \<Longrightarrow> d < 16"
  by (auto simp: unhex_def Let_def split: if_splits)

lemma hex_group_bound: "digits_value 16 (takeWhile is_hex s) < 65536" if "length (takeWhile is_hex s) \<le> 4"
proof -
  have "\<forall>c \<in> set (takeWhile is_hex s). \<exists>d < 16. unhex c = Some d"
    using unhex_bound by (fastforce simp: is_hex_def dest: set_takeWhileD)
  then have "digits_value 16 (takeWhile is_hex s) < 16 ^ length (takeWhile is_hex s)"
    by (rule digits_value_bound [rotated]) simp
  also have "\<dots> \<le> 16 ^ 4" using that by (rule power_increasing) simp
  finally show ?thesis by simp
qed

lemma parseIPv4_octets: "parseIPv4 s = Some os \<Longrightarrow> length os = 4 \<and> (\<forall>n \<in> set os. n \<le> 255)"
  by (auto simp: parseIPv4_def Let_def octet_ok_def list_all_iff split: if_splits)

lemma octet_groups_bound:
  assumes "length os = 4" "\<forall>n \<in> set os. n \<le> 255"
  shows "length (octet_groups os) = 2" "\<forall>g \<in> set (octet_groups os). g < 65536"
proof -
  have "os ! 0 \<le> 255" "os ! 1 \<le> 255" "os ! 2 \<le> 255" "os ! 3 \<le> 255" using assms by simp_all
  then show "length (octet_groups os) = 2" "\<forall>g \<in> set (octet_groups os). g < 65536"
    by (auto simp: octet_groups_def)
qed

lemma v6_loop_bound:
  assumes "v6_loop n gs e s = Some (gs', e', s')" "length gs + n \<le> 8" "\<forall>g \<in> set gs. g < 65536"
  shows "length gs' \<le> 8 \<and> (\<forall>g \<in> set gs'. g < 65536)"
  using assms
proof (induction n arbitrary: gs e s)
  case (Suc n)
  let ?h = "takeWhile is_hex s" and ?r = "dropWhile is_hex s"
  have h: "?h \<noteq> []" "length ?h \<le> 4" using Suc.prems(1) by (auto simp: Let_def split: if_splits)
  show ?case
  proof (cases "take 1 ?r = ''.''")
    case True
    then obtain os where os: "parseIPv4 s = Some os" "gs' = gs @ octet_groups os" "n \<noteq> 0"
      using Suc.prems(1) h by (auto simp: Let_def split: if_splits option.splits)
    then show ?thesis using octet_groups_bound [of os] parseIPv4_octets [OF os(1)] Suc.prems(2,3) by auto
  next
    case False
    let ?gs = "gs @ [digits_value 16 ?h]"
    have g: "length ?gs + n \<le> 8" "\<forall>g \<in> set ?gs. g < 65536" using Suc.prems(2,3) hex_group_bound [OF h(2)] by auto
    consider "gs' = ?gs" | t e where "v6_loop n ?gs e t = Some (gs', e', s')"
      using Suc.prems(1) h False by (auto simp: Let_def split: if_splits list.splits)
    then show ?thesis
    proof cases
      case 1
      then show ?thesis using g by simp
    next
      case (2 t e)
      then show ?thesis by (rule Suc.IH) (use g in simp_all)
    qed
  qed
qed simp

lemma ParseIP_bound:
  assumes "ParseIP s = Some gs"
  shows "length gs = 8" "\<forall>g \<in> set gs. g < 65536"
proof -
  have fin: "length gs = 8 \<and> (\<forall>g \<in> set gs. g < 65536)"
    if b: "Option.bind (v6_loop 8 [] e a) v6_finish = Some gs" for e a
  proof -
    obtain hs e' r where l: "v6_loop 8 [] e a = Some (hs, e', r)" "v6_finish (hs, e', r) = Some gs"
      using b by (cases "v6_loop 8 [] e a") auto
    from v6_loop_bound [OF l(1)] have "length hs \<le> 8" "\<forall>g \<in> set hs. g < 65536" by simp_all
    then show ?thesis using l(2)
      using in_set_takeD [of _ _ hs] in_set_dropD [of _ _ hs]
      by (auto simp: v6_finish_def split: if_splits option.splits)
  qed
  have "length gs = 8 \<and> (\<forall>g \<in> set gs. g < 65536)"
  proof (cases "ParseAddr s")
    case (Some a)
    show ?thesis
    proof (cases a)
      case (Addr4 os)
      then have o: "parseIPv4 s = Some os" "gs = mapped_groups os"
        using Some assms by (auto simp: ParseAddr_def ParseIP_def Let_def split: list.splits if_splits prod.splits)
      from parseIPv4_octets [OF o(1)] have "length os = 4" "\<forall>n \<in> set os. n \<le> 255" by simp_all
      from octet_groups_bound [OF this] show ?thesis using o(2) by (auto simp: mapped_groups_def)
    next
      case (Addr6 hs z)
      then have "\<exists>a. parseIPv6 a = Some gs"
        using Some assms by (auto simp: ParseAddr_def ParseIP_def Let_def split: list.splits if_splits prod.splits)
      then show ?thesis using fin by (fastforce simp: parseIPv6_def split: if_splits)
    qed
  qed (use assms in \<open>simp add: ParseIP_def\<close>)
  then show "length gs = 8" "\<forall>g \<in> set gs. g < 65536" by simp_all
qed

end
