(* ===== verification/Go_Url_Parse.thy ===== *)
theory Go_Url_Parse
  imports Go_Ip
begin

text \<open>
  \<open>url.Parse\<close> of Go 1.26 with the accessors \<open>Hostname\<close> and \<open>Port\<close>.  An error is \<open>None\<close>: the
  callers look at nothing but its presence.  The lenient port rule of the database schemes is
  left out, because the only caller refuses every scheme but http and https.
\<close>

section \<open>Cutting strings\<close>

text \<open>The parts before and after the last occurrence of a byte.\<close>

definition cut_last :: "char \<Rightarrow> string \<Rightarrow> (string \<times> string) option" where
  "cut_last c s =
     (if c \<in> set s then
        Some (rev (drop 1 (dropWhile (\<lambda>x. x \<noteq> c) (rev s))), rev (takeWhile (\<lambda>x. x \<noteq> c) (rev s)))
      else None)"

lemma cut_last_Some: "cut_last c s = Some (a, b) \<Longrightarrow> s = a @ c # b \<and> c \<notin> set b"
proof -
  assume c: "cut_last c s = Some (a, b)"
  then have "c \<in> set (rev s)" by (simp add: cut_last_def split: if_splits)
  then obtain y where y: "dropWhile (\<lambda>x. x \<noteq> c) (rev s) = c # y"
    by (cases "dropWhile (\<lambda>x. x \<noteq> c) (rev s)") (auto simp: dropWhile_eq_Nil_conv dropWhile_eq_Cons_conv)
  then have "rev s = rev b @ c # rev a"
    using c takeWhile_dropWhile_id [of "\<lambda>x. x \<noteq> c" "rev s"] by (auto simp: cut_last_def split: if_splits)
  then have "s = rev (rev b @ c # rev a)" by (metis rev_rev_ident)
  moreover have "c \<notin> set b" using c by (auto simp: cut_last_def dest: set_takeWhileD split: if_splits)
  ultimately show ?thesis by simp
qed

section \<open>Percent escapes\<close>

text \<open>The component decides which escapes and which bytes are refused.\<close>

datatype url_mode = MPath | MHost | MZone | MUser | MFragment

definition host_byte :: "char \<Rightarrow> bool" where
  "host_byte c = (is_alnum c \<or> c \<in> set ''-_.~!$&()*+,;=:[]<>'' \<or> c = CHR 0x27 \<or> c = CHR 0x22)"

fun url_unescape :: "url_mode \<Rightarrow> string \<Rightarrow> string option" where
  "url_unescape m [] = Some []"
| "url_unescape m (c # cs) =
     (if c = CHR ''%'' then
        (case cs of
           a # b # ds \<Rightarrow>
             (case (unhex a, unhex b) of
                (Some i, Some j) \<Rightarrow>
                  (let v = char_of (i * 16 + j) :: char; pct = (a = CHR ''2'' \<and> b = CHR ''5'')
                   in if m = MHost \<and> i < 8 \<and> \<not> pct then None
                      else if m = MZone \<and> \<not> pct \<and> v \<noteq> CHR '' '' \<and> \<not> host_byte v then None
                      else map_option (\<lambda>r. v # r) (url_unescape m ds))
              | _ \<Rightarrow> None)
         | _ \<Rightarrow> None)
      else if (m = MHost \<or> m = MZone) \<and> (of_char c :: nat) < 128 \<and> \<not> host_byte c then None
      else map_option (\<lambda>r. c # r) (url_unescape m cs))"

lemma url_unescape_empty [simp]: "url_unescape m s = Some [] \<longleftrightarrow> s = []"
  by (cases "(m, s)" rule: url_unescape.cases)
    (auto simp: Let_def split: list.splits option.splits if_splits)

section \<open>Parsing\<close>

definition validOptionalPort :: "string \<Rightarrow> bool" where
  "validOptionalPort p = (p = [] \<or> hd p = CHR '':'' \<and> list_all is_digit (tl p))"

definition is_letter :: "char \<Rightarrow> bool" where
  "is_letter c = (is_alnum c \<and> \<not> is_digit c)"

text \<open>
  \<open>getScheme\<close>: the scheme, empty when there is none, and the rest; an error for a leading
  colon.  The first argument holds the bytes read so far.
\<close>

fun getScheme :: "string \<Rightarrow> string \<Rightarrow> (string \<times> string) option" where
  "getScheme pre [] = Some ([], pre)"
| "getScheme pre (c # cs) =
     (if is_letter c then getScheme (pre @ [c]) cs
      else if is_digit c \<or> c \<in> set ''+-.'' then
        (if pre = [] then Some ([], c # cs) else getScheme (pre @ [c]) cs)
      else if c = CHR '':'' then (if pre = [] then None else Some (pre, cs))
      else Some ([], pre @ c # cs))"

text \<open>The host between brackets with an optional zone, introduced by an escaped percent sign.\<close>

fun cut_zone :: "string \<Rightarrow> string \<times> string" where
  "cut_zone [] = ([], [])"
| "cut_zone (c # cs) =
     (if take 3 (c # cs) = ''%25'' then ([], c # cs)
      else let (a, z) = cut_zone cs in (c # a, z))"

definition bracket_host :: "string \<Rightarrow> string option" where
  "bracket_host h =
     (let (a, z) = cut_zone h
      in case (url_unescape MHost a, url_unescape MZone z) of
           (Some a', Some z') \<Rightarrow>
             (case ParseAddr (a' @ z') of
                Some (Addr6 _ _) \<Rightarrow> Some (a' @ z')
              | _ \<Rightarrow> None)
         | _ \<Rightarrow> None)"

definition parseHost :: "string \<Rightarrow> string option" where
  "parseHost host =
     (if CHR ''['' \<in> set host then
        (case cut_last (CHR ''['') host of
           Some ([], h) \<Rightarrow>
             (case cut_last (CHR '']'') h of
                None \<Rightarrow> None
              | Some (inner, port) \<Rightarrow>
                  if \<not> validOptionalPort port then None
                  else map_option (\<lambda>i. CHR ''['' # i @ CHR '']'' # port) (bracket_host inner))
         | _ \<Rightarrow> None)
      else if \<not> validOptionalPort (dropWhile (\<lambda>c. c \<noteq> CHR '':'') host) then None
      else url_unescape MHost host)"

definition userinfo_byte :: "char \<Rightarrow> bool" where
  "userinfo_byte c = (is_alnum c \<or> c \<in> set ''-._:~!$&()*+,;=%@'' \<or> c = CHR 0x27)"

text \<open>The user information is unescaped on both sides of its first colon.\<close>

definition parseAuthority :: "string \<Rightarrow> (string option \<times> string) option" where
  "parseAuthority a =
     (case cut_last (CHR ''@'') a of
        None \<Rightarrow> map_option (\<lambda>h. (None, h)) (parseHost a)
      | Some (ui, hostport) \<Rightarrow>
          (case parseHost hostport of
             None \<Rightarrow> None
           | Some h \<Rightarrow>
               if list_all userinfo_byte ui then map_option (\<lambda>u. (Some u, h)) (url_unescape MUser ui)
               else None))"

definition ctl_byte :: "char \<Rightarrow> bool" where
  "ctl_byte c = (let n = of_char c :: nat in n < 32 \<or> n = 127)"

definition no_url :: url where
  "no_url = \<lparr>u_Scheme = [], u_Opaque = [], u_User = None, u_Host = [], u_Path = [], u_RawQuery = [], u_Fragment = []\<rparr>"

text \<open>Authority and path of what follows the scheme, without the query.\<close>

definition parse_hierarchy :: "string \<Rightarrow> string \<Rightarrow> string \<Rightarrow> url option" where
  "parse_hierarchy scheme query rest =
     (let (auth, path) =
            (if take 2 rest = ''//'' \<and> (scheme \<noteq> [] \<or> take 3 rest \<noteq> ''///'') then
               (Some (takeWhile (\<lambda>c. c \<noteq> CHR ''/'') (drop 2 rest)),
                dropWhile (\<lambda>c. c \<noteq> CHR ''/'') (drop 2 rest))
             else (None, rest))
      in case (case auth of None \<Rightarrow> Some (None, []) | Some a \<Rightarrow> parseAuthority a) of
           None \<Rightarrow> None
         | Some (user, host) \<Rightarrow>
             map_option (\<lambda>p. no_url\<lparr>u_Scheme := scheme, u_User := user, u_Host := host, u_Path := p,
                                   u_RawQuery := query\<rparr>)
               (url_unescape MPath path))"

definition parse_url :: "string \<Rightarrow> url option" where
  "parse_url raw =
     (if list_ex ctl_byte raw then None
      else if raw = ''*'' then Some (no_url\<lparr>u_Path := ''*''\<rparr>)
      else case getScheme [] raw of
             None \<Rightarrow> None
           | Some (s, r) \<Rightarrow>
               (let scheme = map to_lower_byte s; (rest, query) = cut_byte (CHR ''?'') r
                in if take 1 rest \<noteq> ''/'' \<and> scheme \<noteq> [] then
                     Some (no_url\<lparr>u_Scheme := scheme, u_Opaque := rest, u_RawQuery := query\<rparr>)
                   else if take 1 rest \<noteq> ''/'' \<and> CHR '':'' \<in> set (takeWhile (\<lambda>c. c \<noteq> CHR ''/'') rest) then None
                   else parse_hierarchy scheme query rest))"

definition url_Parse :: "string \<Rightarrow> url option" where
  "url_Parse raw =
     (let (u, frag) = cut_byte (CHR ''#'') raw
      in case parse_url u of
           None \<Rightarrow> None
         | Some v \<Rightarrow>
             if frag = [] then Some v
             else map_option (\<lambda>f. v\<lparr>u_Fragment := f\<rparr>) (url_unescape MFragment frag))"

section \<open>Host and port\<close>

definition splitHostPort :: "string \<Rightarrow> string \<times> string" where
  "splitHostPort hp =
     (let (host, port) =
            (case cut_last (CHR '':'') hp of
               Some (h, p) \<Rightarrow> if list_all is_digit p then (h, p) else (hp, [])
             | None \<Rightarrow> (hp, []))
      in (if host \<noteq> [] \<and> hd host = CHR ''['' \<and> last host = CHR '']'' \<and> 2 \<le> length host
          then butlast (tl host) else host, port))"

definition url_Hostname :: "url \<Rightarrow> string" where
  "url_Hostname u = fst (splitHostPort (u_Host u))"

definition url_Port :: "url \<Rightarrow> string" where
  "url_Port u = snd (splitHostPort (u_Host u))"

end
