(* ===== verification/Go_Regexp.thy ===== *)
theory Go_Regexp
  imports Prelude
begin

text \<open>
  The part of Go's \<open>regexp\<close> package the code uses: anchored patterns over byte classes,
  concatenation, alternation and repetition, decided by derivatives, and
  \<open>regexp.QuoteMeta\<close>.  \<open>rx_match\<close> is the executable matcher; \<open>rx_lang\<close> is what a pattern
  means.  All classes of the code's patterns are ASCII, so matching bytes and matching
  UTF-8 sequences agree on them.
\<close>

section \<open>Patterns, their language, and the matcher\<close>

datatype rx =
  RNone
| REps
| RCls "char \<Rightarrow> bool"
| RSeq rx rx
| RAlt rx rx
| RStar rx

inductive_set star_lang :: "string set \<Rightarrow> string set" for A where
  star_nil: "[] \<in> star_lang A"
| star_cons: "u \<in> A \<Longrightarrow> v \<in> star_lang A \<Longrightarrow> u @ v \<in> star_lang A"

fun rx_lang :: "rx \<Rightarrow> string set" where
  "rx_lang RNone = {}"
| "rx_lang REps = {[]}"
| "rx_lang (RCls P) = {[c] | c. P c}"
| "rx_lang (RSeq r s) = {u @ v | u v. u \<in> rx_lang r \<and> v \<in> rx_lang s}"
| "rx_lang (RAlt r s) = rx_lang r \<union> rx_lang s"
| "rx_lang (RStar r) = star_lang (rx_lang r)"

fun rx_nullable :: "rx \<Rightarrow> bool" where
  "rx_nullable RNone = False"
| "rx_nullable REps = True"
| "rx_nullable (RCls P) = False"
| "rx_nullable (RSeq r s) = (rx_nullable r \<and> rx_nullable s)"
| "rx_nullable (RAlt r s) = (rx_nullable r \<or> rx_nullable s)"
| "rx_nullable (RStar r) = True"

fun rx_step :: "char \<Rightarrow> rx \<Rightarrow> rx" where
  "rx_step c RNone = RNone"
| "rx_step c REps = RNone"
| "rx_step c (RCls P) = (if P c then REps else RNone)"
| "rx_step c (RSeq r s) =
     (if rx_nullable r then RAlt (RSeq (rx_step c r) s) (rx_step c s)
      else RSeq (rx_step c r) s)"
| "rx_step c (RAlt r s) = RAlt (rx_step c r) (rx_step c s)"
| "rx_step c (RStar r) = RSeq (rx_step c r) (RStar r)"

fun rx_match :: "rx \<Rightarrow> string \<Rightarrow> bool" where
  "rx_match r [] = rx_nullable r"
| "rx_match r (c # cs) = rx_match (rx_step c r) cs"

lemma rx_nullable_iff: "rx_nullable r \<longleftrightarrow> [] \<in> rx_lang r"
  by (induction r) (auto intro: star_nil)

lemma star_lang_Cons:
  "c # w \<in> star_lang A \<longleftrightarrow> (\<exists>u v. w = u @ v \<and> c # u \<in> A \<and> v \<in> star_lang A)"
proof
  show "\<exists>u v. w = u @ v \<and> c # u \<in> A \<and> v \<in> star_lang A" if "c # w \<in> star_lang A"
    using that
  proof (induction "c # w" arbitrary: w rule: star_lang.induct)
    case (star_cons u v)
    then show ?case by (cases u) auto
  qed
next
  assume "\<exists>u v. w = u @ v \<and> c # u \<in> A \<and> v \<in> star_lang A"
  then obtain u v where "w = u @ v" "c # u \<in> A" "v \<in> star_lang A" by blast
  then show "c # w \<in> star_lang A" using star_cons [of "c # u" A v] by simp
qed

lemma rx_step_lang: "w \<in> rx_lang (rx_step c r) \<longleftrightarrow> c # w \<in> rx_lang r"
proof (induction r arbitrary: w)
  case (RSeq r s)
  show ?case
    by (auto simp: RSeq.IH rx_nullable_iff Cons_eq_append_conv)
next
  case (RStar r)
  show ?case by (auto simp: RStar.IH star_lang_Cons)
qed auto

theorem rx_match_iff_lang: "rx_match r w \<longleftrightarrow> w \<in> rx_lang r"
  by (induction w arbitrary: r) (simp_all add: rx_nullable_iff rx_step_lang)

section \<open>Derived forms\<close>

definition RPlus :: "rx \<Rightarrow> rx" where "RPlus r = RSeq r (RStar r)"

definition ROpt :: "rx \<Rightarrow> rx" where "ROpt r = RAlt r REps"

fun RLit :: "string \<Rightarrow> rx" where
  "RLit [] = REps"
| "RLit (c # cs) = RSeq (RCls (\<lambda>x. x = c)) (RLit cs)"

lemma rx_lang_RLit [simp]: "rx_lang (RLit s) = {s}"
  by (induction s) auto

lemma star_lang_class: "star_lang {[c] | c. P c} = {w. \<forall>c \<in> set w. P c}"
proof (intro set_eqI iffI)
  show "w \<in> {w. \<forall>c \<in> set w. P c}" if "w \<in> star_lang {[c] | c. P c}" for w
    using that by (induction rule: star_lang.induct) auto
  show "w \<in> star_lang {[c] | c. P c}" if "w \<in> {w. \<forall>c \<in> set w. P c}" for w
    using that
  proof (induction w)
    case Nil
    show ?case by (rule star_nil)
  next
    case (Cons c w)
    then show ?case using star_cons [of "[c]" "{[c] | c. P c}" w] by simp
  qed
qed

lemma rx_lang_star_class: "rx_lang (RStar (RCls P)) = {w. \<forall>c \<in> set w. P c}"
  by (simp add: star_lang_class)

lemma rx_lang_plus_class: "rx_lang (RPlus (RCls P)) = {w. w \<noteq> [] \<and> (\<forall>c \<in> set w. P c)}"
proof -
  have "rx_lang (RPlus (RCls P)) = {[c] @ v | c v. P c \<and> (\<forall>c \<in> set v. P c)}"
    unfolding RPlus_def rx_lang.simps star_lang_class by blast
  also have "\<dots> = {w. w \<noteq> [] \<and> (\<forall>c \<in> set w. P c)}"
    by (auto simp: neq_Nil_conv)
  finally show ?thesis .
qed

text \<open>The bytes a pattern can consume at all.\<close>

fun rx_bytes :: "rx \<Rightarrow> char \<Rightarrow> bool" where
  "rx_bytes RNone c = False"
| "rx_bytes REps c = False"
| "rx_bytes (RCls P) c = P c"
| "rx_bytes (RSeq r s) c = (rx_bytes r c \<or> rx_bytes s c)"
| "rx_bytes (RAlt r s) c = (rx_bytes r c \<or> rx_bytes s c)"
| "rx_bytes (RStar r) c = rx_bytes r c"

lemma rx_lang_bytes: "w \<in> rx_lang r \<Longrightarrow> \<forall>c \<in> set w. rx_bytes r c"
proof (induction r arbitrary: w)
  case (RStar r)
  have "\<forall>c \<in> set w. rx_bytes r c" if "w \<in> star_lang (rx_lang r)" for w
    using that by (induction rule: star_lang.induct) (use RStar.IH in auto)
  with RStar.prems show ?case by auto
qed fastforce+

lemma rx_match_bytes: "rx_match r w \<Longrightarrow> c \<in> set w \<Longrightarrow> rx_bytes r c"
  using rx_lang_bytes by (simp add: rx_match_iff_lang)

section \<open>QuoteMeta\<close>

text \<open>\<open>regexp.QuoteMeta\<close> puts a backslash before each of these bytes.\<close>

definition regexp_special :: "char \<Rightarrow> bool" where
  "regexp_special c = (c \<in> set (CHR 0x5C # ''.+*?()|[]{}^$''))"

fun QuoteMeta :: "string \<Rightarrow> string" where
  "QuoteMeta [] = []"
| "QuoteMeta (c # cs) =
     (if regexp_special c then CHR 0x5C # c # QuoteMeta cs else c # QuoteMeta cs)"

text \<open>
  Reading back the pattern texts the code generates: a plain byte and an escaped special
  byte denote themselves, \<open>[^/]*\<close> denotes any run of bytes other than a slash.  Any other
  text is not read.  This is RE2's reading of that fragment.
\<close>

fun re2_read :: "string \<Rightarrow> rx option" where
  "re2_read [] = Some REps"
| "re2_read (c # cs) =
     (if c = CHR 0x5C then
        (case cs of
           d # ds \<Rightarrow> if regexp_special d then map_option (RSeq (RCls (\<lambda>x. x = d))) (re2_read ds)
                     else None
         | [] \<Rightarrow> None)
      else if c = CHR ''['' then
        (if take 4 cs = ''^/]*''
         then map_option (RSeq (RStar (RCls (\<lambda>x. x \<noteq> CHR ''/'')))) (re2_read (drop 4 cs))
         else None)
      else if regexp_special c then None
      else map_option (RSeq (RCls (\<lambda>x. x = c))) (re2_read cs))"


end
