(* ===== verification/Api_Types.thy ===== *)
theory Api_Types
  imports Float64
begin

text \<open>
  The data model: the API types of \<open>api/v1alpha1/shadowworkload_types.go\<close> as records with
  the fields the controller reads or writes, and what the code sees of the Kubernetes
  objects it handles (pods, owner references, conditions).  A Go string-typed enum stays
  a string, as in the code.  A resource quantity is a value of the type parameter
  \<open>'q\<close>: the quantity library is not part of this repository, and its operations are the
  fields of the record \<open>lib\<close> at the end of this theory.
\<close>

section \<open>Values shared by all objects\<close>

text \<open>\<open>metav1.Time\<close>: Go's zero time, or nanoseconds since the Unix epoch.\<close>

datatype gotime = ZeroTime | At int

definition time_Unix :: "gotime \<Rightarrow> int" where
  "time_Unix t = (case t of ZeroTime \<Rightarrow> - 62135596800 | At n \<Rightarrow> n div 1000000000)"

definition time_IsZero :: "gotime \<Rightarrow> bool" where
  "time_IsZero t = (t = ZeroTime \<or> t = At (- 62135596800000000000))"

text \<open>
  A text built by \<open>fmt.Sprintf\<close> is kept as its format and its arguments; the verbs
  \<open>%s\<close> and \<open>%q\<close> of a string are told apart, a quantity is an argument of its own.
\<close>

datatype 'q fmt_arg = AStr string | AQuote string | AQty 'q

type_synonym 'q msg = "string \<times> 'q fmt_arg list"

section \<open>ShadowWorkload\<close>

definition SourceTypeDocker :: string where "SourceTypeDocker = ''docker''"

definition SourceTypePromQL :: string where "SourceTypePromQL = ''promql''"

definition SourceTypeCgroup :: string where "SourceTypeCgroup = ''cgroup''"

definition SourceTypeSystemd :: string where "SourceTypeSystemd = ''systemd''"

definition SelectorAll :: string where "SelectorAll = ''all''"

lemmas source_type_defs =
  SourceTypeDocker_def SourceTypePromQL_def SourceTypeCgroup_def SourceTypeSystemd_def

record DockerSource =
  dk_Selector :: string
  dk_CadvisorJob :: string
  dk_CadvisorInstance :: string

record CgroupSource =
  cg_Path :: string
  cg_CadvisorJob :: string
  cg_CadvisorInstance :: string

record SystemdSource =
  sd_Unit :: string
  sd_CadvisorJob :: string
  sd_CadvisorInstance :: string

record PromQLSource =
  pq_CPUCores :: string
  pq_MemoryBytes :: string

record SourceSpec =
  src_Type :: string
  src_Docker :: "DockerSource option"
  src_PromQL :: "PromQLSource option"
  src_Cgroup :: "CgroupSource option"
  src_Systemd :: "SystemdSource option"

record MetricsConfig =
  mc_PrometheusURL :: string
  mc_Window :: string

record 'q ResourcePair =
  rp_CPU :: 'q
  rp_Memory :: 'q

record 'q UpdatePolicy =
  up_DeltaThresholdPercent :: int32
  up_PollInterval :: string
  up_Floor :: "'q ResourcePair"
  up_Ceiling :: "'q ResourcePair"

record 'q ShadowWorkloadSpec =
  spec_Node :: string
  spec_Source :: SourceSpec
  spec_Metrics :: MetricsConfig
  spec_Update :: "'q UpdatePolicy"

record 'q MeasurementStatus =
  ms_ObservedGeneration :: int64
  ms_Time :: gotime
  ms_CPU :: 'q
  ms_Memory :: 'q
  ms_SeriesFound :: bool

record ResolvedSourceStatus =
  rs_Type :: string
  rs_CgroupPath :: string
  rs_CadvisorJob :: string
  rs_CadvisorInstance :: string

text \<open>\<open>metav1.Condition\<close>.\<close>

record 'q condition =
  cd_Type :: string
  cd_Status :: string
  cd_ObservedGeneration :: int64
  cd_Reason :: string
  cd_Message :: "'q msg"

record 'q ShadowWorkloadStatus =
  st_PhantomPod :: string
  st_CurrentCPU :: 'q
  st_CurrentMemory :: 'q
  st_LastResize :: gotime
  st_LastMeasurement :: "'q MeasurementStatus option"
  st_ResolvedSource :: "ResolvedSourceStatus option"
  st_Conditions :: "'q condition list"

record 'q ShadowWorkload =
  sw_Name :: string
  sw_Namespace :: string
  sw_UID :: string
  sw_Generation :: int64
  sw_Spec :: "'q ShadowWorkloadSpec"
  sw_Status :: "'q ShadowWorkloadStatus"

text \<open>\<open>GroupVersion.String()\<close> of \<open>groupversion_info.go\<close>.\<close>

definition GroupVersion :: string where
  "GroupVersion = ''symbiont.tensorhost.com/v1alpha1''"

section \<open>Pods\<close>

record owner_ref =
  or_APIVersion :: string
  or_Kind :: string
  or_Name :: string
  or_UID :: string
  or_Controller :: "bool option"

record container_security =
  cs_AllowPrivilegeEscalation :: "bool option"
  cs_RunAsNonRoot :: "bool option"
  cs_RunAsUser :: "int64 option"
  cs_RunAsGroup :: "int64 option"
  cs_CapabilitiesDrop :: "string list"

record 'q container =
  ct_Name :: string
  ct_Image :: string
  ct_SecurityContext :: "container_security option"
  ct_Requests :: "string \<rightharpoonup> 'q"
  ct_Limits :: "string \<rightharpoonup> 'q"
  ct_ResizePolicy :: "(string \<times> string) list"

record 'q pod =
  pod_Name :: string
  pod_Namespace :: string
  pod_UID :: string
  pod_ResourceVersion :: string
  pod_Labels :: "string \<rightharpoonup> string"
  pod_Annotations :: "string \<rightharpoonup> string"
  pod_OwnerReferences :: "owner_ref list"
  pod_NodeName :: string
  pod_PriorityClassName :: string
  pod_AutomountServiceAccountToken :: "bool option"
  pod_RestartPolicy :: string
  pod_SeccompProfile :: "string option"
  pod_Containers :: "'q container list"

section \<open>The libraries the code calls\<close>

text \<open>
  Functions that are not in this repository, as arguments of the model:
  \<open>resource.Quantity\<close> (comparison, the three constructors the code uses, the zero value,
  the float conversion), \<open>controllerutil.SetControllerReference\<close>,
  \<open>metav1.GetControllerOf\<close>, \<open>meta.SetStatusCondition\<close> and
  \<open>meta.FindStatusCondition\<close>.  \<open>go_int64_ovf\<close> is the result the Go implementation gives to
  a conversion of an out-of-range float64 to int64, which the language leaves open.
  \<open>DeepCopy\<close> of a quantity is the identity on values.
\<close>

record 'q lib =
  q_Cmp :: "'q \<Rightarrow> 'q \<Rightarrow> int"
  q_NewMilliQuantity :: "int64 \<Rightarrow> 'q"
  q_NewQuantity :: "int64 \<Rightarrow> 'q"
  q_NewNanoQuantity :: "int64 \<Rightarrow> 'q"
  q_Zero :: 'q
  q_AsApproximateFloat64 :: "'q \<Rightarrow> f64"
  go_int64_ovf :: "f64 \<Rightarrow> int64"
  k_SetControllerReference :: "'q ShadowWorkload \<Rightarrow> 'q pod \<Rightarrow> string + 'q pod"
  k_GetControllerOf :: "'q pod \<Rightarrow> owner_ref option"
  k_SetStatusCondition :: "'q condition list \<Rightarrow> 'q condition \<Rightarrow> 'q condition list"
  k_FindStatusCondition :: "'q condition list \<Rightarrow> string \<Rightarrow> 'q condition option"

text \<open>
  The documented contract of the quantity library, with \<open>val\<close> the exact number a quantity
  stands for: \<open>Cmp\<close> compares the numbers, the constructors denote the scaled integer.
\<close>

definition quantity_laws :: "'q lib \<Rightarrow> ('q \<Rightarrow> rat) \<Rightarrow> bool" where
  "quantity_laws L val \<longleftrightarrow>
     (\<forall>a b. (q_Cmp L a b < 0 \<longleftrightarrow> val a < val b) \<and> (0 < q_Cmp L a b \<longleftrightarrow> val b < val a)) \<and>
     (\<forall>n. val (q_NewMilliQuantity L n) = of_int (sint n) / 1000) \<and>
     (\<forall>n. val (q_NewQuantity L n) = of_int (sint n)) \<and>
     (\<forall>n. val (q_NewNanoQuantity L n) = of_int (sint n) / 1000000000) \<and>
     val (q_Zero L) = 0"

lemma quantity_lawsD:
  assumes "quantity_laws L val"
  shows "q_Cmp L a b < 0 \<longleftrightarrow> val a < val b" and "0 < q_Cmp L a b \<longleftrightarrow> val b < val a"
    and "val (q_NewMilliQuantity L n) = of_int (sint n) / 1000"
    and "val (q_NewQuantity L n) = of_int (sint n)"
    and "val (q_NewNanoQuantity L n) = of_int (sint n) / 1000000000"
    and "val (q_Zero L) = 0"
  using assms unfolding quantity_laws_def by blast+

text \<open>
  The documented contract of the owner-reference helpers: a successful
  \<open>SetControllerReference\<close> makes the workload the pod's controller and touches nothing
  but the owner references.
\<close>

definition controller_ref :: "'q ShadowWorkload \<Rightarrow> owner_ref" where
  "controller_ref sw =
     \<lparr>or_APIVersion = GroupVersion, or_Kind = ''ShadowWorkload'', or_Name = sw_Name sw,
      or_UID = sw_UID sw, or_Controller = Some True\<rparr>"

definition owner_laws :: "'q lib \<Rightarrow> bool" where
  "owner_laws L \<longleftrightarrow>
     (\<forall>sw p p'. k_SetControllerReference L sw p = Inr p' \<longrightarrow>
        k_GetControllerOf L p' = Some (controller_ref sw) \<and>
        p' = p\<lparr>pod_OwnerReferences := pod_OwnerReferences p'\<rparr>)"

text \<open>
  The documented contract of the condition helpers: setting a condition makes it the one
  found under its type and leaves the other types alone.
\<close>

definition condition_laws :: "'q lib \<Rightarrow> bool" where
  "condition_laws L \<longleftrightarrow>
     (\<forall>cs c t. k_FindStatusCondition L (k_SetStatusCondition L cs c) t =
        (if t = cd_Type c then Some c else k_FindStatusCondition L cs t))"

end
