(* ===== verification/Sources.thy ===== *)
theory Sources
  imports Go_Regexp Api_Types
begin

text \<open>
  Model of the query generation in \<open>internal/sources/sources.go\<close>: \<open>Describe\<close>, \<open>Resolve\<close>
  and the functions they call.  An error is a format and its arguments.
\<close>

type_synonym go_error = "string \<times> string list"

record Queries =
  q_CPUCores :: string
  q_MemoryBytes :: string
  q_TargetHealth :: string

record Description =
  ds_Type :: string
  ds_CgroupPath :: string
  ds_CadvisorJob :: string
  ds_CadvisorInstance :: string

section \<open>Describe\<close>

definition cadvisorJob :: "string \<Rightarrow> string" where
  "cadvisorJob job = (if job = [] then ''cadvisor'' else job)"

definition Describe :: "'q ShadowWorkloadSpec \<Rightarrow> Description" where
  "Describe spec =
     (let src = spec_Source spec;
          d = \<lparr>ds_Type = src_Type src, ds_CgroupPath = [], ds_CadvisorJob = [],
               ds_CadvisorInstance = []\<rparr>
      in if src_Type src = SourceTypeDocker then
           (case src_Docker src of
              Some dk \<Rightarrow> d\<lparr>ds_CadvisorJob := cadvisorJob (dk_CadvisorJob dk),
                           ds_CadvisorInstance := dk_CadvisorInstance dk\<rparr>
            | None \<Rightarrow> d)
         else if src_Type src = SourceTypeCgroup then
           (case src_Cgroup src of
              Some cg \<Rightarrow> d\<lparr>ds_CgroupPath := cg_Path cg,
                           ds_CadvisorJob := cadvisorJob (cg_CadvisorJob cg),
                           ds_CadvisorInstance := cg_CadvisorInstance cg\<rparr>
            | None \<Rightarrow> d)
         else if src_Type src = SourceTypeSystemd then
           (case src_Systemd src of
              Some sd \<Rightarrow> d\<lparr>ds_CgroupPath := ''/system.slice/'' @ sd_Unit sd,
                           ds_CadvisorJob := cadvisorJob (sd_CadvisorJob sd),
                           ds_CadvisorInstance := sd_CadvisorInstance sd\<rparr>
            | None \<Rightarrow> d)
         else d)"

section \<open>The validation patterns\<close>

definition windowPattern :: rx where
  "windowPattern =
     RPlus (RSeq (RPlus (RCls is_digit))
           (RSeq (ROpt (RSeq (RLit ''.'') (RPlus (RCls is_digit))))
                 (RAlt (RLit ''ms'') (RAlt (RLit ''s'') (RAlt (RLit ''m'') (RLit ''h''))))))"

definition unit_byte :: "char \<Rightarrow> bool" where
  "unit_byte c = (is_alnum c \<or> c \<in> set ''_.:-'')"

definition systemdUnitPattern :: rx where
  "systemdUnitPattern =
     RSeq (RPlus (RCls unit_byte))
          (RSeq (RLit ''.'') (RAlt (RLit ''service'') (RLit ''scope'')))"

definition path_byte :: "char \<Rightarrow> bool" where
  "path_byte c = (is_alnum c \<or> c \<in> set ''_.:@-/*'')"

definition cgroupPathPattern :: rx where
  "cgroupPathPattern = RSeq (RLit ''/'') (RPlus (RCls path_byte))"

section \<open>Query texts\<close>

text \<open>The label value literal: backslashes escaped first, then double quotes.\<close>

definition promLabel :: "string \<Rightarrow> string" where
  "promLabel v =
     (let escaped = replace_byte (CHR 0x5C) [CHR 0x5C, CHR 0x5C] v;
          escaped = replace_byte (CHR 0x22) [CHR 0x5C, CHR 0x22] escaped
      in [CHR 0x22] @ escaped @ [CHR 0x22])"

definition dockerCgroupIDSelector :: string where
  "dockerCgroupIDSelector =
     ''id=~'' @ [CHR 0x22] @ ''/system.slice/docker-.*'' @ [CHR 0x22]"

definition cpu_query :: "string \<Rightarrow> string \<Rightarrow> string" where
  "cpu_query matchers window =
     ''sum(rate(container_cpu_usage_seconds_total'' @ matchers @ ''['' @ window @ '']))''"

definition memory_query :: "string \<Rightarrow> string \<Rightarrow> string" where
  "memory_query matchers window =
     ''sum(avg_over_time(container_memory_working_set_bytes'' @ matchers @ ''['' @ window @ '']))''"

definition targetHealthQuery :: "string \<Rightarrow> string \<Rightarrow> string" where
  "targetHealthQuery job instance =
     ''up{job='' @ promLabel job @ '',instance='' @ promLabel instance @ ''}''"

text \<open>The pattern text of a globbed path, before it becomes a label literal.\<close>

definition glob_pattern :: "string \<Rightarrow> string" where
  "glob_pattern path =
     (let quoted = QuoteMeta path;
          quoted = replace_pair (CHR 0x5C) (CHR ''*'') ''[^/]*'' quoted
      in ''^'' @ quoted @ ''$'')"

definition resolveHostCgroup ::
  "string \<Rightarrow> bool \<Rightarrow> string \<Rightarrow> string \<Rightarrow> string \<Rightarrow> go_error + Queries" where
  "resolveHostCgroup path glob job instance window =
     (if \<not> rx_match windowPattern window then Inl (''invalid metrics.window %q'', [window])
      else if instance = [] then
        Inl (''host source requires cadvisorInstance for per-node accounting'', [])
      else
        (let job = cadvisorJob job;
             labelMatchers = ''job='' @ promLabel job @ '',instance='' @ promLabel instance;
             idMatcher = (if glob then ''id=~'' @ promLabel (glob_pattern path)
                          else ''id='' @ promLabel path);
             matchers = ''{'' @ labelMatchers @ '','' @ idMatcher @ ''}''
         in Inr \<lparr>q_CPUCores = cpu_query matchers window,
                 q_MemoryBytes = memory_query matchers window,
                 q_TargetHealth = targetHealthQuery job instance\<rparr>))"

definition resolveDocker :: "DockerSource \<Rightarrow> string \<Rightarrow> go_error + Queries" where
  "resolveDocker docker window =
     (if \<not> rx_match windowPattern window then Inl (''invalid metrics.window %q'', [window])
      else
        (let job = cadvisorJob (dk_CadvisorJob docker);
             labelMatchers = ''job='' @ promLabel job
         in if dk_CadvisorInstance docker = [] then
              Inl (''docker source requires cadvisorInstance for per-node accounting'', [])
            else
              (let labelMatchers =
                     labelMatchers @ '',instance='' @ promLabel (dk_CadvisorInstance docker);
                   matchers = ''{'' @ labelMatchers @ '','' @ dockerCgroupIDSelector @ ''}''
               in Inr \<lparr>q_CPUCores = cpu_query matchers window,
                       q_MemoryBytes = memory_query matchers window,
                       q_TargetHealth = targetHealthQuery job (dk_CadvisorInstance docker)\<rparr>)))"

definition resolveSystemd :: "SystemdSource \<Rightarrow> string \<Rightarrow> go_error + Queries" where
  "resolveSystemd systemd window =
     (if \<not> rx_match systemdUnitPattern (sd_Unit systemd) then
        Inl (''invalid systemd unit %q'', [sd_Unit systemd])
      else resolveHostCgroup (''/system.slice/'' @ sd_Unit systemd) False
             (sd_CadvisorJob systemd) (sd_CadvisorInstance systemd) window)"

definition resolveCgroup :: "CgroupSource \<Rightarrow> string \<Rightarrow> go_error + Queries" where
  "resolveCgroup cgroup window =
     (if \<not> rx_match cgroupPathPattern (cg_Path cgroup) \<or>
         contains_pair (cg_Path cgroup) (CHR ''/'') (CHR ''/'') then
        Inl (''invalid cgroup path %q'', [cg_Path cgroup])
      else resolveHostCgroup (cg_Path cgroup) (contains_byte (cg_Path cgroup) (CHR ''*''))
             (cg_CadvisorJob cgroup) (cg_CadvisorInstance cgroup) window)"

definition Resolve :: "'q ShadowWorkloadSpec \<Rightarrow> go_error + Queries" where
  "Resolve spec =
     (let src = spec_Source spec; ty = src_Type src; window = mc_Window (spec_Metrics spec)
      in if ty = SourceTypeDocker then
           (case src_Docker src of
              None \<Rightarrow> Inl (''source type %q requires source.docker'', [ty])
            | Some dk \<Rightarrow> resolveDocker dk window)
         else if ty = SourceTypePromQL then
           (case src_PromQL src of
              None \<Rightarrow> Inl (''source type %q requires source.promql'', [ty])
            | Some pq \<Rightarrow>
                Inr \<lparr>q_CPUCores = pq_CPUCores pq, q_MemoryBytes = pq_MemoryBytes pq,
                     q_TargetHealth = []\<rparr>)
         else if ty = SourceTypeCgroup then
           (case src_Cgroup src of
              None \<Rightarrow> Inl (''source type %q requires source.cgroup'', [ty])
            | Some cg \<Rightarrow> resolveCgroup cg window)
         else if ty = SourceTypeSystemd then
           (case src_Systemd src of
              None \<Rightarrow> Inl (''source type %q requires source.systemd'', [ty])
            | Some sd \<Rightarrow> resolveSystemd sd window)
         else Inl (''unsupported source type %q'', [ty]))"

end
