(* ===== verification/Destination_Policy.thy ===== *)
theory Destination_Policy
  imports Go_Url_Parse Sources
begin

text \<open>
  Model of \<open>internal/sources/destination_policy.go\<close>: the operator's allowlist of Prometheus
  origins.  \<open>IsDNS1123Subdomain\<close> of the API machinery is the parameter \<open>dns\<close>, true when the
  validation returns no message; \<open>dns_laws\<close> is what its documentation says of it.
\<close>

section \<open>Texts\<close>

text \<open>
  The bytes of the white space that \<open>strings.TrimSpace\<close> removes, in UTF-8.  A text is equal to its
  trimmed text when it neither starts nor ends with one of them.
\<close>

definition space_runes :: "string list" where
  "space_runes =
     [[CHR 0x09], [CHR 0x0A], [CHR 0x0B], [CHR 0x0C], [CHR 0x0D], [CHR 0x20],
      [CHR 0xC2, CHR 0x85], [CHR 0xC2, CHR 0xA0], [CHR 0xE1, CHR 0x9A, CHR 0x80],
      [CHR 0xE2, CHR 0x80, CHR 0x80], [CHR 0xE2, CHR 0x80, CHR 0x81],
      [CHR 0xE2, CHR 0x80, CHR 0x82], [CHR 0xE2, CHR 0x80, CHR 0x83],
      [CHR 0xE2, CHR 0x80, CHR 0x84], [CHR 0xE2, CHR 0x80, CHR 0x85],
      [CHR 0xE2, CHR 0x80, CHR 0x86], [CHR 0xE2, CHR 0x80, CHR 0x87],
      [CHR 0xE2, CHR 0x80, CHR 0x88], [CHR 0xE2, CHR 0x80, CHR 0x89],
      [CHR 0xE2, CHR 0x80, CHR 0x8A], [CHR 0xE2, CHR 0x80, CHR 0xA8],
      [CHR 0xE2, CHR 0x80, CHR 0xA9], [CHR 0xE2, CHR 0x80, CHR 0xAF],
      [CHR 0xE2, CHR 0x81, CHR 0x9F], [CHR 0xE3, CHR 0x80, CHR 0x80]]"

definition is_trimmed :: "string \<Rightarrow> bool" where
  "is_trimmed s =
     list_all (\<lambda>r. take (length r) s \<noteq> r \<and> drop (length s - length r) s \<noteq> r) space_runes"

text \<open>
  \<open>strings.ToLower\<close> on UTF-8 text.  Two runes outside ASCII have an ASCII lower case: the capital
  I with a dot (bytes C4 B0) and the Kelvin sign (E2 84 AA).  The lower case of any other rune
  outside ASCII is outside ASCII; its bytes stand for it, since a host with such a byte is
  refused whatever it is.
\<close>

function lower_text :: "string \<Rightarrow> string" where
  "lower_text [] = []"
| "lower_text (c # cs) =
     (if take 2 (c # cs) = [CHR 0xC4, CHR 0xB0] then CHR ''i'' # lower_text (drop 1 cs)
      else if take 3 (c # cs) = [CHR 0xE2, CHR 0x84, CHR 0xAA] then CHR ''k'' # lower_text (drop 2 cs)
      else to_lower_byte c # lower_text cs)"
  by pat_completeness auto
termination by (relation "measure length") auto

definition trim_suffix_byte :: "string \<Rightarrow> char \<Rightarrow> string" where
  "trim_suffix_byte s c = (if s \<noteq> [] \<and> last s = c then butlast s else s)"

section \<open>Canonical hosts\<close>

definition canonicalHostname :: "(string \<Rightarrow> bool) \<Rightarrow> string \<Rightarrow> go_error + string" where
  "canonicalHostname dns raw =
     (let host = trim_suffix_byte (lower_text raw) (CHR ''.'')
      in if host = [] \<or> contains_byte host (CHR ''%'') then Inl (''empty or scoped host'', [])
         else case ParseIP host of
                Some ip \<Rightarrow> Inr (IP_String ip)
              | None \<Rightarrow>
                  if list_all (\<lambda>c. is_digit c \<or> c = CHR ''.'') host then Inl (''ambiguous numeric host'', [])
                  else if \<not> dns host then Inl (''invalid DNS host'', [])
                  else Inr host)"

section \<open>Prometheus URLs\<close>

text \<open>The canonical origin: scheme, host and port, separated by zero bytes.\<close>

definition origin_text :: "string \<Rightarrow> string \<Rightarrow> string \<Rightarrow> string" where
  "origin_text scheme host port = scheme @ [CHR 0x00] @ host @ [CHR 0x00] @ port"

definition canonical_port :: "string \<Rightarrow> string \<Rightarrow> go_error + string" where
  "canonical_port scheme port =
     (if port = [] then Inr (if scheme = ''http'' then ''80'' else ''443'')
      else
        (let portNumber = digits_value 10 port
         in if portNumber < 1 \<or> portNumber > 65535
            then Inl (''invalid prometheusURL: port must be between 1 and 65535'', [])
            else Inr (numeral_of 10 portNumber)))"

definition parsePrometheusURL :: "(string \<Rightarrow> bool) \<Rightarrow> string \<Rightarrow> go_error + url \<times> string" where
  "parsePrometheusURL dns rawURL =
     (if rawURL = [] \<or> \<not> is_trimmed rawURL then Inl (''invalid prometheusURL'', [])
      else case url_Parse (trim_right rawURL (CHR ''/'')) of
             None \<Rightarrow> Inl (''invalid prometheusURL'', [])
           | Some parsed \<Rightarrow>
               (let scheme = map to_lower_byte (u_Scheme parsed)
                in if scheme \<noteq> ''http'' \<and> scheme \<noteq> ''https'' \<or> u_Host parsed = [] \<or> u_Opaque parsed \<noteq> [] then
                     Inl (''invalid prometheusURL: absolute http(s) URL with a host required'', [])
                   else if u_User parsed \<noteq> None \<or> u_RawQuery parsed \<noteq> [] \<or> u_Fragment parsed \<noteq> [] then
                     Inl (''invalid prometheusURL: credentials, query parameters and fragments are not allowed'', [])
                   else case canonicalHostname dns (url_Hostname parsed) of
                          Inl _ \<Rightarrow> Inl (''invalid prometheusURL: host is not canonicalizable'', [])
                        | Inr host \<Rightarrow>
                            (case canonical_port scheme (url_Port parsed) of
                               Inl e \<Rightarrow> Inl e
                             | Inr port \<Rightarrow> Inr (parsed\<lparr>u_Scheme := scheme\<rparr>, origin_text scheme host port))))"

section \<open>The policy\<close>

record DestinationPolicy =
  dp_allowAny :: bool
  dp_allowed :: "string set"

definition zero_policy :: DestinationPolicy where
  "zero_policy = \<lparr>dp_allowAny = False, dp_allowed = {}\<rparr>"

fun add_rules :: "(string \<Rightarrow> bool) \<Rightarrow> string list \<Rightarrow> DestinationPolicy \<Rightarrow> go_error + DestinationPolicy" where
  "add_rules dns [] p = Inr p"
| "add_rules dns (rule # rules) p =
     (case parsePrometheusURL dns rule of
        Inl _ \<Rightarrow> Inl (''invalid prometheus allowed destination'', [])
      | Inr (parsed, origin) \<Rightarrow>
          if u_Path parsed \<noteq> [] \<and> u_Path parsed \<noteq> ''/'' then
            Inl (''invalid prometheus allowed destination: origin must not contain a path'', [])
          else add_rules dns rules (p\<lparr>dp_allowed := insert origin (dp_allowed p)\<rparr>))"

definition NewDestinationPolicy :: "(string \<Rightarrow> bool) \<Rightarrow> string list \<Rightarrow> bool \<Rightarrow> go_error + DestinationPolicy" where
  "NewDestinationPolicy dns allowedOrigins allowAny =
     (if allowAny \<and> allowedOrigins \<noteq> [] then
        Inl (''prometheus destination policy cannot combine allow-any with allowed origins'', [])
      else add_rules dns allowedOrigins (zero_policy\<lparr>dp_allowAny := allowAny\<rparr>))"

definition Validate :: "(string \<Rightarrow> bool) \<Rightarrow> DestinationPolicy \<Rightarrow> string \<Rightarrow> go_error + url" where
  "Validate dns p rawURL =
     (case parsePrometheusURL dns rawURL of
        Inl e \<Rightarrow> Inl e
      | Inr (parsed, origin) \<Rightarrow>
          if dp_allowAny p then Inr parsed
          else if origin \<notin> dp_allowed p then
            Inl (''prometheus destination is not allowed by manager policy'', [])
          else Inr parsed)"

section \<open>What the DNS validation is relied on for\<close>

text \<open>A DNS-1123 subdomain: lower-case letters, digits, dashes and dots, alphanumeric at both ends.\<close>

definition dns_byte :: "char \<Rightarrow> bool" where
  "dns_byte c = (is_alnum c \<and> to_lower_byte c = c \<or> c = CHR ''-'' \<or> c = CHR ''.'')"

definition dns_laws :: "(string \<Rightarrow> bool) \<Rightarrow> bool" where
  "dns_laws dns \<longleftrightarrow>
     (\<forall>s. dns s \<longrightarrow> s \<noteq> [] \<and> length s \<le> 253 \<and> list_all dns_byte s \<and> is_alnum (hd s) \<and> is_alnum (last s))"

section \<open>Canonical hosts\<close>

lemma lower_text_ascii: "list_all (\<lambda>c. (of_char c :: nat) < 128) s \<Longrightarrow> lower_text s = map to_lower_byte s"
proof (induction s)
  case (Cons c s)
  have "c \<noteq> CHR 0xC4" "c \<noteq> CHR 0xE2" using Cons.prems by auto
  then show ?case using Cons by simp
qed simp

text \<open>The bytes of a canonical host.\<close>

definition canonical_byte :: "char \<Rightarrow> bool" where
  "canonical_byte c = (dns_byte c \<or> c = CHR '':'')"

lemma canonical_byte_facts:
  "canonical_byte c \<Longrightarrow> (of_char c :: nat) < 128 \<and> to_lower_byte c = c \<and> c \<noteq> CHR ''%'' \<and> c \<noteq> CHR 0x00"
  by (auto simp: canonical_byte_def dns_byte_def is_alnum_def to_lower_byte_def Let_def split: if_splits)

lemma lower_text_canonical: "list_all canonical_byte s \<Longrightarrow> lower_text s = s"
  using canonical_byte_facts
  by (subst lower_text_ascii) (auto simp: list_all_iff intro!: map_idI)

lemma digit_of_canonical: "d < 16 \<Longrightarrow> canonical_byte (digit_of d) \<and> digit_of d \<noteq> CHR ''.''"
proof -
  have "\<forall>d \<in> set [0..<16]. canonical_byte (digit_of d) \<and> digit_of d \<noteq> CHR ''.''" by code_simp
  then show "d < 16 \<Longrightarrow> canonical_byte (digit_of d) \<and> digit_of d \<noteq> CHR ''.''" by simp
qed

lemma numeral_canonical:
  assumes "b \<in> {10, 16}" "c \<in> set (numeral_of b n)"
  shows "canonical_byte c \<and> c \<noteq> CHR ''.''"
proof -
  have "2 \<le> b" "b \<le> 16" using assms(1) by auto
  then have "c \<in> digit_of ` {..<b}" using numeral_of_digits assms(2) by blast
  then show ?thesis using digit_of_canonical \<open>b \<le> 16\<close> by auto
qed

lemma IP_String_bytes:
  assumes "c \<in> set (IP_String gs)"
  shows "canonical_byte c" "c = CHR ''.'' \<Longrightarrow> ip_octets gs \<noteq> None"
proof -
  have sep: "canonical_byte CHR ''.''" "canonical_byte CHR '':''"
    by (simp_all add: canonical_byte_def dns_byte_def)
  have join: "c \<in> set (join_byte s (map (numeral_of b) ns)) \<Longrightarrow> b \<in> {10, 16} \<Longrightarrow>
      c = s \<or> canonical_byte c \<and> c \<noteq> CHR ''.''" for s b ns
    using set_join_byte [of s "map (numeral_of b) ns"] numeral_canonical [of b c] by auto
  show "canonical_byte c" "c = CHR ''.'' \<Longrightarrow> ip_octets gs \<noteq> None"
    using assms sep join [of "CHR ''.''" 10] join [of "CHR '':''" 16]
    by (fastforce simp: IP_String_def print_groups_def split: option.splits prod.splits)+
qed

lemma IP_String_canonical:
  assumes "length gs = 8"
  shows "IP_String gs \<noteq> []" "list_all canonical_byte (IP_String gs)" "last (IP_String gs) \<noteq> CHR ''.''"
proof -
  have ne: "gs \<noteq> []" using assms by auto
  show n: "IP_String gs \<noteq> []"
    using print_groups_hd [OF ne] by (auto simp: IP_String_def ip_octets_def split: option.splits)
  show "list_all canonical_byte (IP_String gs)" using IP_String_bytes by (auto simp: list_all_iff)
  show "last (IP_String gs) \<noteq> CHR ''.''"
  proof (cases "ip_octets gs")
    case None
    then show ?thesis using IP_String_bytes(2) [of "last (IP_String gs)" gs] last_in_set [OF n] by auto
  next
    case (Some os)
    then obtain a b c d where "os = [a, b, c, d]" by (auto simp: ip_octets_def split: if_splits)
    then have "last (IP_String gs) = last (numeral_of 10 d)" using Some by (simp add: IP_String_def)
    then show ?thesis using numeral_canonical [of 10 "last (numeral_of 10 d)" d] by simp
  qed
qed

lemma dns_canonical:
  assumes "dns_laws dns" "dns s"
  shows "s \<noteq> []" "list_all canonical_byte s" "last s \<noteq> CHR ''.''"
proof -
  have d: "s \<noteq> []" "list_all dns_byte s" "is_alnum (last s)" using assms unfolding dns_laws_def by blast+
  show "s \<noteq> []" by fact
  show "list_all canonical_byte s" using d(2) by (auto simp: list_all_iff canonical_byte_def)
  show "last s \<noteq> CHR ''.''" using d(3) by (auto simp: is_alnum_def)
qed

text \<open>What a canonical host looks like, and that it is its own canonical host.\<close>

lemma canonicalHostname_ok:
  assumes "canonicalHostname dns raw = Inr h" "dns_laws dns"
  shows "h \<noteq> []" "list_all canonical_byte h" "last h \<noteq> CHR ''.''"
    "ParseIP h = None \<longrightarrow> dns h \<and> \<not> list_all (\<lambda>c. is_digit c \<or> c = CHR ''.'') h"
    "ParseIP h = Some ip \<longrightarrow> IP_String ip = h"
proof -
  let ?t = "trim_suffix_byte (lower_text raw) (CHR ''.'')"
  have "(h \<noteq> [] \<and> list_all canonical_byte h \<and> last h \<noteq> CHR ''.'') \<and>
    (ParseIP h = None \<longrightarrow> dns h \<and> \<not> list_all (\<lambda>c. is_digit c \<or> c = CHR ''.'') h) \<and>
    (ParseIP h = Some ip \<longrightarrow> IP_String ip = h)"
  proof (cases "ParseIP ?t")
    case None
    then have "h = ?t" "dns ?t" "\<not> list_all (\<lambda>c. is_digit c \<or> c = CHR ''.'') ?t"
      using assms(1) by (auto simp: canonicalHostname_def Let_def split: if_splits)
    then show ?thesis using None dns_canonical [OF assms(2)] by auto
  next
    case (Some gs)
    then have "h = IP_String gs" using assms(1) by (auto simp: canonicalHostname_def Let_def split: if_splits)
    moreover have "ParseIP h = Some gs"
      using ParseIP_IP_String [OF ParseIP_bound [OF Some]] calculation by simp
    ultimately show ?thesis using IP_String_canonical [OF ParseIP_bound(1) [OF Some]] by simp
  qed
  then show "h \<noteq> []" "list_all canonical_byte h" "last h \<noteq> CHR ''.''"
    "ParseIP h = None \<longrightarrow> dns h \<and> \<not> list_all (\<lambda>c. is_digit c \<or> c = CHR ''.'') h"
    "ParseIP h = Some ip \<longrightarrow> IP_String ip = h" by blast+
qed

lemma canonicalHostname_fixed:
  assumes "canonicalHostname dns raw = Inr h" "dns_laws dns"
  shows "canonicalHostname dns h = Inr h"
proof -
  note ok = canonicalHostname_ok [OF assms]
  have "trim_suffix_byte (lower_text h) (CHR ''.'') = h"
    using lower_text_canonical [OF ok(2)] ok(3) by (simp add: trim_suffix_byte_def)
  moreover have "CHR ''%'' \<notin> set h" using ok(2) canonical_byte_facts by (auto simp: list_all_iff)
  ultimately show ?thesis
    using ok(1,4) ok(5) [of "the (ParseIP h)"]
    by (auto simp: canonicalHostname_def contains_byte_def split: option.splits)
qed

section \<open>Origins\<close>

lemma decimal_inject: "numeral_of 10 m = numeral_of 10 n \<longleftrightarrow> m = n"
proof
  assume "numeral_of 10 m = numeral_of 10 n"
  from arg_cong [OF this, of "digits_value 10"] show "m = n" by (simp add: numeral_of_value)
qed simp

lemma first_zero:
  "CHR 0x00 \<notin> set a \<Longrightarrow> takeWhile (\<lambda>c. c \<noteq> CHR 0x00) (a @ CHR 0x00 # b) = a"
  "CHR 0x00 \<notin> set a \<Longrightarrow> dropWhile (\<lambda>c. c \<noteq> CHR 0x00) (a @ CHR 0x00 # b) = CHR 0x00 # b"
  by (induction a) auto

lemma zero_split:
  assumes "CHR 0x00 \<notin> set a" "CHR 0x00 \<notin> set a'"
  shows "a @ CHR 0x00 # b = a' @ CHR 0x00 # b' \<longleftrightarrow> a = a' \<and> b = b'"
  by (metis assms first_zero list.inject)

lemma origin_text_inject:
  assumes "CHR 0x00 \<notin> set s" "CHR 0x00 \<notin> set h" "CHR 0x00 \<notin> set s'" "CHR 0x00 \<notin> set h'"
  shows "origin_text s h p = origin_text s' h' p' \<longleftrightarrow> s = s' \<and> h = h' \<and> p = p'"
  using assms by (simp add: origin_text_def zero_split)

text \<open>The port a URL names, as a number.\<close>

definition effective_port :: "url \<Rightarrow> nat" where
  "effective_port u =
     (if url_Port u = [] then (if u_Scheme u = ''http'' then 80 else 443) else digits_value 10 (url_Port u))"

lemma parsePrometheusURL_ok:
  assumes "parsePrometheusURL dns raw = Inr (u, origin)"
  obtains h where "raw \<noteq> []" "is_trimmed raw" "u_Scheme u \<in> {''http'', ''https''}" "u_Host u \<noteq> []"
    "u_Opaque u = []" "u_User u = None" "u_RawQuery u = []" "u_Fragment u = []"
    "canonicalHostname dns (url_Hostname u) = Inr h" "1 \<le> effective_port u" "effective_port u \<le> 65535"
    "origin = origin_text (u_Scheme u) h (numeral_of 10 (effective_port u))"
proof -
  obtain v where v: "url_Parse (trim_right raw (CHR ''/'')) = Some v" and raw: "raw \<noteq> []" "is_trimmed raw"
    using assms by (auto simp: parsePrometheusURL_def split: if_splits option.splits)
  let ?s = "map to_lower_byte (u_Scheme v)"
  obtain h port where h: "canonicalHostname dns (url_Hostname v) = Inr h"
    and p: "canonical_port ?s (url_Port v) = Inr port"
    and u: "u = v\<lparr>u_Scheme := ?s\<rparr>" "origin = origin_text ?s h port"
    and v': "?s = ''http'' \<or> ?s = ''https''" "u_Host v \<noteq> []" "u_Opaque v = []" "u_User v = None"
      "u_RawQuery v = []" "u_Fragment v = []"
    using assms v raw by (auto simp: parsePrometheusURL_def Let_def split: if_splits sum.splits)
  have e: "url_Hostname u = url_Hostname v" "url_Port u = url_Port v" "u_Scheme u = ?s"
    by (simp_all add: u url_Hostname_def url_Port_def)
  have n: "numeral_of 10 80 = ''80''" "numeral_of 10 443 = ''443''" by code_simp+
  have port: "port = numeral_of 10 (effective_port u)" "1 \<le> effective_port u" "effective_port u \<le> 65535"
    using p n by (auto simp: canonical_port_def effective_port_def Let_def e split: if_splits)
  show thesis
    by (rule that [of h]) (use raw h v' u e port in auto)
qed

text \<open>Equal origin texts are equal schemes, canonical hosts and ports.\<close>

lemma same_origin_iff:
  assumes "parsePrometheusURL dns raw = Inr (u, o1)" "parsePrometheusURL dns rule = Inr (r, o2)" "dns_laws dns"
  shows "o1 = o2 \<longleftrightarrow> u_Scheme u = u_Scheme r \<and>
    canonicalHostname dns (url_Hostname u) = canonicalHostname dns (url_Hostname r) \<and>
    effective_port u = effective_port r"
proof -
  obtain h where u: "u_Scheme u \<in> {''http'', ''https''}" "canonicalHostname dns (url_Hostname u) = Inr h"
      "o1 = origin_text (u_Scheme u) h (numeral_of 10 (effective_port u))"
    by (rule parsePrometheusURL_ok [OF assms(1)]) simp
  obtain k where r: "u_Scheme r \<in> {''http'', ''https''}" "canonicalHostname dns (url_Hostname r) = Inr k"
      "o2 = origin_text (u_Scheme r) k (numeral_of 10 (effective_port r))"
    by (rule parsePrometheusURL_ok [OF assms(2)]) simp
  have no_zero: "CHR 0x00 \<notin> set x" if "list_all canonical_byte x" for x
    using that canonical_byte_facts by (auto simp: list_all_iff)
  have z: "CHR 0x00 \<notin> set h" "CHR 0x00 \<notin> set k"
    using canonicalHostname_ok(2) [OF u(2) assms(3)] canonicalHostname_ok(2) [OF r(2) assms(3)] no_zero by blast+
  have "CHR 0x00 \<notin> set (u_Scheme u)" "CHR 0x00 \<notin> set (u_Scheme r)" using u(1) r(1) by auto
  then have "o1 = o2 \<longleftrightarrow> u_Scheme u = u_Scheme r \<and> h = k \<and>
      numeral_of 10 (effective_port u) = numeral_of 10 (effective_port r)"
    unfolding u(3) r(3) using z by (intro origin_text_inject)
  then show ?thesis by (simp add: u(2) r(2) decimal_inject)
qed

section \<open>Rules\<close>

lemma add_rules_ok:
  "add_rules dns rules p = Inr q \<Longrightarrow>
   dp_allowAny q = dp_allowAny p \<and>
   dp_allowed q = dp_allowed p \<union> {o'. \<exists>rule \<in> set rules. \<exists>r. parsePrometheusURL dns rule = Inr (r, o')}"
  by (induction dns rules p rule: add_rules.induct) (auto split: sum.splits if_splits prod.splits)

lemma add_rules_error:
  "rule \<in> set rules \<Longrightarrow> (\<And>r o'. parsePrometheusURL dns rule = Inr (r, o') \<Longrightarrow> u_Path r \<noteq> [] \<and> u_Path r \<noteq> ''/'') \<Longrightarrow>
   \<exists>e. add_rules dns rules p = Inl e"
  by (induction dns rules p rule: add_rules.induct) (auto split: sum.splits prod.splits)

end
