(* ===== verification/Phantom.thy ===== *)
theory Phantom
  imports Api_Types
begin

text \<open>
  Model of \<open>internal/shadow/phantom.go\<close>: the phantom pod's name, the conversion of a
  measurement into quantities, clamping, drift, and the construction of the pod.
\<close>

unbundle bit_operations_syntax

section \<open>Names\<close>

definition PhantomNamePrefix :: string where "PhantomNamePrefix = ''shadow-''"

definition MaxPodNameLength :: nat where "MaxPodNameLength = 63"

text \<open>64-bit FNV-1a of \<open>hash/fnv\<close>: xor the byte in, then multiply by the prime.\<close>

definition fnv_step :: "uint64 \<Rightarrow> char \<Rightarrow> uint64" where
  "fnv_step h c = (h XOR of_nat (of_char c)) * 1099511628211"

definition fnv64a :: "string \<Rightarrow> uint64" where
  "fnv64a s = foldl fnv_step 14695981039346656037 s"

text \<open>\<open>fmt.Sprintf("%06x", n)\<close>: lower-case hexadecimal, zero-padded to six digits.\<close>

definition hex_digit :: "nat \<Rightarrow> char" where
  "hex_digit d = ''0123456789abcdef'' ! d"

fun hex_digits :: "nat \<Rightarrow> string" where
  "hex_digits n =
     (if n < 16 then [hex_digit n] else hex_digits (n div 16) @ [hex_digit (n mod 16)])"

declare hex_digits.simps [simp del]

definition sprintf_06x :: "uint64 \<Rightarrow> string" where
  "sprintf_06x h =
     (let s = hex_digits (unat h) in replicate (6 - length s) (CHR ''0'') @ s)"

text \<open>
  The number of bytes kept of an over-long name.  It is an \<open>int\<close> in the code, and
  \<open>crName[:keep]\<close> panics outside \<open>0 .. len(crName)\<close>: see \<open>PhantomName_slice_in_bounds\<close>.
\<close>

definition phantom_keep :: "string \<Rightarrow> int" where
  "phantom_keep suffix =
     int MaxPodNameLength - int (length PhantomNamePrefix) - int (length suffix) - 1"

definition PhantomName :: "string \<Rightarrow> string" where
  "PhantomName crName =
     (let full = PhantomNamePrefix @ crName
      in if length full \<le> MaxPodNameLength then full
         else let suffix = sprintf_06x (fnv64a crName); keep = phantom_keep suffix
              in PhantomNamePrefix @ take (nat keep) crName @ ''-'' @ suffix)"

section \<open>Quantities\<close>

definition PairOf :: "'q lib \<Rightarrow> f64 \<Rightarrow> f64 \<Rightarrow> 'q ResourcePair" where
  "PairOf L cpuCores memoryBytes =
     (let cpu = q_NewMilliQuantity L
            (f_to_int64 (go_int64_ovf L) (f_round (f_mul cpuCores (FFin 1000))));
          mem = q_NewQuantity L (f_to_int64 (go_int64_ovf L) (f_round memoryBytes))
      in \<lparr>rp_CPU = cpu, rp_Memory = mem\<rparr>)"

definition MeasurementPairOf :: "'q lib \<Rightarrow> f64 \<Rightarrow> f64 \<Rightarrow> 'q ResourcePair" where
  "MeasurementPairOf L cpuCores memoryBytes =
     (let cpu = q_NewNanoQuantity L
            (f_to_int64 (go_int64_ovf L) (f_round (f_mul cpuCores (FFin 1000000000))));
          mem = q_NewQuantity L (f_to_int64 (go_int64_ovf L) (f_round memoryBytes))
      in \<lparr>rp_CPU = cpu, rp_Memory = mem\<rparr>)"

definition clampQuantity :: "'q lib \<Rightarrow> 'q \<Rightarrow> 'q \<Rightarrow> 'q \<Rightarrow> 'q" where
  "clampQuantity L desired flr ceil =
     (let out = desired;
          out = (if q_Cmp L out flr < 0 then flr else out);
          out = (if 0 < q_Cmp L out ceil then ceil else out)
      in out)"

definition Clamp ::
  "'q lib \<Rightarrow> 'q ResourcePair \<Rightarrow> 'q ResourcePair \<Rightarrow> 'q ResourcePair \<Rightarrow> 'q ResourcePair" where
  "Clamp L desired flr ceil =
     \<lparr>rp_CPU = clampQuantity L (rp_CPU desired) (rp_CPU flr) (rp_CPU ceil),
      rp_Memory = clampQuantity L (rp_Memory desired) (rp_Memory flr) (rp_Memory ceil)\<rparr>"

section \<open>Drift\<close>

text \<open>The float64 computation of \<open>drift\<close> on the two converted quantities.\<close>

definition drift_float :: "f64 \<Rightarrow> f64 \<Rightarrow> int \<Rightarrow> bool" where
  "drift_float cur want thresholdPercent =
     (let want = (if f_lt want (FFin 0) then FFin 0 else want)
      in if f_le cur (FFin 0) then f_lt (FFin 0) want
         else let change = f_mul (f_div (f_abs (f_sub want cur)) cur) (FFin 100)
              in f_lt (f_of_int thresholdPercent) change)"

definition drift :: "'q lib \<Rightarrow> 'q \<Rightarrow> 'q \<Rightarrow> int32 \<Rightarrow> bool" where
  "drift L current desired thresholdPercent =
     drift_float (q_AsApproximateFloat64 L current) (q_AsApproximateFloat64 L desired)
       (sint thresholdPercent)"

definition DriftExceeds ::
  "'q lib \<Rightarrow> 'q ResourcePair \<Rightarrow> 'q ResourcePair \<Rightarrow> int32 \<Rightarrow> bool" where
  "DriftExceeds L current desired thresholdPercent \<longleftrightarrow>
     drift L (rp_CPU current) (rp_CPU desired) thresholdPercent \<or>
     drift L (rp_Memory current) (rp_Memory desired) thresholdPercent"

section \<open>The pod\<close>

definition PhantomContainerName :: string where "PhantomContainerName = ''phantom''"

definition PhantomImage :: string where
  "PhantomImage = ''registry.k8s.io/pause:3.9@sha256:7031c1b283388d2c2e09b57badb803c05ebed362dc88d84b480cc47f72a21097''"

definition BallastPriorityClassName :: string where
  "BallastPriorityClassName = ''symbiont-ballast''"

definition LabelManagedBy :: string where "LabelManagedBy = ''app.kubernetes.io/managed-by''"

definition LabelShadowWorkload :: string where
  "LabelShadowWorkload = ''symbiont.tensorhost.com/shadow-workload''"

definition ManagedByValue :: string where "ManagedByValue = ''kube-symbiont''"

definition AnnotationDisclaimer :: string where
  "AnnotationDisclaimer = ''symbiont.tensorhost.com/note''"

definition DisclaimerText :: string where
  "DisclaimerText =
     ''phantom ballast pod: requests mirror real bare-metal usage; consumes ~1MB itself''"

definition ResourceCPU :: string where "ResourceCPU = ''cpu''"

definition ResourceMemory :: string where "ResourceMemory = ''memory''"

definition resource_list :: "'q ResourcePair \<Rightarrow> (string \<rightharpoonup> 'q)" where
  "resource_list p = [ResourceCPU \<mapsto> rp_CPU p, ResourceMemory \<mapsto> rp_Memory p]"

definition phantom_container :: "'q ResourcePair \<Rightarrow> 'q container" where
  "phantom_container initial =
     \<lparr>ct_Name = PhantomContainerName,
      ct_Image = PhantomImage,
      ct_SecurityContext = Some
        \<lparr>cs_AllowPrivilegeEscalation = Some False, cs_RunAsNonRoot = Some True,
         cs_RunAsUser = Some 65532, cs_RunAsGroup = Some 65532,
         cs_CapabilitiesDrop = [''ALL'']\<rparr>,
      ct_Requests = resource_list initial,
      ct_Limits = resource_list initial,
      ct_ResizePolicy = [(ResourceCPU, ''NotRequired''), (ResourceMemory, ''NotRequired'')]\<rparr>"

definition BuildPhantomPod ::
  "'q lib \<Rightarrow> 'q ShadowWorkload \<Rightarrow> 'q ResourcePair \<Rightarrow> string + 'q pod" where
  "BuildPhantomPod L sw initial =
     (let pod =
        \<lparr>pod_Name = PhantomName (sw_Name sw),
         pod_Namespace = sw_Namespace sw,
         pod_UID = [],
         pod_ResourceVersion = [],
         pod_Labels = [LabelManagedBy \<mapsto> ManagedByValue, LabelShadowWorkload \<mapsto> sw_Name sw],
         pod_Annotations = [AnnotationDisclaimer \<mapsto> DisclaimerText],
         pod_OwnerReferences = [],
         pod_NodeName = spec_Node (sw_Spec sw),
         pod_PriorityClassName = BallastPriorityClassName,
         pod_AutomountServiceAccountToken = Some False,
         pod_RestartPolicy = ''Always'',
         pod_SeccompProfile = Some ''RuntimeDefault'',
         pod_Containers = [phantom_container initial]\<rparr>
      in case k_SetControllerReference L sw pod of
           Inl err \<Rightarrow> Inl (''failed to set owner reference on phantom pod: '' @ err)
         | Inr pod \<Rightarrow> Inr pod)"

definition CurrentPairOf :: "'q lib \<Rightarrow> 'q pod \<Rightarrow> 'q ResourcePair" where
  "CurrentPairOf L p =
     (case pod_Containers p of
        [] \<Rightarrow> \<lparr>rp_CPU = q_Zero L, rp_Memory = q_Zero L\<rparr>
      | c # _ \<Rightarrow>
          \<lparr>rp_CPU = (case ct_Requests c ResourceCPU of Some q \<Rightarrow> q | None \<Rightarrow> q_Zero L),
           rp_Memory = (case ct_Requests c ResourceMemory of Some q \<Rightarrow> q | None \<Rightarrow> q_Zero L)\<rparr>)"

section \<open>Facts on names: length, injectivity, the slice\<close>

lemma length_hex_digits_pos: "1 \<le> length (hex_digits n)"
  by (subst hex_digits.simps) simp

lemma length_hex_digits_le: "n < 16 ^ k \<Longrightarrow> 1 \<le> k \<Longrightarrow> length (hex_digits n) \<le> k"
proof (induction n arbitrary: k rule: hex_digits.induct)
  case (1 n)
  show ?case
  proof (cases "n < 16")
    case True
    then show ?thesis using "1.prems" by (subst hex_digits.simps) simp
  next
    case False
    have "1 \<noteq> k" using False "1.prems" by auto
    then obtain j where k: "k = Suc j" "1 \<le> j" using "1.prems" by (cases k) auto
    have "n div 16 < 16 ^ j" using "1.prems"(1) k by (simp add: less_mult_imp_div_less mult.commute)
    then have "length (hex_digits (n div 16)) \<le> j" using "1.IH" False k by simp
    then show ?thesis using False k by (subst hex_digits.simps) simp
  qed
qed

lemma length_sprintf_06x: "6 \<le> length (sprintf_06x h) \<and> length (sprintf_06x h) \<le> 16"
proof -
  have "unat h < 16 ^ 16" using unsigned_less [of h] by simp
  then have "length (hex_digits (unat h)) \<le> 16" by (rule length_hex_digits_le) simp
  then show ?thesis unfolding sprintf_06x_def Let_def by simp linarith
qed

lemmas phantom_name_defs =
  PhantomName_def PhantomNamePrefix_def MaxPodNameLength_def phantom_keep_def

lemma PhantomName_slice_in_bounds:
  assumes "MaxPodNameLength < length (PhantomNamePrefix @ n)"
  shows "0 \<le> phantom_keep (sprintf_06x (fnv64a n)) \<and>
         phantom_keep (sprintf_06x (fnv64a n)) \<le> int (length n)"
  using assms length_sprintf_06x [of "fnv64a n"] by (simp add: phantom_name_defs)

lemma PhantomName_length: "length (PhantomName n) \<le> MaxPodNameLength"
  using length_sprintf_06x [of "fnv64a n"] by (auto simp: phantom_name_defs Let_def)

lemma PhantomName_truncated_length:
  assumes "MaxPodNameLength < length (PhantomNamePrefix @ n)"
  shows "length (PhantomName n) = MaxPodNameLength"
  using assms length_sprintf_06x [of "fnv64a n"] by (auto simp: phantom_name_defs Let_def)

lemma PhantomName_short: "length n \<le> 56 \<Longrightarrow> PhantomName n = ''shadow-'' @ n"
  by (simp add: phantom_name_defs)

lemma PhantomName_prefix: "take 7 (PhantomName n) = ''shadow-''"
  by (auto simp: phantom_name_defs Let_def)

section \<open>Facts on clamping\<close>

lemma val_clampQuantity:
  assumes "quantity_laws L val"
  shows "val (clampQuantity L d f c) = min (val c) (max (val f) (val d))"
  by (auto simp: clampQuantity_def Let_def quantity_lawsD [OF assms])

end
