(* ===== verification/Prom_Client.thy ===== *)
theory Prom_Client
  imports Go_Json Destination_Policy Phantom
begin

text \<open>
  Model of the Prometheus client in \<open>internal/sources/sources.go\<close>: \<open>NewClient\<close>, \<open>Query\<close>, \<open>QueryPair\<close>,
  the sample validity checks and \<open>parseSample\<close>.  The network is a parameter: it takes the
  request URL and the state of the world and returns a reply and the new state.  A reply is
  what the code can see of one HTTP exchange: the request could not be built, the exchange
  failed (which is also what a redirect becomes, since the client forbids redirects), the
  body could not be read, or a status code with a body.
\<close>

section \<open>Errors\<close>

datatype sentinel =
  ErrMultiSample | ErrPartialSample | ErrInvalidSample | ErrTargetUnavailable

text \<open>A plain error text, a sentinel, or an error wrapped with \<open>%w\<close> under a text.\<close>

datatype qerror = QPlain string | QSentinel sentinel | QWrap string qerror

fun errors_Is :: "qerror \<Rightarrow> sentinel \<Rightarrow> bool" where
  "errors_Is (QPlain t) k = False"
| "errors_Is (QSentinel s) k = (s = k)"
| "errors_Is (QWrap t e) k = errors_Is e k"

section \<open>Replies\<close>

datatype http_reply =
  BuildFailed string
| TransportFailed
| ReadFailed string
| Response int string

text \<open>The backend is one HTTP exchange.  At most \<open>bodyLimit\<close> bytes of a body are read.\<close>

record 'w backend =
  be_do :: "url \<Rightarrow> 'w \<Rightarrow> http_reply \<times> 'w"

definition bodyLimit :: nat where
  "bodyLimit = 1048576"

record client =
  cl_baseURL :: url
  cl_Timeout :: int

text \<open>
  A client exists only for a destination that the policy admits.  Its HTTP client follows no
  redirect, which is how a redirect becomes a failed exchange.
\<close>

definition NewClient ::
  "(string \<Rightarrow> bool) \<Rightarrow> string \<Rightarrow> int \<Rightarrow> DestinationPolicy \<Rightarrow> go_error + client" where
  "NewClient dns rawURL timeout policy =
     (case Validate dns policy rawURL of
        Inl e \<Rightarrow> Inl e
      | Inr parsed \<Rightarrow>
          Inr \<lparr>cl_baseURL = parsed, cl_Timeout = (if timeout \<le> 0 then 10000000000 else timeout)\<rparr>)"

section \<open>Sample checks\<close>

definition validFiniteNonNegative :: "f64 \<Rightarrow> bool" where
  "validFiniteNonNegative v \<longleftrightarrow> f_le (FFin 0) v \<and> \<not> f_isInf v \<and> \<not> f_isNaN v"

text \<open>
  \<open>float64(math.MaxInt64)\<close> is \<open>2 ^ 63\<close>; the quotient is a constant expression, rounded once.
\<close>

definition maxCPU :: rat where
  "maxCPU = f_nextafter (rnd (rnd (2 ^ 63 - 1) / 1000000000)) 0"

definition maxInt64Float :: rat where
  "maxInt64Float = f_nextafter (rnd (2 ^ 63 - 1)) 0"

definition validCPUResourceSample :: "f64 \<Rightarrow> bool" where
  "validCPUResourceSample v \<longleftrightarrow> validFiniteNonNegative v \<and> f_le v (FFin maxCPU)"

definition validMemoryResourceSample :: "f64 \<Rightarrow> bool" where
  "validMemoryResourceSample v \<longleftrightarrow> validFiniteNonNegative v \<and> f_le v (FFin maxInt64Float)"

definition prometheusNaN :: string where
  "prometheusNaN = ''NaN''"

definition parseSample :: "string \<Rightarrow> qerror + f64" where
  "parseSample s =
     (if s = ''+Inf'' then Inr FPInf
      else if s = ''-Inf'' then Inr FNInf
      else if s = prometheusNaN then Inr FNaN
      else case ParseFloat s of
             None \<Rightarrow> Inl (QPlain ''prometheus sample is not numeric'')
           | Some v \<Rightarrow> Inr v)"

section \<open>Query and QueryPair\<close>

text \<open>
  The request URL: the API path under the base path, and the query of the base URL with the
  parameter \<open>query\<close> set to the expression.
\<close>

definition query_url :: "client \<Rightarrow> string \<Rightarrow> url" where
  "query_url c expr =
     (cl_baseURL c)\<lparr>u_Path := trim_right (u_Path (cl_baseURL c)) (CHR ''/'') @ ''/api/v1/query'',
                    u_RawQuery := values_Encode
                      (values_set (url_Query (u_RawQuery (cl_baseURL c))) ''query'' expr)\<rparr>"

definition decode_payload :: "payload \<Rightarrow> qerror + f64 \<times> bool" where
  "decode_payload p =
     (if pl_Status p \<noteq> ''success'' then
        Inl (QPlain ''prometheus query returned an error status'')
      else if pl_ResultType p \<noteq> ''vector'' then
        Inl (QPlain ''unexpected prometheus result type; want vector'')
      else if length (pl_Result p) = 0 then Inr (FFin 0, False)
      else if length (pl_Result p) \<noteq> 1 then
        Inl (QWrap ''prometheus query returned %d samples; aggregate to one''
               (QSentinel ErrMultiSample))
      else (case hd (pl_Result p) of
              JString str \<Rightarrow>
                (case parseSample str of
                   Inl e \<Rightarrow> Inl e
                 | Inr v \<Rightarrow> if f_isNaN v then Inl (QSentinel ErrInvalidSample) else Inr (v, True))
            | _ \<Rightarrow> Inl (QPlain ''unexpected sample value type %T'')))"

definition Query :: "'w backend \<Rightarrow> client \<Rightarrow> string \<Rightarrow> 'w \<Rightarrow> (qerror + f64 \<times> bool) \<times> 'w" where
  "Query be c expr w =
     (let (reply, w') = be_do be (query_url c expr) w
      in (case reply of
            BuildFailed e \<Rightarrow> Inl (QWrap ''build query request'' (QPlain e))
          | TransportFailed \<Rightarrow> Inl (QPlain ''prometheus request failed'')
          | ReadFailed e \<Rightarrow> Inl (QWrap ''read prometheus response'' (QPlain e))
          | Response code body \<Rightarrow>
              (if code \<noteq> 200 then Inl (QPlain ''prometheus returned HTTP %d'')
               else case json_Unmarshal (take bodyLimit body) of
                      Inl e \<Rightarrow> Inl (QWrap ''decode prometheus response'' (QPlain e))
                    | Inr p \<Rightarrow> decode_payload p), w'))"

definition QueryPair ::
  "'w backend \<Rightarrow> client \<Rightarrow> Queries \<Rightarrow> 'w \<Rightarrow> (qerror + f64 \<times> f64 \<times> bool) \<times> 'w" where
  "QueryPair be c q w =
     (case Query be c (q_CPUCores q) w of
        (Inl e, w1) \<Rightarrow> (Inl (QWrap ''cpu query'' e), w1)
      | (Inr (cpu, cpuFound), w1) \<Rightarrow>
          (case Query be c (q_MemoryBytes q) w1 of
             (Inl e, w2) \<Rightarrow> (Inl (QWrap ''memory query'' e), w2)
           | (Inr (mem, memFound), w2) \<Rightarrow>
               (if cpuFound \<noteq> memFound then
                  (Inl (QWrap ''cpu present=%t memory present=%t'' (QSentinel ErrPartialSample)), w2)
                else if \<not> cpuFound then
                  (if q_TargetHealth q = [] then (Inr (FFin 0, FFin 0, False), w2)
                   else
                     (case Query be c (q_TargetHealth q) w2 of
                        (Inl _, w3) \<Rightarrow> (Inl (QSentinel ErrTargetUnavailable), w3)
                      | (Inr (health, healthFound), w3) \<Rightarrow>
                          (if \<not> healthFound \<or> \<not> f_eq health (FFin 1)
                           then (Inl (QSentinel ErrTargetUnavailable), w3)
                           else (Inr (FFin 0, FFin 0, False), w3))))
                else if \<not> validCPUResourceSample cpu \<or> \<not> validMemoryResourceSample mem then
                  (Inl (QSentinel ErrInvalidSample), w2)
                else (Inr (cpu, mem, True), w2))))"

section \<open>The bounds of a valid sample\<close>

lemma rnd_MaxInt64: "rnd (2 ^ 63 - 1) = 2 ^ 63"
  using rnd_eqI [of 10 "2 ^ 63 - 1" "2 ^ 53"] by (simp add: abs_if)

lemma f_nextafter_zero: "0 < x \<Longrightarrow> f_nextafter x 0 = f_mag_down x"
  by (simp add: f_nextafter_def)

lemma maxInt64Float_value: "maxInt64Float = 2 ^ 63 - 1024"
proof -
  have f: "flog2 9223372036854775808 = 63" by (rule flog2_unique) simp_all
  have "maxInt64Float = f_mag_down (2 ^ 63)"
    unfolding maxInt64Float_def rnd_MaxInt64 by (rule f_nextafter_zero) simp
  then show ?thesis by (simp add: f_mag_down_def ulp_def f64_exp_def f)
qed

lemma maxCPU_value: "maxCPU = 4835703278458516 / 2 ^ 19"
proof -
  have r: "rnd (2 ^ 63 / 1000000000) = 4835703278458517 / 2 ^ 19"
    using rnd_eqI [of "- 19" "2 ^ 63 / 1000000000" 4835703278458517]
    by (simp add: power_int_minus abs_if divide_simps)
  have f: "flog2 (4835703278458517 / 524288) = 33" by (rule flog2_unique) simp_all
  have "maxCPU = f_mag_down (4835703278458517 / 2 ^ 19)"
    unfolding maxCPU_def rnd_MaxInt64 r by (rule f_nextafter_zero) simp
  then show ?thesis by (simp add: f_mag_down_def ulp_def f64_exp_def f power_int_minus)
qed

lemma maxCPU_scaled: "rnd (maxCPU * 1000000000) = 2 ^ 63 - 1024"
  using rnd_eqI [of 10 "maxCPU * 1000000000" "2 ^ 53 - 1"]
  by (simp add: maxCPU_value abs_if)

text \<open>A valid sample is a finite number within the bound.\<close>

lemma validCPU_iff:
  "validCPUResourceSample v \<longleftrightarrow> (\<exists>r. v = FFin r \<and> 0 \<le> r \<and> r \<le> maxCPU)"
  by (cases v) (auto simp: validCPUResourceSample_def validFiniteNonNegative_def f_isInf_def f_isNaN_def)

lemma validMemory_iff:
  "validMemoryResourceSample v \<longleftrightarrow> (\<exists>r. v = FFin r \<and> 0 \<le> r \<and> r \<le> maxInt64Float)"
  by (cases v) (auto simp: validMemoryResourceSample_def validFiniteNonNegative_def f_isInf_def f_isNaN_def)

text \<open>Rounding a bounded float to an integer stays in the int64 range.\<close>

lemma round_in_int64:
  assumes "0 \<le> r" "r \<le> 2 ^ 63 - 1024"
  shows "in_int64 (f_round (FFin r))" "0 \<le> round_away r" "round_away r \<le> 2 ^ 63 - 1024"
  using round_away_int_bounds [of 0 r "2 ^ 63 - 1024"] assms by simp_all

lemma scaled_cpu:
  assumes "0 \<le> r" "r \<le> maxCPU" "0 \<le> k" "k \<le> 1000000000"
  shows "f_mul (FFin r) (FFin k) = FFin (rnd (r * k))" "0 \<le> rnd (r * k)" "rnd (r * k) \<le> 2 ^ 63 - 1024"
proof -
  have n: "0 \<le> r * k" and "r * k \<le> maxCPU * 1000000000"
    using assms by (auto intro: mult_mono)
  then have b: "rnd (r * k) \<le> 2 ^ 63 - 1024" by (metis rnd_mono maxCPU_scaled)
  then show "rnd (r * k) \<le> 2 ^ 63 - 1024" .
  show z: "0 \<le> rnd (r * k)" using n by (rule rnd_nonneg)
  have "rnd (r * k) < f64_lim" using b by (intro less_f64_lim) (rule order_trans, assumption, simp)
  then show "f_mul (FFin r) (FFin k) = FFin (rnd (r * k))"
    using z f64_lim_pos by (auto simp: f64_of_def Let_def not_le)
qed

section \<open>What a query pair can return\<close>

lemma decode_payload_absent: "decode_payload p = Inr (v, False) \<Longrightarrow> v = FFin 0"
  by (auto simp: decode_payload_def split: if_splits json_any.splits sum.splits)

lemma decode_payload_not_NaN: "decode_payload p = Inr (v, f) \<Longrightarrow> v \<noteq> FNaN"
  by (auto simp: decode_payload_def f_isNaN_def split: if_splits json_any.splits sum.splits)

lemma Query_ok_cases:
  assumes "Query be c e w = (Inr (v, f), w')"
  obtains code body p where "be_do be (query_url c e) w = (Response code body, w')" "code = 200"
    "json_Unmarshal (take bodyLimit body) = Inr p" "decode_payload p = Inr (v, f)"
  using assms
  by (auto simp: Query_def split: prod.splits http_reply.splits if_splits sum.splits)

lemma Query_absent: "Query be c e w = (Inr (v, False), w') \<Longrightarrow> v = FFin 0"
  by (elim Query_ok_cases) (rule decode_payload_absent)

lemma QueryPair_found:
  assumes "QueryPair be c q w = (Inr (cpu, mem, True), w')"
  shows "validCPUResourceSample cpu" "validMemoryResourceSample mem"
  using assms
  by (auto simp: QueryPair_def split: prod.splits sum.splits if_splits)

lemma QueryPair_absent:
  assumes "QueryPair be c q w = (Inr (cpu, mem, False), w')"
  shows "cpu = FFin 0" "mem = FFin 0"
  using assms
  by (auto simp: QueryPair_def split: prod.splits sum.splits if_splits)

text \<open>
  The three queries a pair issues, in order: a pair is reported absent only when both
  resource queries came back empty and, where a health query exists, it answered one.
\<close>

lemma QueryPair_absent_health:
  assumes "QueryPair be c q w = (Inr (cpu, mem, False), w')"
  obtains w1 w2 where "Query be c (q_CPUCores q) w = (Inr (FFin 0, False), w1)"
    "Query be c (q_MemoryBytes q) w1 = (Inr (FFin 0, False), w2)"
    "if q_TargetHealth q = [] then w' = w2
     else Query be c (q_TargetHealth q) w2 = (Inr (FFin 1, True), w')"
  using assms
  by (fastforce simp: QueryPair_def f_eq_def dest: Query_absent
        split: prod.splits sum.splits if_splits)

lemma QueryPair_found_cases:
  assumes "QueryPair be c q w = (Inr (cpu, mem, True), w')"
  obtains w1 where "Query be c (q_CPUCores q) w = (Inr (cpu, True), w1)"
    "Query be c (q_MemoryBytes q) w1 = (Inr (mem, True), w')"
  using assms
  by (fastforce simp: QueryPair_def split: prod.splits sum.splits if_splits)

text \<open>A base URL without a query gets the expression as its only parameter.\<close>

lemma query_url_RawQuery:
  "u_RawQuery (cl_baseURL c) = [] \<Longrightarrow> u_RawQuery (query_url c expr) = ''query='' @ QueryEscape expr"
  by (simp add: query_url_def)

lemma query_url_simps:
  "u_Scheme (query_url c expr) = u_Scheme (cl_baseURL c)" "u_Host (query_url c expr) = u_Host (cl_baseURL c)"
  "u_User (query_url c expr) = u_User (cl_baseURL c)"
  "u_Path (query_url c expr) = trim_right (u_Path (cl_baseURL c)) (CHR ''/'') @ ''/api/v1/query''"
  by (simp_all add: query_url_def)

text \<open>The error branches of a query and of a pair, in the order the code meets them.\<close>

lemma Query_many_samples:
  assumes "be_do be (query_url c e) w = (Response 200 body, w')"
    and "json_Unmarshal (take bodyLimit body) = Inr p"
    and "pl_Status p = ''success''" "pl_ResultType p = ''vector''" "1 < length (pl_Result p)"
  shows "\<exists>m. Query be c e w = (Inl (QWrap m (QSentinel ErrMultiSample)), w')"
proof -
  have "pl_Result p \<noteq> []" "length (pl_Result p) \<noteq> Suc 0" using assms(5) by auto
  then show ?thesis using assms(1-4) by (simp add: Query_def decode_payload_def)
qed

lemma QueryPair_cpu_error:
  "Query be c (q_CPUCores q) w = (Inl e, w1) \<Longrightarrow>
   QueryPair be c q w = (Inl (QWrap ''cpu query'' e), w1)"
  by (simp add: QueryPair_def)

lemma QueryPair_memory_error:
  "Query be c (q_CPUCores q) w = (Inr r, w1) \<Longrightarrow>
   Query be c (q_MemoryBytes q) w1 = (Inl e, w2) \<Longrightarrow>
   QueryPair be c q w = (Inl (QWrap ''memory query'' e), w2)"
  by (cases r) (simp add: QueryPair_def)

lemma QueryPair_partial:
  "Query be c (q_CPUCores q) w = (Inr (cpu, a), w1) \<Longrightarrow>
   Query be c (q_MemoryBytes q) w1 = (Inr (mem, b), w2) \<Longrightarrow> a \<noteq> b \<Longrightarrow>
   QueryPair be c q w = (Inl (QWrap ''cpu present=%t memory present=%t'' (QSentinel ErrPartialSample)), w2)"
  by (simp add: QueryPair_def)

lemma QueryPair_invalid:
  "Query be c (q_CPUCores q) w = (Inr (cpu, True), w1) \<Longrightarrow>
   Query be c (q_MemoryBytes q) w1 = (Inr (mem, True), w2) \<Longrightarrow>
   \<not> validCPUResourceSample cpu \<or> \<not> validMemoryResourceSample mem \<Longrightarrow>
   QueryPair be c q w = (Inl (QSentinel ErrInvalidSample), w2)"
  by (simp add: QueryPair_def)

section \<open>The interface of a metrics querier\<close>

text \<open>
  \<open>MetricsQuerier\<close> of the controller: one operation, with what its callers rely on.  A found
  pair is valid in both dimensions, an absent pair reads as zero.
\<close>

locale metrics_querier =
  fixes queryPair :: "Queries \<Rightarrow> 'w \<Rightarrow> (qerror + f64 \<times> f64 \<times> bool) \<times> 'w"
  assumes found_valid: "queryPair q w = (Inr (cpu, mem, True), w') \<Longrightarrow>
      validCPUResourceSample cpu \<and> validMemoryResourceSample mem"
    and absent_zero: "queryPair q w = (Inr (cpu, mem, False), w') \<Longrightarrow> cpu = FFin 0 \<and> mem = FFin 0"
begin

lemma result_finite:
  assumes "queryPair q w = (Inr (cpu, mem, found), w')"
  obtains c m where "cpu = FFin c" "mem = FFin m" "0 \<le> c" "c \<le> maxCPU" "0 \<le> m"
    "m \<le> maxInt64Float"
proof (cases found)
  case True
  then show thesis using found_valid [of q w cpu mem w'] assms that
    by (auto simp: validCPU_iff validMemory_iff)
next
  case False
  then show thesis using absent_zero [of q w cpu mem w'] assms that
    by (auto simp: maxCPU_value maxInt64Float_value)
qed

lemma result_valid:
  assumes "queryPair q w = (Inr (cpu, mem, found), w')"
  shows "validCPUResourceSample cpu" "validMemoryResourceSample mem"
  by (rule result_finite [OF assms]; simp add: validCPU_iff validMemory_iff)+

end

interpretation prom: metrics_querier "QueryPair be c" for be c
  by unfold_locales (auto dest: QueryPair_found QueryPair_absent)

end
