(* ===== verification/Measured_Pair.thy ===== *)
theory Measured_Pair
  imports Prom_Client
begin

text \<open>
  From a valid sample to quantities: the float products and conversions of \<open>PairOf\<close> and
  \<open>MeasurementPairOf\<close> stay in the int64 range, so no conversion leaves the language's
  defined behaviour, and the quantity is the sample up to one rounding unit.
\<close>

definition cpu_units :: "rat \<Rightarrow> rat \<Rightarrow> int" where
  "cpu_units k r = round_away (rnd (r * k))"

lemma cpu_units_range:
  assumes "0 \<le> r" "r \<le> maxCPU" "0 \<le> k" "k \<le> 1000000000"
  shows "0 \<le> cpu_units k r" "cpu_units k r < 2 ^ 63"
  using round_in_int64 [of "rnd (r * k)"] scaled_cpu [OF assms] by (simp_all add: cpu_units_def)

lemma cpu_conversion:
  assumes "0 \<le> r" "r \<le> maxCPU" "0 \<le> k" "k \<le> 1000000000"
  shows "f_to_int64 ovf (f_round (f_mul (FFin r) (FFin k))) = word_of_int (cpu_units k r)"
  using cpu_units_range [OF assms] scaled_cpu(1) [OF assms] by (simp add: cpu_units_def)

lemma memory_range:
  assumes "0 \<le> r" "r \<le> maxInt64Float"
  shows "0 \<le> round_away r" "round_away r < 2 ^ 63"
  using round_in_int64 [of r] assms by (simp_all add: maxInt64Float_value)

lemma memory_conversion:
  assumes "0 \<le> r" "r \<le> maxInt64Float"
  shows "f_to_int64 ovf (f_round (FFin r)) = word_of_int (round_away r)"
  using memory_range [OF assms] by simp

lemma sint_word_of_int64: "0 \<le> n \<Longrightarrow> n < 2 ^ 63 \<Longrightarrow> sint (word_of_int n :: int64) = n"
  by (simp add: sint_sbintrunc' signed_take_bit_int_eq_self)

lemma PairOf_finite:
  assumes "0 \<le> c" "c \<le> maxCPU" "0 \<le> m" "m \<le> maxInt64Float"
  shows "PairOf L (FFin c) (FFin m) =
    \<lparr>rp_CPU = q_NewMilliQuantity L (word_of_int (cpu_units 1000 c)),
     rp_Memory = q_NewQuantity L (word_of_int (round_away m))\<rparr>"
  unfolding PairOf_def Let_def
  using cpu_conversion [of c 1000] memory_conversion [of m] assms by simp

lemma MeasurementPairOf_finite:
  assumes "0 \<le> c" "c \<le> maxCPU" "0 \<le> m" "m \<le> maxInt64Float"
  shows "MeasurementPairOf L (FFin c) (FFin m) =
    \<lparr>rp_CPU = q_NewNanoQuantity L (word_of_int (cpu_units 1000000000 c)),
     rp_Memory = q_NewQuantity L (word_of_int (round_away m))\<rparr>"
  unfolding MeasurementPairOf_def Let_def
  using cpu_conversion [of c 1000000000] memory_conversion [of m] assms by simp

section \<open>Accuracy\<close>

lemma round_away_error: "\<bar>of_int (round_away x) - x\<bar> \<le> 1 / 2"
  unfolding round_away_def by (auto simp: abs_if) linarith+

lemma round_away_small: "0 \<le> x \<Longrightarrow> x < 1 / 2 \<Longrightarrow> round_away x = 0"
  unfolding round_away_def by simp linarith

lemma cpu_units_error:
  assumes "0 \<le> r" "0 < k"
  shows "\<bar>of_int (cpu_units k r) / k - r\<bar> \<le> 1 / (2 * k) + r / 2 ^ 53"
proof -
  let ?x = "r * k"
  have x0: "0 \<le> ?x" using assms by simp
  have "\<bar>of_int (cpu_units k r) - ?x\<bar> \<le> 1 / 2 + ?x / 2 ^ 53"
  proof (cases "2 powi (- 1022) \<le> ?x")
    case True
    then have "\<bar>rnd ?x - ?x\<bar> \<le> ?x / 2 ^ 53" using rnd_rel_error [of ?x] x0 by simp
    moreover have "\<bar>of_int (cpu_units k r) - rnd ?x\<bar> \<le> 1 / 2"
      unfolding cpu_units_def by (rule round_away_error)
    ultimately show ?thesis by linarith
  next
    case False
    have "rnd ?x \<le> 1 / 4"
    proof -
      have "2 powi (- 1022) \<le> (2 :: rat) powi (- 2)" by (rule powi2_mono) simp
      then have "?x \<le> 1 / 4" using False by (simp add: power_int_minus)
      then have "rnd ?x \<le> rnd (1 / 4)" by (rule rnd_mono)
      also have "rnd (1 / 4) = 1 / 4" using rnd_eqI [of "- 54" "1 / 4" "2 ^ 52"] by (simp add: power_int_minus)
      finally show ?thesis .
    qed
    then have "cpu_units k r = 0"
      unfolding cpu_units_def using rnd_nonneg [OF x0] by (intro round_away_small) simp_all
    moreover have "?x \<le> 1 / 2" 
    proof -
      have "2 powi (- 1022) \<le> (2 :: rat) powi (- 1)" by (rule powi2_mono) simp
      then show ?thesis using False by (simp add: power_int_minus)
    qed
    ultimately show ?thesis using x0 by simp
  qed
  then have "\<bar>of_int (cpu_units k r) - ?x\<bar> / k \<le> (1 / 2 + ?x / 2 ^ 53) / k"
    using assms by (intro divide_right_mono) simp_all
  moreover have "\<bar>of_int (cpu_units k r) - ?x\<bar> / k = \<bar>of_int (cpu_units k r) / k - r\<bar>"
  proof -
    have "of_int (cpu_units k r) / k - r = (of_int (cpu_units k r) - ?x) / k"
      using assms by (simp add: field_simps)
    then show ?thesis using assms by simp
  qed
  moreover have "(1 / 2 + ?x / 2 ^ 53) / k = 1 / (2 * k) + r / 2 ^ 53"
    using assms by (simp add: field_simps)
  ultimately show ?thesis by simp
qed


section \<open>The measured pair as numbers\<close>

text \<open>What the two conversions denote, for any quantity library that meets its contract.\<close>

lemma PairOf_values:
  assumes L: "quantity_laws L val" and "0 \<le> c" "c \<le> maxCPU" "0 \<le> m" "m \<le> maxInt64Float"
  shows "val (rp_CPU (PairOf L (FFin c) (FFin m))) = of_int (cpu_units 1000 c) / 1000"
    and "val (rp_Memory (PairOf L (FFin c) (FFin m))) = of_int (round_away m)"
    and "val (rp_CPU (MeasurementPairOf L (FFin c) (FFin m))) =
           of_int (cpu_units 1000000000 c) / 1000000000"
    and "val (rp_Memory (MeasurementPairOf L (FFin c) (FFin m))) = of_int (round_away m)"
proof -
  note f = PairOf_finite [OF assms(2-5), of L] MeasurementPairOf_finite [OF assms(2-5), of L]
    quantity_lawsD [OF L] sint_word_of_int64
  show "val (rp_CPU (PairOf L (FFin c) (FFin m))) = of_int (cpu_units 1000 c) / 1000"
    using cpu_units_range [of c 1000] assms by (simp add: f)
  show "val (rp_CPU (MeasurementPairOf L (FFin c) (FFin m))) =
           of_int (cpu_units 1000000000 c) / 1000000000"
    using cpu_units_range [of c 1000000000] assms by (simp add: f)
  show "val (rp_Memory (PairOf L (FFin c) (FFin m))) = of_int (round_away m)"
    "val (rp_Memory (MeasurementPairOf L (FFin c) (FFin m))) = of_int (round_away m)"
    using memory_range [of m] assms by (simp_all add: f)
qed

lemma PairOf_zero:
  assumes "quantity_laws L val"
  shows "val (rp_CPU (PairOf L (FFin 0) (FFin 0))) = 0"
    "val (rp_Memory (PairOf L (FFin 0) (FFin 0))) = 0"
  using PairOf_values(1,2) [OF assms, of 0 0]
  by (simp_all add: maxCPU_value maxInt64Float_value cpu_units_def round_away_small)

context metrics_querier begin

text \<open>
  The pair a querier returns converts without overflow: the conversion does not depend on
  what the platform does out of range, and it is accurate.
\<close>

lemma converted:
  assumes q: "queryPair q w = (Inr (cpu, mem, found), w')" and L: "quantity_laws L val"
  obtains c m where "cpu = FFin c" "mem = FFin m" "0 \<le> c" "0 \<le> m"
    "\<bar>val (rp_CPU (PairOf L cpu mem)) - c\<bar> \<le> 1 / 2000 + c / 2 ^ 53"
    "\<bar>val (rp_Memory (PairOf L cpu mem)) - m\<bar> \<le> 1 / 2"
    "\<bar>val (rp_CPU (MeasurementPairOf L cpu mem)) - c\<bar> \<le> 1 / 2000000000 + c / 2 ^ 53"
proof (rule result_finite [OF q])
  fix c m
  assume a: "cpu = FFin c" "mem = FFin m" "0 \<le> c" "c \<le> maxCPU" "0 \<le> m" "m \<le> maxInt64Float"
  note v = PairOf_values [OF L a(3-6)]
  show thesis
    by (rule that [OF a(1,2,3,5)])
      (use cpu_units_error [of c 1000] cpu_units_error [of c 1000000000] round_away_error [of m] a v
       in simp_all)
qed

end

end
