(* ===== verification/Node_Gate.thy ===== *)
theory Node_Gate
  imports Api_Types
begin

text \<open>
  Model of \<open>internal/shadow/node.go\<close>: the gate that decides whether the target node can
  host a phantom pod.  A node is what the code reads of \<open>corev1.Node\<close>: whether it carries
  a deletion timestamp, and its list of status conditions.
\<close>

record node_condition =
  nc_type :: string
  nc_status :: string

record node =
  node_name :: string
  node_deletionTimestamp :: "int option"
  node_conditions :: "node_condition list"

definition NodeReasonMissing :: string where
  "NodeReasonMissing = ''missing''"

definition NodeReasonTerminating :: string where
  "NodeReasonTerminating = ''terminating''"

definition NodeReasonNotReady :: string where
  "NodeReasonNotReady = ''not-ready''"

text \<open>The loop over the conditions: the first \<open>Ready\<close> condition decides.\<close>

fun ready_scan :: "node_condition list \<Rightarrow> bool \<times> string" where
  "ready_scan [] = (False, NodeReasonNotReady)"
| "ready_scan (c # cs) =
     (if nc_type c = ''Ready'' then
        (if nc_status c \<noteq> ''True'' then (False, NodeReasonNotReady) else (True, []))
      else ready_scan cs)"

definition NodeEligible :: "node option \<Rightarrow> bool \<times> string" where
  "NodeEligible n =
     (case n of
        None \<Rightarrow> (False, NodeReasonMissing)
      | Some nd \<Rightarrow>
          (if node_deletionTimestamp nd \<noteq> None then (False, NodeReasonTerminating)
           else ready_scan (node_conditions nd)))"

definition NodeEligibilityError :: "string \<Rightarrow> string \<Rightarrow> 'q msg" where
  "NodeEligibilityError nodeName reason =
     (if reason = NodeReasonMissing then
        (''target node %q does not exist'', [AQuote nodeName])
      else if reason = NodeReasonTerminating then
        (''target node %q is terminating; phantom creation deferred'', [AQuote nodeName])
      else (''target node %q is not Ready; phantom creation deferred'', [AQuote nodeName]))"

section \<open>What the gate admits\<close>

lemmas node_reason_defs = NodeReasonMissing_def NodeReasonTerminating_def NodeReasonNotReady_def

lemma ready_scan_True_iff:
  "fst (ready_scan cs) \<longleftrightarrow>
     (\<exists>c. find (\<lambda>c. nc_type c = ''Ready'') cs = Some c \<and> nc_status c = ''True'')"
  by (induction cs) auto

lemma ready_scan_reason:
  "ready_scan cs = (ok, why) \<Longrightarrow> why = (if ok then [] else NodeReasonNotReady)"
  by (induction cs) (auto split: if_splits)

lemma find_unique_type:
  assumes "distinct (map nc_type cs)"
  shows "find (\<lambda>c. nc_type c = t) cs = Some c \<longleftrightarrow> c \<in> set cs \<and> nc_type c = t"
  using assms by (induction cs) (auto simp: image_iff)

lemma NodeEligible_iff:
  "fst (NodeEligible n) \<longleftrightarrow>
     (\<exists>nd c. n = Some nd \<and> node_deletionTimestamp nd = None \<and>
        find (\<lambda>c. nc_type c = ''Ready'') (node_conditions nd) = Some c \<and> nc_status c = ''True'')"
  by (auto simp: NodeEligible_def ready_scan_True_iff split: option.splits)

lemma NodeEligible_reason:
  "NodeEligible n = (ok, why) \<Longrightarrow>
     (ok \<longleftrightarrow> why = []) \<and>
     (\<not> ok \<longrightarrow> why = (case n of None \<Rightarrow> NodeReasonMissing
        | Some nd \<Rightarrow> if node_deletionTimestamp nd \<noteq> None then NodeReasonTerminating
                    else NodeReasonNotReady))"
  by (auto simp: NodeEligible_def node_reason_defs split: option.splits if_splits
      dest!: ready_scan_reason)

end
