(* ===== verification/Metrics_Recorder.thy ===== *)
theory Metrics_Recorder
  imports Api_Types
begin

text \<open>
  Model of \<open>internal/metrics/metrics.go\<close>: the recorder of the controller's own series.  A
  metric vector belongs to the Prometheus client library, which is not in this repository:
  its operations are the fields of \<open>vec_lib\<close>, and \<open>vec_laws\<close> states their documented
  behaviour over the series a vector holds, a map from label values to a number.  A nil
  recorder is \<open>None\<close>.
\<close>

section \<open>Labels\<close>

definition LabelNamespace :: string where "LabelNamespace = ''namespace''"
definition LabelName :: string where "LabelName = ''name''"
definition LabelReason :: string where "LabelReason = ''reason''"

lemmas label_defs = LabelNamespace_def LabelName_def LabelReason_def

section \<open>Series names\<close>

definition MetricMeasuredCPU :: string where
  "MetricMeasuredCPU = ''kube_symbiont_shadowworkload_measured_cpu_cores''"

definition MetricMeasuredMemory :: string where
  "MetricMeasuredMemory = ''kube_symbiont_shadowworkload_measured_memory_bytes''"

definition MetricReservedCPU :: string where
  "MetricReservedCPU = ''kube_symbiont_shadowworkload_reserved_cpu_cores''"

definition MetricReservedMemory :: string where
  "MetricReservedMemory = ''kube_symbiont_shadowworkload_reserved_memory_bytes''"

definition MetricLastSuccess :: string where
  "MetricLastSuccess = ''kube_symbiont_shadowworkload_last_successful_measurement_timestamp_seconds''"

definition MetricUpdates :: string where
  "MetricUpdates = ''kube_symbiont_shadowworkload_reservation_updates_total''"

definition MetricFailures :: string where
  "MetricFailures = ''kube_symbiont_shadowworkload_measurement_failures_total''"

section \<open>Failure reasons\<close>

definition FailurePrometheusUnavailable :: string where
  "FailurePrometheusUnavailable = ''prometheus_unavailable''"

definition FailureMultiSample :: string where
  "FailureMultiSample = ''multi_sample''"

definition FailurePartialSample :: string where
  "FailurePartialSample = ''partial_sample''"

definition FailureInvalidSample :: string where
  "FailureInvalidSample = ''invalid_sample''"

definition FailureTargetUnavailable :: string where
  "FailureTargetUnavailable = ''target_unavailable''"

definition FailureResizeRejected :: string where
  "FailureResizeRejected = ''resize_rejected''"

definition FailureSourceMissing :: string where
  "FailureSourceMissing = ''source_missing''"

lemmas failure_reason_defs =
  FailurePrometheusUnavailable_def FailureMultiSample_def FailurePartialSample_def
  FailureInvalidSample_def FailureTargetUnavailable_def FailureResizeRejected_def
  FailureSourceMissing_def

definition knownFailureReasons :: "string list" where
  "knownFailureReasons =
     [FailurePrometheusUnavailable, FailureMultiSample, FailurePartialSample,
      FailureInvalidSample, FailureTargetUnavailable, FailureResizeRejected,
      FailureSourceMissing]"

definition valid_reason :: "string \<Rightarrow> bool" where
  "valid_reason fr = (fr \<in> set knownFailureReasons)"

section \<open>Metric vectors\<close>

record 'v vec_lib =
  v_new :: "string \<Rightarrow> string list \<Rightarrow> 'v"
  v_keys :: "'v \<Rightarrow> string list"
  v_series :: "'v \<Rightarrow> string list \<rightharpoonup> f64"
  v_Set :: "'v \<Rightarrow> string list \<Rightarrow> f64 \<Rightarrow> 'v"
  v_Inc :: "'v \<Rightarrow> string list \<Rightarrow> 'v"
  v_DeletePartialMatch :: "'v \<Rightarrow> (string \<times> string) list \<Rightarrow> 'v"

text \<open>A series matches when every listed label carries the listed value.\<close>

definition partial_match :: "string list \<Rightarrow> string list \<Rightarrow> (string \<times> string) list \<Rightarrow> bool" where
  "partial_match keys vals labels \<longleftrightarrow> (\<forall>(k, v) \<in> set labels. map_of (zip keys vals) k = Some v)"

definition inc_value :: "f64 option \<Rightarrow> f64" where
  "inc_value x = f_add (case x of None \<Rightarrow> FFin 0 | Some y \<Rightarrow> y) (FFin 1)"

definition vec_laws :: "'v vec_lib \<Rightarrow> bool" where
  "vec_laws V \<longleftrightarrow>
     (\<forall>n ks. v_keys V (v_new V n ks) = ks \<and> v_series V (v_new V n ks) = Map.empty) \<and>
     (\<forall>v ls x. length ls = length (v_keys V v) \<longrightarrow>
        v_keys V (v_Set V v ls x) = v_keys V v \<and>
        v_series V (v_Set V v ls x) = (v_series V v)(ls \<mapsto> x)) \<and>
     (\<forall>v ls. length ls = length (v_keys V v) \<longrightarrow>
        v_keys V (v_Inc V v ls) = v_keys V v \<and>
        v_series V (v_Inc V v ls) = (v_series V v)(ls \<mapsto> inc_value (v_series V v ls))) \<and>
     (\<forall>v m. v_keys V (v_DeletePartialMatch V v m) = v_keys V v \<and>
        v_series V (v_DeletePartialMatch V v m) =
          (\<lambda>ls. if partial_match (v_keys V v) ls m then None else v_series V v ls))"

lemma vec_lawsD:
  assumes "vec_laws V"
  shows "v_keys V (v_new V n ks) = ks" and "v_series V (v_new V n ks) = Map.empty"
    and "length ls = length (v_keys V v) \<Longrightarrow> v_keys V (v_Set V v ls x) = v_keys V v"
    and "length ls = length (v_keys V v) \<Longrightarrow> v_series V (v_Set V v ls x) = (v_series V v)(ls \<mapsto> x)"
    and "length ls = length (v_keys V v) \<Longrightarrow> v_keys V (v_Inc V v ls) = v_keys V v"
    and "length ls = length (v_keys V v) \<Longrightarrow>
      v_series V (v_Inc V v ls) = (v_series V v)(ls \<mapsto> inc_value (v_series V v ls))"
    and "v_keys V (v_DeletePartialMatch V v m) = v_keys V v"
    and "v_series V (v_DeletePartialMatch V v m) =
      (\<lambda>ls. if partial_match (v_keys V v) ls m then None else v_series V v ls)"
  using assms unfolding vec_laws_def by blast+

section \<open>The recorder\<close>

record 'v Recorder =
  measuredCPU :: 'v
  measuredMemory :: 'v
  reservedCPU :: 'v
  reservedMemory :: 'v
  lastSuccessfulRun :: 'v
  reservationUpdate :: 'v
  measurementFail :: 'v

definition New :: "'v vec_lib \<Rightarrow> 'v Recorder option" where
  "New V =
     (let common = [LabelNamespace, LabelName]
      in Some
        \<lparr>measuredCPU = v_new V MetricMeasuredCPU common,
         measuredMemory = v_new V MetricMeasuredMemory common,
         reservedCPU = v_new V MetricReservedCPU common,
         reservedMemory = v_new V MetricReservedMemory common,
         lastSuccessfulRun = v_new V MetricLastSuccess common,
         reservationUpdate = v_new V MetricUpdates common,
         measurementFail = v_new V MetricFailures (common @ [LabelReason])\<rparr>)"

definition gaugeVecs :: "'v Recorder \<Rightarrow> 'v list" where
  "gaugeVecs r =
     [measuredCPU r, measuredMemory r, reservedCPU r, reservedMemory r, lastSuccessfulRun r]"

definition counterVecs :: "'v Recorder \<Rightarrow> 'v list" where
  "counterVecs r = [reservationUpdate r, measurementFail r]"

text \<open>
  Registration with a registry, whose \<open>Register\<close> is a parameter: it returns an error or
  nothing, and an error may say that the collector is registered already.
\<close>

datatype register_error = AlreadyRegistered | RegisterFailed string

definition registerToleratingDuplicates ::
  "('v \<Rightarrow> 'r \<Rightarrow> register_error option \<times> 'r) \<Rightarrow> 'v \<Rightarrow> 'r \<Rightarrow> register_error option \<times> 'r" where
  "registerToleratingDuplicates reg c s =
     (case reg c s of
        (Some e, s') \<Rightarrow> (if e \<noteq> AlreadyRegistered then (Some e, s') else (None, s'))
      | (None, s') \<Rightarrow> (None, s'))"

fun register_all ::
  "('v \<Rightarrow> 'r \<Rightarrow> register_error option \<times> 'r) \<Rightarrow> 'v list \<Rightarrow> 'r \<Rightarrow> register_error option \<times> 'r" where
  "register_all reg [] s = (None, s)"
| "register_all reg (c # cs) s =
     (case registerToleratingDuplicates reg c s of
        (Some e, s') \<Rightarrow> (Some e, s')
      | (None, s') \<Rightarrow> register_all reg cs s')"

definition Register ::
  "('v \<Rightarrow> 'r \<Rightarrow> register_error option \<times> 'r) \<Rightarrow> 'v Recorder option \<Rightarrow> 'r \<Rightarrow>
   register_error option \<times> 'r" where
  "Register reg r s =
     (case r of
        None \<Rightarrow> (None, s)
      | Some rc \<Rightarrow>
          (case register_all reg (gaugeVecs rc) s of
             (Some e, s') \<Rightarrow> (Some e, s')
           | (None, s') \<Rightarrow> register_all reg (counterVecs rc) s'))"

definition ObservedMeasurement ::
  "'v vec_lib \<Rightarrow> 'v Recorder option \<Rightarrow> string \<Rightarrow> string \<Rightarrow> f64 \<Rightarrow> f64 \<Rightarrow> 'v Recorder option" where
  "ObservedMeasurement V r namespace name cpuCores memoryBytes =
     map_option (\<lambda>rc.
       (let rc = rc\<lparr>measuredCPU := v_Set V (measuredCPU rc) [namespace, name] cpuCores\<rparr>
        in rc\<lparr>measuredMemory := v_Set V (measuredMemory rc) [namespace, name] memoryBytes\<rparr>)) r"

definition MeasurementSucceeded ::
  "'v vec_lib \<Rightarrow> 'v Recorder option \<Rightarrow> string \<Rightarrow> string \<Rightarrow> gotime \<Rightarrow> 'v Recorder option" where
  "MeasurementSucceeded V r namespace name t =
     (if time_IsZero t then r
      else map_option (\<lambda>rc.
        rc\<lparr>lastSuccessfulRun :=
             v_Set V (lastSuccessfulRun rc) [namespace, name] (f_of_int (time_Unix t))\<rparr>) r)"

definition SetReserved ::
  "'v vec_lib \<Rightarrow> 'v Recorder option \<Rightarrow> string \<Rightarrow> string \<Rightarrow> f64 \<Rightarrow> f64 \<Rightarrow> 'v Recorder option" where
  "SetReserved V r namespace name cpuCores memoryBytes =
     map_option (\<lambda>rc.
       (let rc = rc\<lparr>reservedCPU := v_Set V (reservedCPU rc) [namespace, name] cpuCores\<rparr>
        in rc\<lparr>reservedMemory := v_Set V (reservedMemory rc) [namespace, name] memoryBytes\<rparr>)) r"

definition ReservationUpdated ::
  "'v vec_lib \<Rightarrow> 'v Recorder option \<Rightarrow> string \<Rightarrow> string \<Rightarrow> 'v Recorder option" where
  "ReservationUpdated V r namespace name =
     map_option (\<lambda>rc.
       rc\<lparr>reservationUpdate := v_Inc V (reservationUpdate rc) [namespace, name]\<rparr>) r"

definition MeasurementFailed ::
  "'v vec_lib \<Rightarrow> 'v Recorder option \<Rightarrow> string \<Rightarrow> string \<Rightarrow> string \<Rightarrow> 'v Recorder option" where
  "MeasurementFailed V r namespace name reason =
     (if \<not> valid_reason reason then r
      else map_option (\<lambda>rc.
        rc\<lparr>measurementFail := v_Inc V (measurementFail rc) [namespace, name, reason]\<rparr>) r)"

text \<open>\<open>Describe\<close> and \<open>Collect\<close> visit the vectors in this order.\<close>

definition collected_vecs :: "'v Recorder \<Rightarrow> 'v list" where
  "collected_vecs r = gaugeVecs r @ counterVecs r"

definition RemoveShadowWorkload ::
  "'v vec_lib \<Rightarrow> 'v Recorder option \<Rightarrow> string \<Rightarrow> string \<Rightarrow> 'v Recorder option" where
  "RemoveShadowWorkload V r namespace name =
     map_option (\<lambda>rc.
       (let match = [(LabelNamespace, namespace), (LabelName, name)];
            del = (\<lambda>v. v_DeletePartialMatch V v match)
        in \<lparr>measuredCPU = del (measuredCPU rc), measuredMemory = del (measuredMemory rc),
            reservedCPU = del (reservedCPU rc), reservedMemory = del (reservedMemory rc),
            lastSuccessfulRun = del (lastSuccessfulRun rc),
            reservationUpdate = del (reservationUpdate rc),
            measurementFail = del (measurementFail rc)\<rparr>)) r"

section \<open>What a recorder holds\<close>

text \<open>
  The invariant: every vector carries its label keys, every series has one value per key, and
  the reason label of a failure series is one of the known reasons.
\<close>

definition vec_ok :: "'v vec_lib \<Rightarrow> string list \<Rightarrow> 'v \<Rightarrow> bool" where
  "vec_ok V ks v \<longleftrightarrow>
     v_keys V v = ks \<and> (\<forall>ls. v_series V v ls \<noteq> None \<longrightarrow> length ls = length ks)"

definition recorder_ok :: "'v vec_lib \<Rightarrow> 'v Recorder \<Rightarrow> bool" where
  "recorder_ok V rc \<longleftrightarrow>
     (\<forall>v \<in> set (gaugeVecs rc @ [reservationUpdate rc]). vec_ok V [LabelNamespace, LabelName] v) \<and>
     vec_ok V [LabelNamespace, LabelName, LabelReason] (measurementFail rc) \<and>
     (\<forall>ns n r. v_series V (measurementFail rc) [ns, n, r] \<noteq> None \<longrightarrow> valid_reason r)"

lemma vec_ok_Set:
  "vec_laws V \<Longrightarrow> vec_ok V ks v \<Longrightarrow> length ls = length ks \<Longrightarrow> vec_ok V ks (v_Set V v ls x)"
  by (auto simp: vec_ok_def vec_lawsD)

lemma vec_ok_Inc:
  "vec_laws V \<Longrightarrow> vec_ok V ks v \<Longrightarrow> length ls = length ks \<Longrightarrow> vec_ok V ks (v_Inc V v ls)"
  by (auto simp: vec_ok_def vec_lawsD)

lemma vec_ok_Delete:
  "vec_laws V \<Longrightarrow> vec_ok V ks v \<Longrightarrow> vec_ok V ks (v_DeletePartialMatch V v m)"
  by (auto simp: vec_ok_def vec_lawsD)

lemma vec_ok_new: "vec_laws V \<Longrightarrow> vec_ok V ks (v_new V n ks)"
  by (auto simp: vec_ok_def vec_lawsD)

lemmas recorder_ok_defs = recorder_ok_def gaugeVecs_def

lemmas vec_ok_intros = vec_ok_Set vec_ok_Inc vec_ok_Delete vec_ok_new

lemma New_ok: "vec_laws V \<Longrightarrow> New V = Some rc \<Longrightarrow> recorder_ok V rc"
  by (auto simp: New_def Let_def recorder_ok_defs vec_lawsD intro!: vec_ok_new)

lemma ObservedMeasurement_ok:
  "vec_laws V \<Longrightarrow> pred_option (recorder_ok V) r \<Longrightarrow>
     pred_option (recorder_ok V) (ObservedMeasurement V r ns n c m)"
  by (cases r) (auto simp: ObservedMeasurement_def recorder_ok_defs Let_def intro!: vec_ok_intros)

lemma MeasurementSucceeded_ok:
  "vec_laws V \<Longrightarrow> pred_option (recorder_ok V) r \<Longrightarrow>
     pred_option (recorder_ok V) (MeasurementSucceeded V r ns n t)"
  by (cases r) (auto simp: MeasurementSucceeded_def recorder_ok_defs intro!: vec_ok_intros)

lemma SetReserved_ok:
  "vec_laws V \<Longrightarrow> pred_option (recorder_ok V) r \<Longrightarrow>
     pred_option (recorder_ok V) (SetReserved V r ns n c m)"
  by (cases r) (auto simp: SetReserved_def recorder_ok_defs Let_def intro!: vec_ok_intros)

lemma ReservationUpdated_ok:
  "vec_laws V \<Longrightarrow> pred_option (recorder_ok V) r \<Longrightarrow>
     pred_option (recorder_ok V) (ReservationUpdated V r ns n)"
  by (cases r) (auto simp: ReservationUpdated_def recorder_ok_defs intro!: vec_ok_intros)

lemma MeasurementFailed_ok:
  assumes V: "vec_laws V" and r: "pred_option (recorder_ok V) r"
  shows "pred_option (recorder_ok V) (MeasurementFailed V r ns n reason)"
proof (cases r)
  case (Some rc)
  have "vec_ok V [LabelNamespace, LabelName, LabelReason] (measurementFail rc)"
    using r Some by (simp add: recorder_ok_def)
  then have "v_series V (v_Inc V (measurementFail rc) [ns, n, reason]) =
      (v_series V (measurementFail rc))([ns, n, reason] \<mapsto>
         inc_value (v_series V (measurementFail rc) [ns, n, reason]))"
    using V by (simp add: vec_ok_def vec_lawsD)
  then show ?thesis
    using r V Some
    by (auto simp: MeasurementFailed_def recorder_ok_defs intro!: vec_ok_intros split: if_splits)
qed (simp add: MeasurementFailed_def)

lemma RemoveShadowWorkload_ok:
  "vec_laws V \<Longrightarrow> pred_option (recorder_ok V) r \<Longrightarrow>
     pred_option (recorder_ok V) (RemoveShadowWorkload V r ns n)"
  by (cases r)
    (auto simp: RemoveShadowWorkload_def recorder_ok_defs Let_def vec_lawsD
      intro!: vec_ok_intros split: if_splits)

lemmas recorder_ok_ops =
  ObservedMeasurement_ok MeasurementSucceeded_ok SetReserved_ok ReservationUpdated_ok
  MeasurementFailed_ok RemoveShadowWorkload_ok

text \<open>Removal: the workload's series go, in every vector, and nobody else's.\<close>

lemma partial_match_common:
  assumes "length ls = 2 \<or> length ls = 3"
  shows "partial_match (take (length ls) [LabelNamespace, LabelName, LabelReason]) ls
           [(LabelNamespace, ns), (LabelName, n)] \<longleftrightarrow> take 2 ls = [ns, n]"
proof -
  obtain a b cs where "ls = a # b # cs" using assms by (cases ls; cases "tl ls") auto
  with assms show ?thesis by (cases cs) (auto simp: partial_match_def label_defs)
qed

lemma Remove_vec_series:
  assumes V: "vec_laws V" and v: "vec_ok V ks v"
    and ks: "ks = [LabelNamespace, LabelName] \<or> ks = [LabelNamespace, LabelName, LabelReason]"
  shows "v_series V (v_DeletePartialMatch V v [(LabelNamespace, ns), (LabelName, n)]) ls =
           (if take 2 ls = [ns, n] then None else v_series V v ls)"
proof (cases "v_series V v ls = None")
  case True
  then show ?thesis using V by (simp add: vec_lawsD)
next
  case False
  then have l: "length ls = length ks" "v_keys V v = ks" using v by (auto simp: vec_ok_def)
  then have "partial_match (v_keys V v) ls [(LabelNamespace, ns), (LabelName, n)] \<longleftrightarrow> take 2 ls = [ns, n]"
    using partial_match_common [of ls ns n] ks by auto
  then show ?thesis using V by (simp add: vec_lawsD)
qed

lemma RemoveShadowWorkload_series:
  assumes V: "vec_laws V" and rc: "recorder_ok V rc"
  shows "map_option (\<lambda>rc. map (v_series V) (collected_vecs rc)) (RemoveShadowWorkload V (Some rc) ns n) =
    Some (map (\<lambda>v ls. if take 2 ls = [ns, n] then None else v_series V v ls) (collected_vecs rc))"
proof -
  note * = Remove_vec_series [OF V _ disjI1 [OF refl]] Remove_vec_series [OF V _ disjI2 [OF refl]]
  have "vec_ok V [LabelNamespace, LabelName] v" if "v \<in> set (gaugeVecs rc @ [reservationUpdate rc])" for v
    using rc that by (auto simp: recorder_ok_def)
  moreover have "vec_ok V [LabelNamespace, LabelName, LabelReason] (measurementFail rc)"
    using rc by (simp add: recorder_ok_def)
  ultimately show ?thesis
    by (simp add: RemoveShadowWorkload_def collected_vecs_def gaugeVecs_def
        counterVecs_def Let_def fun_eq_iff *)
qed

end
