(* ===== verification/Reconciler.thy ===== *)
theory Reconciler
  imports Measured_Pair Node_Gate Metrics_Recorder
begin

text \<open>
  Model of \<open>internal/controller/shadowworkload_controller.go\<close>: one pass of the reconciler as
  explicit state passing.  The cluster is a parameter: every request the code makes is a
  field of \<open>cluster\<close>, a function from the state of the world to an answer and a new state,
  so nothing is assumed of what happens between two requests.  The pass keeps a trace of its
  requests and of the answers that matter.  Logging is left out.
\<close>

section \<open>The cluster as the code sees it\<close>

datatype api_error = NotFound | AlreadyExists | Conflict | OtherError string

text \<open>The two readers: the manager's cached client and the uncached \<open>APIReader\<close>.\<close>

datatype reader = Cached | Uncached

text \<open>Event types.\<close>

definition EventTypeNormal :: string where "EventTypeNormal = ''Normal''"

definition EventTypeWarning :: string where "EventTypeWarning = ''Warning''"

type_synonym 'w querier = "Queries \<Rightarrow> 'w \<Rightarrow> (qerror + f64 \<times> f64 \<times> bool) \<times> 'w"

record delete_options =
  do_GracePeriodSeconds :: int
  do_UID :: string

record ('q, 'w) cluster =
  has_APIReader :: bool
  api_GetShadowWorkload :: "string \<Rightarrow> string \<Rightarrow> 'w \<Rightarrow> (api_error + 'q ShadowWorkload) \<times> 'w"
  api_GetNode :: "reader \<Rightarrow> string \<Rightarrow> 'w \<Rightarrow> (api_error + node) \<times> 'w"
  api_GetPriorityClass :: "reader \<Rightarrow> string \<Rightarrow> 'w \<Rightarrow> (api_error + unit) \<times> 'w"
  api_GetPod :: "reader \<Rightarrow> string \<Rightarrow> string \<Rightarrow> 'w \<Rightarrow> (api_error + 'q pod) \<times> 'w"
  api_CreatePod :: "'q pod \<Rightarrow> 'w \<Rightarrow> (api_error + 'q pod) \<times> 'w"
  api_DeletePod :: "'q pod \<Rightarrow> delete_options \<Rightarrow> 'w \<Rightarrow> api_error option \<times> 'w"
  api_PatchResize :: "'q pod \<Rightarrow> 'q pod \<Rightarrow> 'w \<Rightarrow> (api_error + 'q pod) \<times> 'w"
  api_PatchStatus :: "'q ShadowWorkload \<Rightarrow> 'q ShadowWorkload \<Rightarrow> 'w \<Rightarrow> api_error option \<times> 'w"
  api_Event :: "string \<Rightarrow> string \<Rightarrow> 'q msg \<Rightarrow> 'w \<Rightarrow> 'w"
  time_Now :: "'w \<Rightarrow> gotime \<times> 'w"
  QuerierFor :: "string \<Rightarrow> string + 'w querier"

text \<open>The requests of a pass, with the answers.\<close>

datatype 'q api_call =
  CGetNode string "api_error + node"
| CGetPriorityClass "api_error + unit"
| CGetPod reader string string "api_error + 'q pod"
| CCreatePod "'q pod" "api_error + 'q pod"
| CDeletePod "'q pod" delete_options "api_error option"
| CPatchResize "'q pod" "'q pod" "api_error + 'q pod"
| CPatchStatus "'q ShadowWorkload" "'q ShadowWorkload" "api_error option"
| CEvent string string "'q msg"
| CQueryPair Queries "qerror + f64 \<times> f64 \<times> bool"

section \<open>The state of a pass\<close>

text \<open>
  The local variables of \<open>Reconcile\<close> that its closures change, the recorder, the world and
  the trace, newest request first.
\<close>

record ('q, 'v, 'w) pass =
  ps_sw :: "'q ShadowWorkload"
  ps_degradedReason :: string
  ps_degradedMsg :: "'q msg"
  ps_readyReason :: string
  ps_metrics :: "'v Recorder option"
  ps_trace :: "'q api_call list"
  ps_world :: 'w

definition setReady :: "string \<Rightarrow> ('q, 'v, 'w) pass \<Rightarrow> ('q, 'v, 'w) pass" where
  "setReady reason p = p\<lparr>ps_readyReason := reason\<rparr>"

definition setDegraded :: "string \<Rightarrow> 'q msg \<Rightarrow> ('q, 'v, 'w) pass \<Rightarrow> ('q, 'v, 'w) pass" where
  "setDegraded reason m p =
     (if ps_degradedReason p = [] then p\<lparr>ps_degradedReason := reason, ps_degradedMsg := m\<rparr>
      else p)"

text \<open>One request: run it on the world and log it.\<close>

definition request ::
  "('w \<Rightarrow> 'a \<times> 'w) \<Rightarrow> ('a \<Rightarrow> 'q api_call) \<Rightarrow> ('q, 'v, 'w) pass \<Rightarrow> 'a \<times> ('q, 'v, 'w) pass" where
  "request f ev p =
     (let (a, w) = f (ps_world p)
      in (a, p\<lparr>ps_world := w, ps_trace := ev a # ps_trace p\<rparr>))"

definition Eventf ::
  "('q, 'w) cluster \<Rightarrow> string \<Rightarrow> string \<Rightarrow> 'q msg \<Rightarrow> ('q, 'v, 'w) pass \<Rightarrow> ('q, 'v, 'w) pass" where
  "Eventf E ty reason m p =
     p\<lparr>ps_world := api_Event E ty reason m (ps_world p),
       ps_trace := CEvent ty reason m # ps_trace p\<rparr>"

definition timeNow :: "('q, 'w) cluster \<Rightarrow> ('q, 'v, 'w) pass \<Rightarrow> gotime \<times> ('q, 'v, 'w) pass" where
  "timeNow E p = (let (t, w) = time_Now E (ps_world p) in (t, p\<lparr>ps_world := w\<rparr>))"

definition with_metrics ::
  "('v Recorder option \<Rightarrow> 'v Recorder option) \<Rightarrow> ('q, 'v, 'w) pass \<Rightarrow> ('q, 'v, 'w) pass" where
  "with_metrics f p = p\<lparr>ps_metrics := f (ps_metrics p)\<rparr>"

definition with_status ::
  "('q ShadowWorkloadStatus \<Rightarrow> 'q ShadowWorkloadStatus) \<Rightarrow> ('q, 'v, 'w) pass \<Rightarrow> ('q, 'v, 'w) pass" where
  "with_status f p = p\<lparr>ps_sw := (ps_sw p)\<lparr>sw_Status := f (sw_Status (ps_sw p))\<rparr>\<rparr>"

section \<open>Reasons\<close>

definition conditionReady :: string where "conditionReady = ''Ready''"
definition conditionDegraded :: string where "conditionDegraded = ''Degraded''"
definition reasonWithinThreshold :: string where "reasonWithinThreshold = ''WithinThreshold''"
definition reasonPhantomCreated :: string where "reasonPhantomCreated = ''PhantomCreated''"
definition reasonPhantomRecreating :: string where "reasonPhantomRecreating = ''PhantomRecreating''"
definition reasonResized :: string where "reasonResized = ''Resized''"
definition reasonNodeMissing :: string where "reasonNodeMissing = ''NodeMissing''"
definition reasonNodeNotReady :: string where "reasonNodeNotReady = ''NodeNotReady''"
definition reasonNodeTerminating :: string where "reasonNodeTerminating = ''NodeTerminating''"
definition reasonSourceInvalid :: string where "reasonSourceInvalid = ''SourceInvalid''"
definition reasonPrometheusUnavailable :: string where
  "reasonPrometheusUnavailable = ''PrometheusUnavailable''"
definition reasonCadvisorTargetUnavailable :: string where
  "reasonCadvisorTargetUnavailable = ''CadvisorTargetUnavailable''"
definition reasonPriorityClassMissing :: string where
  "reasonPriorityClassMissing = ''PriorityClassMissing''"
definition reasonResizeRejected :: string where "reasonResizeRejected = ''ResizeRejected''"
definition reasonPhantomConflict :: string where "reasonPhantomConflict = ''PhantomConflict''"
definition reasonAsExpected :: string where "reasonAsExpected = ''AsExpected''"

lemmas reason_defs =
  reasonWithinThreshold_def reasonPhantomCreated_def reasonPhantomRecreating_def
  reasonResized_def reasonNodeMissing_def reasonNodeNotReady_def reasonNodeTerminating_def
  reasonSourceInvalid_def reasonPrometheusUnavailable_def reasonCadvisorTargetUnavailable_def
  reasonPriorityClassMissing_def reasonResizeRejected_def reasonPhantomConflict_def
  reasonAsExpected_def

definition defaultPollInterval :: int where "defaultPollInterval = 30000000000"

definition pollInterval :: "'q ShadowWorkload \<Rightarrow> int" where
  "pollInterval sw =
     (case ParseDuration (up_PollInterval (spec_Update (sw_Spec sw))) of
        None \<Rightarrow> defaultPollInterval
      | Some d \<Rightarrow> if d \<le> 0 then defaultPollInterval else d)"

definition nodeConditionReason :: "string \<Rightarrow> string" where
  "nodeConditionReason eligibilityReason =
     (if eligibilityReason = NodeReasonTerminating then reasonNodeTerminating
      else if eligibilityReason = NodeReasonNotReady then reasonNodeNotReady
      else reasonNodeMissing)"

definition ownedBySw :: "'q lib \<Rightarrow> 'q pod \<Rightarrow> 'q ShadowWorkload \<Rightarrow> bool" where
  "ownedBySw L pod sw =
     (case k_GetControllerOf L pod of
        None \<Rightarrow> False
      | Some ref \<Rightarrow> or_Name ref = sw_Name sw \<and> or_UID ref = sw_UID sw \<and>
          or_Kind ref = ''ShadowWorkload'' \<and> or_APIVersion ref = GroupVersion)"

definition warnOnDegradedTransition ::
  "'q lib \<Rightarrow> ('q, 'w) cluster \<Rightarrow> string \<Rightarrow> 'q msg \<Rightarrow> ('q, 'v, 'w) pass \<Rightarrow> ('q, 'v, 'w) pass" where
  "warnOnDegradedTransition L E reason m p =
     (case k_FindStatusCondition L (st_Conditions (sw_Status (ps_sw p))) conditionDegraded of
        Some cur \<Rightarrow> (if cd_Reason cur = reason \<and> cd_Status cur = ''True'' then p
                     else Eventf E EventTypeWarning reason m p)
      | None \<Rightarrow> Eventf E EventTypeWarning reason m p)"

section \<open>Measuring\<close>

text \<open>The classification of a query error: metric reason, condition reason, texts.\<close>

definition classify :: "qerror \<Rightarrow> string \<times> string \<times> string \<times> string" where
  "classify qerr =
     (let unavailable = (reasonPrometheusUnavailable, ''metrics backend query failed'',
                         ''Metrics backend query failed (%s)'')
      in if errors_Is qerr ErrTargetUnavailable then
           (FailureTargetUnavailable, reasonCadvisorTargetUnavailable,
            ''pinned cAdvisor target is unavailable; keeping the last accepted reservation'',
            ''Pinned cAdvisor target unavailable (%s)'')
         else if errors_Is qerr ErrMultiSample then (FailureMultiSample, unavailable)
         else if errors_Is qerr ErrPartialSample then (FailurePartialSample, unavailable)
         else if errors_Is qerr ErrInvalidSample then (FailureInvalidSample, unavailable)
         else (FailurePrometheusUnavailable, unavailable))"

definition measurement_of ::
  "'q lib \<Rightarrow> 'q ShadowWorkload \<Rightarrow> gotime \<Rightarrow> f64 \<Rightarrow> f64 \<Rightarrow> bool \<Rightarrow> 'q MeasurementStatus" where
  "measurement_of L sw now cpu mem found =
     (let measured = MeasurementPairOf L cpu mem
      in \<lparr>ms_ObservedGeneration = sw_Generation sw, ms_Time = now, ms_CPU = rp_CPU measured,
          ms_Memory = rp_Memory measured, ms_SeriesFound = found\<rparr>)"

definition resolved_of :: "Description \<Rightarrow> ResolvedSourceStatus" where
  "resolved_of d =
     \<lparr>rs_Type = ds_Type d, rs_CgroupPath = ds_CgroupPath d, rs_CadvisorJob = ds_CadvisorJob d,
      rs_CadvisorInstance = ds_CadvisorInstance d\<rparr>"

text \<open>
  \<open>measure\<close>: the two output variables are the first component of the result; they start at
  zero and stay zero on every failure.
\<close>

definition measure_failed ::
  "'v vec_lib \<Rightarrow> string \<Rightarrow> string \<Rightarrow> 'q msg \<Rightarrow> ('q, 'v, 'w) pass \<Rightarrow> ('q, 'v, 'w) pass" where
  "measure_failed V failureReason reason m p =
     (let sw = ps_sw p;
          p = with_metrics (\<lambda>r. MeasurementFailed V r (sw_Namespace sw) (sw_Name sw) failureReason) p
      in setDegraded reason m p)"

definition measure ::
  "'q lib \<Rightarrow> 'v vec_lib \<Rightarrow> ('q, 'w) cluster \<Rightarrow> ('q, 'v, 'w) pass \<Rightarrow> (f64 \<times> f64) \<times> ('q, 'v, 'w) pass" where
  "measure L V E p =
     (let sw = ps_sw p
      in case Resolve (sw_Spec sw) of
           Inl _ \<Rightarrow>
             ((FFin 0, FFin 0),
              measure_failed V FailureSourceMissing reasonSourceInvalid
                (''source configuration is invalid'', []) p)
         | Inr queries \<Rightarrow>
             (let description = Describe (sw_Spec sw)
              in case QuerierFor E (mc_PrometheusURL (spec_Metrics (sw_Spec sw))) of
                   Inl _ \<Rightarrow>
                     ((FFin 0, FFin 0),
                      measure_failed V FailureSourceMissing reasonSourceInvalid
                        (''metrics backend configuration is invalid'', []) p)
                 | Inr querier \<Rightarrow>
                     (case request (querier queries) (CQueryPair queries) p of
                        (Inl qerr, p) \<Rightarrow>
                          (let (failureReason, reason, m, event) = classify qerr;
                               p = measure_failed V failureReason reason (m, []) p
                           in ((FFin 0, FFin 0),
                               Eventf E EventTypeWarning reason (event, [AStr failureReason]) p))
                      | (Inr (cpu, mem, found), p) \<Rightarrow>
                          (let p = with_metrics (\<lambda>r.
                                     ObservedMeasurement V r (sw_Namespace sw) (sw_Name sw) cpu mem) p;
                               (now, p) = timeNow E p;
                               p = with_metrics (\<lambda>r.
                                     MeasurementSucceeded V r (sw_Namespace sw) (sw_Name sw) now) p;
                               p = with_status (\<lambda>st.
                                     st\<lparr>st_LastMeasurement :=
                                          Some (measurement_of L sw now cpu mem found),
                                        st_ResolvedSource := Some (resolved_of description)\<rparr>) p
                           in ((cpu, mem), p)))))"

section \<open>Resizing\<close>

text \<open>
  \<open>resizePhantom\<close>: the patch is computed between the observed pod and its copy with new
  requests and limits in every container, with an optimistic lock.
\<close>

definition resized_pod :: "'q pod \<Rightarrow> 'q ResourcePair \<Rightarrow> 'q pod" where
  "resized_pod pod desired =
     (let resources = resource_list desired
      in pod\<lparr>pod_Containers :=
               map (\<lambda>c. c\<lparr>ct_Requests := resources, ct_Limits := resources\<rparr>) (pod_Containers pod)\<rparr>)"

definition resizePhantom ::
  "('q, 'w) cluster \<Rightarrow> 'q pod \<Rightarrow> 'q ResourcePair \<Rightarrow> ('q, 'v, 'w) pass \<Rightarrow>
   (api_error + 'q pod) \<times> ('q, 'v, 'w) pass" where
  "resizePhantom E pod desired p =
     (let resized = resized_pod pod desired
      in request (api_PatchResize E pod resized) (CPatchResize pod resized) p)"

definition resizeIfDrifting ::
  "'q lib \<Rightarrow> 'v vec_lib \<Rightarrow> ('q, 'w) cluster \<Rightarrow> 'q pod \<Rightarrow> string \<Rightarrow> 'q ResourcePair \<Rightarrow> bool \<Rightarrow>
   ('q, 'v, 'w) pass \<Rightarrow> 'q pod \<times> ('q, 'v, 'w) pass" where
  "resizeIfDrifting L V E pod name desired healthy p =
     (let sw = ps_sw p; current = CurrentPairOf L pod
      in if healthy \<and>
            DriftExceeds L current desired (up_DeltaThresholdPercent (spec_Update (sw_Spec sw))) then
           (case resizePhantom E pod desired p of
              (Inl _, p) \<Rightarrow>
                (let p = with_metrics (\<lambda>r.
                           MeasurementFailed V r (sw_Namespace sw) (sw_Name sw) FailureResizeRejected) p;
                     p = setDegraded reasonResizeRejected
                           (''in-place resize of %s was rejected'', [AStr name]) p;
                     p = Eventf E EventTypeWarning reasonResizeRejected
                           (''In-place resize of Pod %s was rejected; keeping previous requests (desired cpu=%s memory=%s)'',
                            [AStr name, AQty (rp_CPU desired), AQty (rp_Memory desired)]) p
                 in (pod, p))
            | (Inr pod', p) \<Rightarrow>
                (let p = Eventf E EventTypeNormal reasonResized
                           (''Resized Pod %s: cpu %s -> %s, memory %s -> %s'',
                            [AStr name, AQty (rp_CPU current), AQty (rp_CPU desired),
                             AQty (rp_Memory current), AQty (rp_Memory desired)]) p;
                     (now, p) = timeNow E p;
                     p = with_status (\<lambda>st.
                           st\<lparr>st_LastResize := now, st_CurrentCPU := rp_CPU desired,
                              st_CurrentMemory := rp_Memory desired\<rparr>) p;
                     p = with_metrics (\<lambda>r. ReservationUpdated V r (sw_Namespace sw) (sw_Name sw)) p
                 in (pod', setReady reasonResized p)))
         else (pod, if healthy then setReady reasonWithinThreshold p else p))"

section \<open>Creating and recovering\<close>

text \<open>
  Errors that end the pass.  An answer of the helpers below is a requeue delay in
  nanoseconds, zero for none, and what the caller needs beside it.
\<close>

datatype reconcile_error =
  GetShadowWorkloadFailed api_error
| GetNodeFailed api_error
| GetPriorityClassFailed api_error
| GetPodFailed api_error
| BuildPodFailed string
| CreatePodFailed api_error
| ReadExistingPodFailed api_error
| DeletePodFailed api_error
| PatchStatusFailed api_error

definition apiReader :: "('q, 'w) cluster \<Rightarrow> reader" where
  "apiReader E = (if has_APIReader E then Uncached else Cached)"

definition delete_observed :: "'q pod \<Rightarrow> delete_options" where
  "delete_observed pod = \<lparr>do_GracePeriodSeconds = 0, do_UID = pod_UID pod\<rparr>"

definition resolveCreateConflict ::
  "'q lib \<Rightarrow> ('q, 'w) cluster \<Rightarrow> string \<Rightarrow> int \<Rightarrow> ('q, 'v, 'w) pass \<Rightarrow>
   (reconcile_error + bool \<times> int) \<times> ('q, 'v, 'w) pass" where
  "resolveCreateConflict L E name poll p =
     (let sw = ps_sw p
      in case request (api_GetPod E (apiReader E) (sw_Namespace sw) name)
                (CGetPod (apiReader E) (sw_Namespace sw) name) p of
           (Inl gerr, p) \<Rightarrow>
             (if gerr \<noteq> NotFound then (Inl (ReadExistingPodFailed gerr), p)
              else (Inr (False, poll), p))
         | (Inr live, p) \<Rightarrow>
             (if \<not> ownedBySw L live sw then (Inr (True, 0), p)
              else
                (case request (api_DeletePod E live (delete_observed live))
                        (CDeletePod live (delete_observed live)) p of
                   (derr, p) \<Rightarrow>
                     (if derr \<noteq> None \<and> derr \<noteq> Some NotFound then
                        (if derr = Some Conflict then (Inr (False, 1), p)
                         else (Inl (DeletePodFailed (the derr)), p))
                      else
                        (Inr (False, poll),
                         Eventf E EventTypeNormal reasonPhantomRecreating
                           (''Deleted owned phantom Pod %s after its management labels changed; canonical recreation pending'',
                            [AStr name]) p)))))"

text \<open>The result: the created pod when there is one to observe, and the requeue delay.\<close>

definition createOrRecoverPhantom ::
  "'q lib \<Rightarrow> 'v vec_lib \<Rightarrow> ('q, 'w) cluster \<Rightarrow> string \<Rightarrow> 'q ResourcePair \<Rightarrow> int \<Rightarrow>
   ('q, 'v, 'w) pass \<Rightarrow> (reconcile_error + 'q pod option \<times> int) \<times> ('q, 'v, 'w) pass" where
  "createOrRecoverPhantom L V E name desired poll p =
     (let sw = ps_sw p
      in case BuildPhantomPod L sw desired of
           Inl berr \<Rightarrow> (Inl (BuildPodFailed berr), p)
         | Inr fresh \<Rightarrow>
             (case request (api_CreatePod E fresh) (CCreatePod fresh) p of
                (Inl cerr, p) \<Rightarrow>
                  (if cerr \<noteq> AlreadyExists then (Inl (CreatePodFailed cerr), p)
                   else
                     (case resolveCreateConflict L E name poll p of
                        (Inl e, p) \<Rightarrow> (Inl e, p)
                      | (Inr (conflict, res), p) \<Rightarrow>
                          (if 0 < res then (Inr (None, res), p)
                           else if conflict then
                             (let m = (''pod %s exists without the managed-by label or controller owner reference; refusing to manage it'',
                                       [AStr name]);
                                  p = setDegraded reasonPhantomConflict m p;
                                  p = warnOnDegradedTransition L E reasonPhantomConflict m p
                              in (Inr (None, 0), p))
                           else (Inr (None, res), p))))
              | (Inr created, p) \<Rightarrow>
                  (let p = Eventf E EventTypeNormal reasonPhantomCreated
                             (''Created phantom Pod %s on node %q (cpu=%s memory=%s)'',
                              [AStr name, AQuote (spec_Node (sw_Spec sw)), AQty (rp_CPU desired),
                               AQty (rp_Memory desired)]) p;
                       p = with_metrics (\<lambda>r. ReservationUpdated V r (sw_Namespace sw) (sw_Name sw)) p
                   in (Inr (Some created, 0), setReady reasonPhantomCreated p))))"

section \<open>Reconcile\<close>

text \<open>
  The function in the order of the source: the gate on the node (lines 160-186), the gate on
  the priority class (188-202), the management of the phantom (213-259), the status
  (265-294), and the whole pass.
\<close>

definition gate_node ::
  "'q lib \<Rightarrow> ('q, 'w) cluster \<Rightarrow> ('q, 'v, 'w) pass \<Rightarrow>
   (reconcile_error + bool) \<times> ('q, 'v, 'w) pass" where
  "gate_node L E p =
     (let target = spec_Node (sw_Spec (ps_sw p))
      in case request (api_GetNode E (apiReader E) target) (CGetNode target) p of
           (Inr nd, p) \<Rightarrow>
             (let (ok, why) = NodeEligible (Some nd)
              in if ok then (Inr True, p)
                 else
                   (let reason = nodeConditionReason why;
                        m = NodeEligibilityError target why;
                        p = setDegraded reason m p
                    in (Inr False, warnOnDegradedTransition L E reason m p)))
         | (Inl nodeErr, p) \<Rightarrow>
             (if nodeErr = NotFound then
                (let m = NodeEligibilityError target NodeReasonMissing;
                     p = setDegraded reasonNodeMissing m p
                 in (Inr False, warnOnDegradedTransition L E reasonNodeMissing m p))
              else (Inl (GetNodeFailed nodeErr), p)))"

definition gate_priority_class ::
  "'q lib \<Rightarrow> ('q, 'w) cluster \<Rightarrow> bool \<Rightarrow> ('q, 'v, 'w) pass \<Rightarrow>
   (reconcile_error + bool) \<times> ('q, 'v, 'w) pass" where
  "gate_priority_class L E nodeEligible p =
     (if \<not> nodeEligible then (Inr False, p)
      else
        (case request (api_GetPriorityClass E (apiReader E) BallastPriorityClassName)
                CGetPriorityClass p of
           (Inr _, p) \<Rightarrow> (Inr True, p)
         | (Inl priorityErr, p) \<Rightarrow>
             (if priorityErr = NotFound then
                (let m = (''required PriorityClass %q is missing; keeping the last accepted reservation'',
                          [AQuote BallastPriorityClassName]);
                     p = setDegraded reasonPriorityClassMissing m p
                 in (Inr False, warnOnDegradedTransition L E reasonPriorityClassMissing m p))
              else (Inl (GetPriorityClassFailed priorityErr), p))))"

text \<open>
  What management tells the rest of the pass: an early return with a requeue delay, or the
  observed pod, if any, and whether to requeue immediately.
\<close>

datatype 'q managed = Return int | Continue "'q pod option" bool

definition manage_phantom ::
  "'q lib \<Rightarrow> 'v vec_lib \<Rightarrow> ('q, 'w) cluster \<Rightarrow> 'q ResourcePair \<Rightarrow> int \<Rightarrow> ('q, 'v, 'w) pass \<Rightarrow>
   (reconcile_error + 'q managed) \<times> ('q, 'v, 'w) pass" where
  "manage_phantom L V E desired poll p =
     (let sw = ps_sw p; name = PhantomName (sw_Name sw)
      in case request (api_GetPod E Cached (sw_Namespace sw) name)
                (CGetPod Cached (sw_Namespace sw) name) p of
           (Inl err, p) \<Rightarrow>
             (if err = NotFound then
                (case createOrRecoverPhantom L V E name desired poll p of
                   (Inl cerr, p) \<Rightarrow> (Inl cerr, p)
                 | (Inr (created, res), p) \<Rightarrow>
                     (if 0 < res then (Inr (Return res), p) else (Inr (Continue created False), p)))
              else (Inl (GetPodFailed err), p))
         | (Inr pod, p) \<Rightarrow>
             (if \<not> ownedBySw L pod sw then
                (let m = (''pod %s exists but is not owned by this ShadowWorkload; refusing to manage it'',
                          [AStr name]);
                     p = setDegraded reasonPhantomConflict m p;
                     p = warnOnDegradedTransition L E reasonPhantomConflict m p
                 in (Inr (Continue None False), p))
              else if pod_NodeName pod \<noteq> spec_Node (sw_Spec sw) then
                (case request (api_DeletePod E pod (delete_observed pod))
                        (CDeletePod pod (delete_observed pod)) p of
                   (derr, p) \<Rightarrow>
                     (if derr \<noteq> None \<and> derr \<noteq> Some NotFound then
                        (if derr = Some Conflict then (Inr (Return 1), p)
                         else (Inl (DeletePodFailed (the derr)), p))
                      else
                        (let p = Eventf E EventTypeNormal reasonPhantomRecreating
                                   (''Deleted phantom Pod %s; re-pinning from node %q to %q'',
                                    [AStr name, AQuote (pod_NodeName pod),
                                     AQuote (spec_Node (sw_Spec sw))]) p;
                             p = setDegraded reasonPhantomRecreating
                                   (''phantom pod %s was deleted for node re-pin; replacement is pending'',
                                    [AStr name]) p
                         in (Inr (Continue None True), p))))
              else
                (let (pod, p) = resizeIfDrifting L V E pod name desired (ps_degradedReason p = []) p
                 in (Inr (Continue (Some pod) False), p))))"

definition report_currents ::
  "'q lib \<Rightarrow> 'v vec_lib \<Rightarrow> 'q pod option \<Rightarrow> ('q, 'v, 'w) pass \<Rightarrow> ('q, 'v, 'w) pass" where
  "report_currents L V observed p =
     (case observed of
        None \<Rightarrow> p
      | Some pod \<Rightarrow>
          (let sw = ps_sw p;
               effective = CurrentPairOf L pod;
               p = with_status (\<lambda>st.
                     st\<lparr>st_PhantomPod := PhantomName (sw_Name sw),
                        st_CurrentCPU := rp_CPU effective,
                        st_CurrentMemory := rp_Memory effective\<rparr>) p
           in with_metrics (\<lambda>r.
                SetReserved V r (sw_Namespace sw) (sw_Name sw)
                  (q_AsApproximateFloat64 L (rp_CPU effective))
                  (q_AsApproximateFloat64 L (rp_Memory effective))) p))"

definition report_conditions :: "'q lib \<Rightarrow> ('q, 'v, 'w) pass \<Rightarrow> ('q, 'v, 'w) pass" where
  "report_conditions L p =
     (let sw = ps_sw p;
          set_condition = (\<lambda>ty status reason m.
            with_status (\<lambda>st.
              st\<lparr>st_Conditions := k_SetStatusCondition L (st_Conditions st)
                   \<lparr>cd_Type = ty, cd_Status = status, cd_ObservedGeneration = sw_Generation sw,
                    cd_Reason = reason, cd_Message = m\<rparr>\<rparr>))
      in if ps_degradedReason p \<noteq> [] then
           set_condition conditionDegraded ''True'' (ps_degradedReason p) (ps_degradedMsg p)
             (set_condition conditionReady ''False'' (ps_degradedReason p) (ps_degradedMsg p) p)
         else
           set_condition conditionDegraded ''False'' reasonAsExpected
             (''phantom tracking nominal'', [])
             (set_condition conditionReady ''True'' (ps_readyReason p)
               (''tracking node %q at cpu=%s memory=%s'',
                [AQuote (spec_Node (sw_Spec sw)), AQty (st_CurrentCPU (sw_Status sw)),
                 AQty (st_CurrentMemory (sw_Status sw))]) p))"

text \<open>
  The pass on a workload that was read.  The base of the status patch is the workload as
  read.  The result is an error or the requeue delay.
\<close>

definition reconcile_workload ::
  "'q lib \<Rightarrow> 'v vec_lib \<Rightarrow> ('q, 'w) cluster \<Rightarrow> ('q, 'v, 'w) pass \<Rightarrow>
   (reconcile_error + int) \<times> ('q, 'v, 'w) pass" where
  "reconcile_workload L V E p0 =
     (let statusBase = ps_sw p0; poll = pollInterval (ps_sw p0); policy = spec_Update (sw_Spec (ps_sw p0))
      in case gate_node L E p0 of
           (Inl e, p) \<Rightarrow> (Inl e, p)
         | (Inr nodeEligible, p) \<Rightarrow>
             (case gate_priority_class L E nodeEligible p of
                (Inl e, p) \<Rightarrow> (Inl e, p)
              | (Inr prerequisitesReady, p) \<Rightarrow>
                  (let ((cpu, mem), p) =
                         (if prerequisitesReady then measure L V E p else ((FFin 0, FFin 0), p));
                       desired = Clamp L (PairOf L cpu mem) (up_Floor policy) (up_Ceiling policy)
                   in case (if prerequisitesReady then manage_phantom L V E desired poll p
                            else (Inr (Continue None False), p)) of
                        (Inl e, p) \<Rightarrow> (Inl e, p)
                      | (Inr (Return n), p) \<Rightarrow> (Inr n, p)
                      | (Inr (Continue observed requeueImmediately), p) \<Rightarrow>
                          (let p = report_conditions L (report_currents L V observed p)
                           in case request (api_PatchStatus E statusBase (ps_sw p))
                                     (CPatchStatus statusBase (ps_sw p)) p of
                                (Some perr, p) \<Rightarrow> (Inl (PatchStatusFailed perr), p)
                              | (None, p) \<Rightarrow> (Inr (if requeueImmediately then 1 else poll), p)))))"

definition initial_pass :: "'q ShadowWorkload \<Rightarrow> 'v Recorder option \<Rightarrow> 'w \<Rightarrow> ('q, 'v, 'w) pass" where
  "initial_pass sw r w =
     \<lparr>ps_sw = sw, ps_degradedReason = [], ps_degradedMsg = ([], []),
      ps_readyReason = reasonWithinThreshold, ps_metrics = r, ps_trace = [], ps_world = w\<rparr>"

text \<open>
  \<open>Reconcile\<close>: a workload that is gone loses its series and ends the pass without an error.
  The result carries the recorder and the trace beside the outcome.
\<close>

definition Reconcile ::
  "'q lib \<Rightarrow> 'v vec_lib \<Rightarrow> ('q, 'w) cluster \<Rightarrow> string \<Rightarrow> string \<Rightarrow> 'v Recorder option \<Rightarrow> 'w \<Rightarrow>
   (reconcile_error + int) \<times> 'v Recorder option \<times> 'q api_call list \<times> 'w" where
  "Reconcile L V E namespace name r w =
     (case api_GetShadowWorkload E namespace name w of
        (Inl err, w) \<Rightarrow>
          (if err = NotFound then (Inr 0, RemoveShadowWorkload V r namespace name, [], w)
           else (Inl (GetShadowWorkloadFailed err), r, [], w))
      | (Inr sw, w) \<Rightarrow>
          (let (res, p) = reconcile_workload L V E (initial_pass sw r w)
           in (res, ps_metrics p, ps_trace p, ps_world p)))"

end
