(* ===== verification/Reconciler_Safety.thy ===== *)
theory Reconciler_Safety
  imports Reconciler
begin

text \<open>
  What one pass of the reconciler may do, for every cluster: a predicate on each request in
  terms of the requests before it, its preservation by every step, and the snapshot kept in
  the status.
\<close>

section \<open>Steps and their frames\<close>

lemma setDegraded_frame [simp]:
  "ps_sw (setDegraded r m p) = ps_sw p" "ps_trace (setDegraded r m p) = ps_trace p"
  "ps_metrics (setDegraded r m p) = ps_metrics p" "ps_world (setDegraded r m p) = ps_world p"
  "ps_readyReason (setDegraded r m p) = ps_readyReason p"
  by (simp_all add: setDegraded_def)

lemma setDegraded_reason [simp]:
  "ps_degradedReason (setDegraded r m p) = (if ps_degradedReason p = [] then r else ps_degradedReason p)"
  by (simp add: setDegraded_def)

lemma setReady_frame [simp]:
  "ps_sw (setReady r p) = ps_sw p" "ps_trace (setReady r p) = ps_trace p"
  "ps_metrics (setReady r p) = ps_metrics p" "ps_world (setReady r p) = ps_world p"
  "ps_degradedReason (setReady r p) = ps_degradedReason p"
  "ps_degradedMsg (setReady r p) = ps_degradedMsg p" "ps_readyReason (setReady r p) = r"
  by (simp_all add: setReady_def)

lemma Eventf_frame [simp]:
  "ps_sw (Eventf E ty r m p) = ps_sw p" "ps_metrics (Eventf E ty r m p) = ps_metrics p"
  "ps_degradedReason (Eventf E ty r m p) = ps_degradedReason p"
  "ps_degradedMsg (Eventf E ty r m p) = ps_degradedMsg p"
  "ps_readyReason (Eventf E ty r m p) = ps_readyReason p"
  "ps_trace (Eventf E ty r m p) = CEvent ty r m # ps_trace p"
  by (simp_all add: Eventf_def)

lemma with_metrics_frame [simp]:
  "ps_sw (with_metrics f p) = ps_sw p" "ps_trace (with_metrics f p) = ps_trace p"
  "ps_degradedReason (with_metrics f p) = ps_degradedReason p"
  "ps_degradedMsg (with_metrics f p) = ps_degradedMsg p"
  "ps_readyReason (with_metrics f p) = ps_readyReason p" "ps_world (with_metrics f p) = ps_world p"
  "ps_metrics (with_metrics f p) = f (ps_metrics p)"
  by (simp_all add: with_metrics_def)

lemma with_status_frame [simp]:
  "ps_trace (with_status f p) = ps_trace p" "ps_metrics (with_status f p) = ps_metrics p"
  "ps_degradedReason (with_status f p) = ps_degradedReason p"
  "ps_degradedMsg (with_status f p) = ps_degradedMsg p"
  "ps_readyReason (with_status f p) = ps_readyReason p" "ps_world (with_status f p) = ps_world p"
  "ps_sw (with_status f p) = (ps_sw p)\<lparr>sw_Status := f (sw_Status (ps_sw p))\<rparr>"
  by (simp_all add: with_status_def)

lemma timeNow_eq:
  "timeNow E p = (fst (time_Now E (ps_world p)), p\<lparr>ps_world := snd (time_Now E (ps_world p))\<rparr>)"
  by (simp add: timeNow_def split: prod.split)

lemma request_eq:
  "request f ev p = (fst (f (ps_world p)),
     p\<lparr>ps_world := snd (f (ps_world p)), ps_trace := ev (fst (f (ps_world p))) # ps_trace p\<rparr>)"
  by (simp add: request_def split: prod.split)

lemma warn_frame [simp]:
  "ps_sw (warnOnDegradedTransition L E r m p) = ps_sw p"
  "ps_metrics (warnOnDegradedTransition L E r m p) = ps_metrics p"
  "ps_degradedReason (warnOnDegradedTransition L E r m p) = ps_degradedReason p"
  "ps_degradedMsg (warnOnDegradedTransition L E r m p) = ps_degradedMsg p"
  "ps_readyReason (warnOnDegradedTransition L E r m p) = ps_readyReason p"
  by (simp_all add: warnOnDegradedTransition_def split: option.split)

section \<open>The predicate on requests\<close>

definition same_object :: "'q ShadowWorkload \<Rightarrow> 'q ShadowWorkload \<Rightarrow> bool" where
  "same_object sw sw' \<longleftrightarrow> sw' = sw\<lparr>sw_Status := sw_Status sw'\<rparr>"

lemma same_objectD:
  assumes "same_object sw sw'"
  shows "sw_Name sw' = sw_Name sw" "sw_Namespace sw' = sw_Namespace sw" "sw_UID sw' = sw_UID sw"
    "sw_Spec sw' = sw_Spec sw" "sw_Generation sw' = sw_Generation sw"
  using assms by (cases sw; cases sw'; simp add: same_object_def)+

lemma same_object_refl [simp]: "same_object sw sw"
  by (simp add: same_object_def)

lemma same_object_status [simp]: "same_object sw (sw'\<lparr>sw_Status := s\<rparr>) \<longleftrightarrow> same_object sw sw'"
  by (cases sw; cases sw') (auto simp: same_object_def)

text \<open>The pair a pass has measured, read off its trace.\<close>

fun measured_in :: "'q api_call list \<Rightarrow> (f64 \<times> f64 \<times> bool) option" where
  "measured_in [] = None"
| "measured_in (CQueryPair q (Inr r) # t) = Some r"
| "measured_in (_ # t) = measured_in t"

definition desired_of :: "'q lib \<Rightarrow> 'q ShadowWorkload \<Rightarrow> 'q api_call list \<Rightarrow> 'q ResourcePair" where
  "desired_of L sw t =
     Clamp L (case measured_in t of
                Some (cpu, mem, _) \<Rightarrow> PairOf L cpu mem
              | None \<Rightarrow> PairOf L (FFin 0) (FFin 0))
       (up_Floor (spec_Update (sw_Spec sw))) (up_Ceiling (spec_Update (sw_Spec sw)))"

text \<open>The gates: the target node was read as eligible and the priority class exists.\<close>

definition gates_passed :: "'q ShadowWorkload \<Rightarrow> 'q api_call list \<Rightarrow> bool" where
  "gates_passed sw t \<longleftrightarrow>
     (\<exists>nd. CGetNode (spec_Node (sw_Spec sw)) (Inr nd) \<in> set t \<and> fst (NodeEligible (Some nd))) \<and>
     CGetPriorityClass (Inr ()) \<in> set t"

definition pod_read :: "'q ShadowWorkload \<Rightarrow> reader \<Rightarrow> (api_error + 'q pod) \<Rightarrow> 'q api_call list \<Rightarrow> bool" where
  "pod_read sw rd a t \<longleftrightarrow> CGetPod rd (sw_Namespace sw) (PhantomName (sw_Name sw)) a \<in> set t"

fun call_ok :: "'q lib \<Rightarrow> 'q ShadowWorkload \<Rightarrow> 'q api_call list \<Rightarrow> 'q api_call \<Rightarrow> bool" where
  "call_ok L sw t (CQueryPair q a) \<longleftrightarrow>
     gates_passed sw t \<and> Resolve (sw_Spec sw) = Inr q \<and> measured_in t = None"
| "call_ok L sw t (CCreatePod pod a) \<longleftrightarrow>
     gates_passed sw t \<and> pod_read sw Cached (Inl NotFound) t \<and>
     (\<exists>sw'. same_object sw sw' \<and> BuildPhantomPod L sw' (desired_of L sw t) = Inr pod)"
| "call_ok L sw t (CDeletePod pod opts a) \<longleftrightarrow>
     gates_passed sw t \<and> ownedBySw L pod sw \<and> opts = delete_observed pod \<and>
     (\<exists>rd. pod_read sw rd (Inr pod) t)"
| "call_ok L sw t (CPatchResize base new a) \<longleftrightarrow>
     gates_passed sw t \<and> ownedBySw L base sw \<and> pod_read sw Cached (Inr base) t \<and>
     pod_NodeName base = spec_Node (sw_Spec sw) \<and> measured_in t \<noteq> None \<and>
     DriftExceeds L (CurrentPairOf L base) (desired_of L sw t)
       (up_DeltaThresholdPercent (spec_Update (sw_Spec sw))) \<and>
     new = resized_pod base (desired_of L sw t)"
| "call_ok L sw t (CPatchStatus base new a) \<longleftrightarrow> False"
| "call_ok L sw t _ \<longleftrightarrow> True"

fun trace_ok :: "'q lib \<Rightarrow> 'q ShadowWorkload \<Rightarrow> 'q api_call list \<Rightarrow> bool" where
  "trace_ok L sw [] \<longleftrightarrow> True"
| "trace_ok L sw (c # t) \<longleftrightarrow> call_ok L sw t c \<and> trace_ok L sw t"

lemma trace_ok_split: "trace_ok L sw (u @ c # t) \<Longrightarrow> call_ok L sw t c"
  by (induction u) auto

text \<open>
  What the status says before the report at the end of the pass, against the workload as
  read: measurement and resolved source have advanced together or not at all, the current
  requests moved only with an accepted resize, the rest is untouched.
\<close>

fun resized_in :: "'q api_call list \<Rightarrow> 'q pod option" where
  "resized_in [] = None"
| "resized_in (CPatchResize base new (Inr pod) # t) = Some pod"
| "resized_in (_ # t) = resized_in t"

definition snapshot_ok ::
  "'q lib \<Rightarrow> 'q ShadowWorkload \<Rightarrow> (f64 \<times> f64 \<times> bool) option \<Rightarrow> 'q ShadowWorkloadStatus \<Rightarrow> bool" where
  "snapshot_ok L sw m st \<longleftrightarrow>
     (case m of
        None \<Rightarrow> st_LastMeasurement st = st_LastMeasurement (sw_Status sw) \<and>
                st_ResolvedSource st = st_ResolvedSource (sw_Status sw)
      | Some (cpu, mem, found) \<Rightarrow>
          (\<exists>now. st_LastMeasurement st = Some (measurement_of L sw now cpu mem found)) \<and>
          st_ResolvedSource st = Some (resolved_of (Describe (sw_Spec sw))))"

definition currents_ok ::
  "'q ShadowWorkload \<Rightarrow> 'q pod option \<Rightarrow> 'q ShadowWorkloadStatus \<Rightarrow> bool" where
  "currents_ok sw r st \<longleftrightarrow>
     st_PhantomPod st = st_PhantomPod (sw_Status sw) \<and>
     st_Conditions st = st_Conditions (sw_Status sw) \<and>
     (r = None \<longrightarrow> st_CurrentCPU st = st_CurrentCPU (sw_Status sw) \<and>
        st_CurrentMemory st = st_CurrentMemory (sw_Status sw) \<and>
        st_LastResize st = st_LastResize (sw_Status sw))"

text \<open>The reasons a pass can report, closed enumerations.\<close>

definition degraded_reasons :: "string list" where
  "degraded_reasons =
     [reasonNodeMissing, reasonNodeNotReady, reasonNodeTerminating, reasonPriorityClassMissing,
      reasonSourceInvalid, reasonPrometheusUnavailable, reasonCadvisorTargetUnavailable,
      reasonResizeRejected, reasonPhantomConflict, reasonPhantomRecreating]"

definition ready_reasons :: "string list" where
  "ready_reasons = [reasonWithinThreshold, reasonPhantomCreated, reasonResized]"

definition reasons_ok :: "('q, 'v, 'w) pass \<Rightarrow> bool" where
  "reasons_ok p \<longleftrightarrow>
     (ps_degradedReason p = [] \<or> ps_degradedReason p \<in> set degraded_reasons) \<and>
     ps_readyReason p \<in> set ready_reasons"

lemma degraded_reasons_mem [simp]:
  "reasonNodeMissing \<in> set degraded_reasons" "reasonPriorityClassMissing \<in> set degraded_reasons"
  "reasonSourceInvalid \<in> set degraded_reasons" "reasonPrometheusUnavailable \<in> set degraded_reasons"
  "reasonCadvisorTargetUnavailable \<in> set degraded_reasons"
  "reasonResizeRejected \<in> set degraded_reasons" "reasonPhantomConflict \<in> set degraded_reasons"
  "reasonPhantomRecreating \<in> set degraded_reasons"
  "nodeConditionReason r \<in> set degraded_reasons"
  by (simp_all add: degraded_reasons_def nodeConditionReason_def)

lemma ready_reasons_mem [simp]:
  "reasonWithinThreshold \<in> set ready_reasons" "reasonPhantomCreated \<in> set ready_reasons"
  "reasonResized \<in> set ready_reasons"
  by (simp_all add: ready_reasons_def)

lemma degraded_reasons_nonempty: "r \<in> set degraded_reasons \<Longrightarrow> r \<noteq> []"
  by (auto simp: degraded_reasons_def reason_defs)

definition pass_ok :: "'q lib \<Rightarrow> 'q ShadowWorkload \<Rightarrow> ('q, 'v, 'w) pass \<Rightarrow> bool" where
  "pass_ok L sw p \<longleftrightarrow>
     same_object sw (ps_sw p) \<and> trace_ok L sw (ps_trace p) \<and>
     snapshot_ok L sw (measured_in (ps_trace p)) (sw_Status (ps_sw p)) \<and>
     currents_ok sw (resized_in (ps_trace p)) (sw_Status (ps_sw p)) \<and> reasons_ok p"

lemma ownedBySw_same: "same_object sw sw' \<Longrightarrow> ownedBySw L pod sw' = ownedBySw L pod sw"
  by (simp add: ownedBySw_def same_objectD split: option.split)

section \<open>Preservation by the steps\<close>

lemma pass_ok_objectD:
  assumes "pass_ok L sw p"
  shows "sw_Name (ps_sw p) = sw_Name sw" "sw_Namespace (ps_sw p) = sw_Namespace sw"
    "sw_UID (ps_sw p) = sw_UID sw" "sw_Spec (ps_sw p) = sw_Spec sw"
    "sw_Generation (ps_sw p) = sw_Generation sw" "ownedBySw L pod (ps_sw p) = ownedBySw L pod sw"
  using assms by (simp_all add: pass_ok_def same_objectD ownedBySw_same)

text \<open>Steps that issue no request, and requests that every state allows.\<close>

lemma pass_ok_cong:
  assumes "pass_ok L sw p" "ps_sw q = ps_sw p" "ps_trace q = ps_trace p"
    and "ps_degradedReason q = ps_degradedReason p" "ps_readyReason q = ps_readyReason p"
  shows "pass_ok L sw q"
  using assms by (simp add: pass_ok_def reasons_ok_def)

lemma pass_ok_setDegraded [intro]:
  "pass_ok L sw p \<Longrightarrow> r \<in> set degraded_reasons \<Longrightarrow> pass_ok L sw (setDegraded r m p)"
  by (auto simp: pass_ok_def reasons_ok_def)

lemma pass_ok_setReady [intro]:
  "pass_ok L sw p \<Longrightarrow> r \<in> set ready_reasons \<Longrightarrow> pass_ok L sw (setReady r p)"
  by (simp add: pass_ok_def reasons_ok_def)

lemma pass_ok_metrics [intro]: "pass_ok L sw p \<Longrightarrow> pass_ok L sw (with_metrics f p)"
  by (erule pass_ok_cong) simp_all

lemma pass_ok_Eventf [intro]: "pass_ok L sw p \<Longrightarrow> pass_ok L sw (Eventf E ty r m p)"
  by (simp add: pass_ok_def reasons_ok_def)

lemma pass_ok_warn [intro]: "pass_ok L sw p \<Longrightarrow> pass_ok L sw (warnOnDegradedTransition L E r m p)"
  by (auto simp: warnOnDegradedTransition_def split: option.split)

lemma pass_ok_request:
  assumes "pass_ok L sw p" and "call_ok L sw (ps_trace p) (ev (fst (f (ps_world p))))"
    and "measured_in (ev (fst (f (ps_world p))) # ps_trace p) = measured_in (ps_trace p)"
    and "resized_in (ev (fst (f (ps_world p))) # ps_trace p) = resized_in (ps_trace p)"
  shows "pass_ok L sw (snd (request f ev p))"
  using assms by (simp add: pass_ok_def request_eq reasons_ok_def)

text \<open>Facts of a trace that later requests keep.\<close>

lemma gates_passed_mono: "gates_passed sw t \<Longrightarrow> set t \<subseteq> set t' \<Longrightarrow> gates_passed sw t'"
  unfolding gates_passed_def by blast

lemma pod_read_mono: "pod_read sw rd a t \<Longrightarrow> set t \<subseteq> set t' \<Longrightarrow> pod_read sw rd a t'"
  unfolding pod_read_def by blast

lemma warn_trace:
  "ps_trace (warnOnDegradedTransition L E r m p) =
     (if (case k_FindStatusCondition L (st_Conditions (sw_Status (ps_sw p))) conditionDegraded of
            Some cur \<Rightarrow> cd_Reason cur = r \<and> cd_Status cur = ''True'' | None \<Rightarrow> False)
      then ps_trace p else CEvent EventTypeWarning r m # ps_trace p)"
  by (simp add: warnOnDegradedTransition_def split: option.split)

lemma warn_measured [simp]:
  "measured_in (ps_trace (warnOnDegradedTransition L E r m p)) = measured_in (ps_trace p)"
  "resized_in (ps_trace (warnOnDegradedTransition L E r m p)) = resized_in (ps_trace p)"
  by (simp_all add: warn_trace)

section \<open>The gates\<close>

lemma gate_node_pass:
  assumes "gate_node L E p = (res, q)" and "pass_ok L sw p"
  shows "pass_ok L sw q" "measured_in (ps_trace q) = measured_in (ps_trace p)"
    "resized_in (ps_trace q) = resized_in (ps_trace p)"
    "ps_metrics q = ps_metrics p" "ps_sw q = ps_sw p"
  using assms
  by (auto simp: gate_node_def request_eq Let_def pass_ok_def reasons_ok_def warn_trace
      split: sum.splits if_splits prod.splits)

lemma gate_node_eligible:
  assumes "gate_node L E p = (Inr True, q)"
  obtains nd where "ps_trace q = CGetNode (spec_Node (sw_Spec (ps_sw p))) (Inr nd) # ps_trace p"
    "fst (NodeEligible (Some nd))" "ps_degradedReason q = ps_degradedReason p"
  using assms
  by (auto simp: gate_node_def request_eq Let_def split: sum.splits if_splits prod.splits)

lemma nodeConditionReason_nonempty: "nodeConditionReason r \<noteq> []"
  by (simp add: nodeConditionReason_def reason_defs)

lemma gate_node_degraded:
  assumes "gate_node L E p = (Inr False, q)" shows "ps_degradedReason q \<noteq> []"
  using assms nodeConditionReason_nonempty
  by (auto simp: gate_node_def request_eq Let_def reason_defs split: sum.splits if_splits prod.splits)

lemma gate_priority_class_pass:
  assumes "gate_priority_class L E ok p = (res, q)" and "pass_ok L sw p"
  shows "pass_ok L sw q" "measured_in (ps_trace q) = measured_in (ps_trace p)"
    "resized_in (ps_trace q) = resized_in (ps_trace p)"
    "ps_metrics q = ps_metrics p" "ps_sw q = ps_sw p"
  using assms
  by (auto simp: gate_priority_class_def request_eq Let_def pass_ok_def reasons_ok_def warn_trace
      split: sum.splits if_splits prod.splits)

lemma gate_priority_class_ready:
  assumes "gate_priority_class L E ok p = (Inr True, q)"
  shows "ok" "ps_trace q = CGetPriorityClass (Inr ()) # ps_trace p"
    "ps_degradedReason q = ps_degradedReason p"
  using assms
  by (auto simp: gate_priority_class_def request_eq Let_def split: sum.splits if_splits prod.splits)

lemma gate_priority_class_degraded:
  assumes "gate_priority_class L E ok p = (Inr False, q)" and "\<not> ok \<longrightarrow> ps_degradedReason p \<noteq> []"
  shows "ps_degradedReason q \<noteq> []"
  using assms
  by (auto simp: gate_priority_class_def request_eq Let_def reason_defs split: sum.splits if_splits prod.splits)

section \<open>Measuring\<close>

lemma measure_failed_frame [simp]:
  "ps_sw (measure_failed V fr r m p) = ps_sw p" "ps_trace (measure_failed V fr r m p) = ps_trace p"
  "ps_degradedReason (measure_failed V fr r m p) =
     (if ps_degradedReason p = [] then r else ps_degradedReason p)"
  "ps_readyReason (measure_failed V fr r m p) = ps_readyReason p"
  by (simp_all add: measure_failed_def Let_def)

lemma pass_ok_measure_failed [intro]:
  "pass_ok L sw p \<Longrightarrow> r \<in> set degraded_reasons \<Longrightarrow> pass_ok L sw (measure_failed V fr r m p)"
  by (auto simp: pass_ok_def reasons_ok_def)

lemma classify_reason: "fst (snd (classify e)) \<in> set degraded_reasons"
  by (simp add: classify_def Let_def)

lemma measured_in_query_failed [simp]: "measured_in (CQueryPair q (Inl e) # t) = measured_in t"
  by simp

text \<open>The three ways \<open>measure\<close> can go, with the pair it returns.\<close>

lemma measure_cases:
  assumes "measure L V E p = (pair, q)"
  obtains
    (unresolved) fr r m where "pair = (FFin 0, FFin 0)"
      "r \<in> set degraded_reasons" "q = measure_failed V fr r m p"
  | (failed) queries e querier fr r m ev where "pair = (FFin 0, FFin 0)"
      "Resolve (sw_Spec (ps_sw p)) = Inr queries"
      "classify e = (fr, r, m, ev)" "r \<in> set degraded_reasons"
      "q = Eventf E EventTypeWarning r (ev, [AStr fr])
             (measure_failed V fr r (m, []) (snd (request (querier queries) (CQueryPair queries) p)))"
      "fst (querier queries (ps_world p)) = Inl e"
  | (measured) queries cpu mem found querier now where "pair = (cpu, mem)"
      "Resolve (sw_Spec (ps_sw p)) = Inr queries"
      "QuerierFor E (mc_PrometheusURL (spec_Metrics (sw_Spec (ps_sw p)))) = Inr querier"
      "fst (querier queries (ps_world p)) = Inr (cpu, mem, found)"
      "ps_trace q = CQueryPair queries (Inr (cpu, mem, found)) # ps_trace p"
      "ps_degradedReason q = ps_degradedReason p" "ps_readyReason q = ps_readyReason p"
      "ps_sw q = (ps_sw p)\<lparr>sw_Status := (sw_Status (ps_sw p))
         \<lparr>st_LastMeasurement := Some (measurement_of L (ps_sw p) now cpu mem found),
          st_ResolvedSource := Some (resolved_of (Describe (sw_Spec (ps_sw p))))\<rparr>\<rparr>"
      "ps_metrics q = MeasurementSucceeded V
         (ObservedMeasurement V (ps_metrics p) (sw_Namespace (ps_sw p)) (sw_Name (ps_sw p)) cpu mem)
         (sw_Namespace (ps_sw p)) (sw_Name (ps_sw p)) now"
proof (cases "Resolve (sw_Spec (ps_sw p))")
  case (Inl e)
  show thesis
    by (rule unresolved [of reasonSourceInvalid]) (use assms Inl in
        \<open>auto simp: measure_def Let_def\<close>)
next
  case R: (Inr queries)
  show thesis
  proof (cases "QuerierFor E (mc_PrometheusURL (spec_Metrics (sw_Spec (ps_sw p))))")
    case (Inl e)
    show thesis
      by (rule unresolved [of reasonSourceInvalid]) (use assms R Inl in
          \<open>auto simp: measure_def Let_def\<close>)
  next
    case Q: (Inr querier)
    show thesis
    proof (cases "fst (querier queries (ps_world p))")
      case (Inl e)
      obtain fr r m ev where c: "classify e = (fr, r, m, ev)" by (cases "classify e") auto
      then have "r \<in> set degraded_reasons" using classify_reason [of e] by simp
      then show thesis
        using assms R Q Inl c failed [of queries e fr r m ev querier]
        by (simp add: measure_def Let_def request_eq)
    next
      case (Inr res)
      obtain cpu mem found where r: "res = (cpu, mem, found)" by (cases res)
      show thesis
        by (rule measured [of cpu mem queries querier found]) (use assms R Q Inr r in
            \<open>auto simp: measure_def Let_def request_eq timeNow_eq\<close>)
    qed
  qed
qed

lemma measure_pass:
  assumes m: "measure L V E p = ((cpu, mem), q)" and ok: "pass_ok L sw p"
    and g: "gates_passed sw (ps_trace p)" and none: "measured_in (ps_trace p) = None"
  shows "pass_ok L sw q" and "gates_passed sw (ps_trace q)"
    and "Clamp L (PairOf L cpu mem) (up_Floor (spec_Update (sw_Spec sw)))
           (up_Ceiling (spec_Update (sw_Spec sw))) = desired_of L sw (ps_trace q)"
    and "ps_degradedReason q = [] \<longrightarrow> measured_in (ps_trace q) \<noteq> None"
    and "resized_in (ps_trace q) = resized_in (ps_trace p)"
proof -
  note sw = pass_ok_objectD [OF ok]
  show "pass_ok L sw q"
    using m
  proof (cases rule: measure_cases)
    case (failed queries e querier fr r msg ev)
    then have "pass_ok L sw (snd (request (querier queries) (CQueryPair queries) p))"
      using ok g none sw by (intro pass_ok_request) simp_all
    then show ?thesis using failed by auto
  next
    case (measured queries c m' found querier now)
    moreover have "measurement_of L (ps_sw p) = measurement_of L sw"
      using sw by (simp add: measurement_of_def fun_eq_iff Let_def)
    ultimately show ?thesis
      using ok g none sw by (auto simp: pass_ok_def snapshot_ok_def currents_ok_def reasons_ok_def)
  qed (use ok in auto)
  show "gates_passed sw (ps_trace q)"
    using m by (cases rule: measure_cases)
      (use g in \<open>auto simp: request_eq intro: gates_passed_mono\<close>)
  show "Clamp L (PairOf L cpu mem) (up_Floor (spec_Update (sw_Spec sw)))
           (up_Ceiling (spec_Update (sw_Spec sw))) = desired_of L sw (ps_trace q)"
    using m by (cases rule: measure_cases) (use none in \<open>auto simp: desired_of_def request_eq\<close>)
  show "ps_degradedReason q = [] \<longrightarrow> measured_in (ps_trace q) \<noteq> None"
    using m by (cases rule: measure_cases) (auto dest: degraded_reasons_nonempty)
  show "resized_in (ps_trace q) = resized_in (ps_trace p)"
    using m by (cases rule: measure_cases) (auto simp: request_eq)
qed

section \<open>Managing the phantom\<close>

text \<open>The three ways \<open>resizeIfDrifting\<close> can go.\<close>

lemma resizeIfDrifting_cases:
  assumes r: "resizeIfDrifting L V E pod name desired healthy p = (pod', q)"
  obtains
    (still) "\<not> (healthy \<and> DriftExceeds L (CurrentPairOf L pod) desired
        (up_DeltaThresholdPercent (spec_Update (sw_Spec (ps_sw p)))))"
      "pod' = pod" "q = (if healthy then setReady reasonWithinThreshold p else p)"
  | (rejected) e m where "healthy" "DriftExceeds L (CurrentPairOf L pod) desired
        (up_DeltaThresholdPercent (spec_Update (sw_Spec (ps_sw p))))"
      "pod' = pod" "ps_sw q = ps_sw p"
      "ps_trace q = CEvent EventTypeWarning reasonResizeRejected m #
         CPatchResize pod (resized_pod pod desired) (Inl e) # ps_trace p"
      "ps_degradedReason q = (if ps_degradedReason p = [] then reasonResizeRejected else ps_degradedReason p)"
      "ps_readyReason q = ps_readyReason p"
      "ps_metrics q = MeasurementFailed V (ps_metrics p) (sw_Namespace (ps_sw p)) (sw_Name (ps_sw p))
         FailureResizeRejected"
  | (accepted) m now where "healthy" "DriftExceeds L (CurrentPairOf L pod) desired
        (up_DeltaThresholdPercent (spec_Update (sw_Spec (ps_sw p))))"
      "ps_sw q = (ps_sw p)\<lparr>sw_Status := (sw_Status (ps_sw p))
         \<lparr>st_LastResize := now, st_CurrentCPU := rp_CPU desired, st_CurrentMemory := rp_Memory desired\<rparr>\<rparr>"
      "ps_trace q = CEvent EventTypeNormal reasonResized m #
         CPatchResize pod (resized_pod pod desired) (Inr pod') # ps_trace p"
      "ps_degradedReason q = ps_degradedReason p" "ps_readyReason q = reasonResized"
      "ps_metrics q = ReservationUpdated V (ps_metrics p) (sw_Namespace (ps_sw p)) (sw_Name (ps_sw p))"
proof (cases "healthy \<and> DriftExceeds L (CurrentPairOf L pod) desired
    (up_DeltaThresholdPercent (spec_Update (sw_Spec (ps_sw p))))")
  case False
  then show thesis using r still by (auto simp: resizeIfDrifting_def Let_def split: if_splits)
next
  case True
  show thesis
  proof (cases "fst (api_PatchResize E pod (resized_pod pod desired) (ps_world p))")
    case (Inl e)
    show thesis
      by (rule rejected [of _ e]) (use r True Inl in
          \<open>auto simp: resizeIfDrifting_def resizePhantom_def Let_def request_eq\<close>)
  next
    case (Inr pod1)
    show thesis
      by (rule accepted) (use r True Inr in
          \<open>auto simp: resizeIfDrifting_def resizePhantom_def Let_def request_eq timeNow_eq\<close>)
  qed
qed

lemma resizeIfDrifting_pass:
  assumes r: "resizeIfDrifting L V E pod name desired healthy p = (pod', q)"
    and ok: "pass_ok L sw p" and g: "gates_passed sw (ps_trace p)"
    and pod: "ownedBySw L pod sw" "pod_read sw Cached (Inr pod) (ps_trace p)"
      "pod_NodeName pod = spec_Node (sw_Spec sw)"
    and h: "healthy \<Longrightarrow> measured_in (ps_trace p) \<noteq> None"
    and d: "desired = desired_of L sw (ps_trace p)"
  shows "pass_ok L sw q"
    and "(pod' = pod \<and> resized_in (ps_trace q) = resized_in (ps_trace p)) \<or>
         resized_in (ps_trace q) = Some pod'"
    and "set (ps_trace p) \<subseteq> set (ps_trace q)"
proof -
  note sw = pass_ok_objectD [OF ok]
  have c: "call_ok L sw (ps_trace p) (CPatchResize pod (resized_pod pod desired) a)"
    if "healthy" "DriftExceeds L (CurrentPairOf L pod) desired
        (up_DeltaThresholdPercent (spec_Update (sw_Spec (ps_sw p))))" for a
    using g pod h [OF that(1)] d that(2) sw by simp
  show "pass_ok L sw q"
    using r
  proof (cases rule: resizeIfDrifting_cases)
    case still
    then show ?thesis using ok by auto
  next
    case (rejected e m)
    then show ?thesis
      using ok c [OF rejected(1,2), of "Inl e"] by (auto simp: pass_ok_def reasons_ok_def)
  next
    case (accepted m now)
    have "snapshot_ok L sw x (st\<lparr>st_LastResize := now, st_CurrentCPU := y, st_CurrentMemory := z\<rparr>)
      = snapshot_ok L sw x st" for x st y z
      by (cases x) (auto simp: snapshot_ok_def)
    moreover have "currents_ok sw (Some pod') ((sw_Status (ps_sw p))
        \<lparr>st_LastResize := now, st_CurrentCPU := rp_CPU desired, st_CurrentMemory := rp_Memory desired\<rparr>)"
      using ok by (simp add: pass_ok_def currents_ok_def)
    ultimately show ?thesis
      using ok accepted c [OF accepted(1,2), of "Inr pod'"]
      by (simp add: pass_ok_def reasons_ok_def del: call_ok.simps(4))
  qed
  show "(pod' = pod \<and> resized_in (ps_trace q) = resized_in (ps_trace p)) \<or>
         resized_in (ps_trace q) = Some pod'"
    "set (ps_trace p) \<subseteq> set (ps_trace q)"
    using r by (cases rule: resizeIfDrifting_cases; auto)+
qed

lemma resolveCreateConflict_pass:
  assumes r: "resolveCreateConflict L E name poll p = (res, q)"
    and ok: "pass_ok L sw p" and g: "gates_passed sw (ps_trace p)"
    and name: "name = PhantomName (sw_Name sw)"
  shows "pass_ok L sw q" and "resized_in (ps_trace q) = resized_in (ps_trace p)"
    and "0 < poll \<Longrightarrow> res = Inr (conflict, n) \<Longrightarrow> \<not> 0 < n \<Longrightarrow> conflict"
proof -
  note sw = pass_ok_objectD [OF ok]
  have parts: "same_object sw (ps_sw p)" "trace_ok L sw (ps_trace p)"
    "snapshot_ok L sw (measured_in (ps_trace p)) (sw_Status (ps_sw p))"
    "currents_ok sw (resized_in (ps_trace p)) (sw_Status (ps_sw p))" "reasons_ok p"
    using ok by (simp_all add: pass_ok_def)
  have g': "gates_passed sw (c # ps_trace p)" for c using g by (rule gates_passed_mono) auto
  show "pass_ok L sw q" "resized_in (ps_trace q) = resized_in (ps_trace p)"
    "0 < poll \<Longrightarrow> res = Inr (conflict, n) \<Longrightarrow> \<not> 0 < n \<Longrightarrow> conflict"
    using r parts g' sw
    by (auto simp: resolveCreateConflict_def Let_def request_eq pass_ok_def pod_read_def name
        reasons_ok_def split: sum.splits if_splits)
qed

lemma createOrRecoverPhantom_pass:
  assumes r: "createOrRecoverPhantom L V E name desired poll p = (res, q)"
    and ok: "pass_ok L sw p" and g: "gates_passed sw (ps_trace p)"
    and name: "name = PhantomName (sw_Name sw)"
    and d: "desired = desired_of L sw (ps_trace p)"
    and nf: "pod_read sw Cached (Inl NotFound) (ps_trace p)"
  shows "pass_ok L sw q" and "resized_in (ps_trace q) = resized_in (ps_trace p)"
    and "res = Inr (Some pod, n) \<Longrightarrow> n = 0 \<and> (\<exists>f. CCreatePod f (Inr pod) \<in> set (ps_trace q))"
    and "0 < poll \<Longrightarrow> res = Inr (None, n) \<Longrightarrow> \<not> 0 < n \<Longrightarrow> ps_degradedReason q \<noteq> []"
proof -
  have "pass_ok L sw q \<and> resized_in (ps_trace q) = resized_in (ps_trace p) \<and>
    (\<forall>pod n. res = Inr (Some pod, n) \<longrightarrow> n = 0 \<and> (\<exists>f. CCreatePod f (Inr pod) \<in> set (ps_trace q))) \<and>
    (\<forall>n. 0 < poll \<longrightarrow> res = Inr (None, n) \<longrightarrow> \<not> 0 < n \<longrightarrow> ps_degradedReason q \<noteq> [])"
  proof (cases "BuildPhantomPod L (ps_sw p) desired")
    case (Inl e)
    then show ?thesis using r ok by (auto simp: createOrRecoverPhantom_def Let_def)
  next
    case B: (Inr fresh)
    define p1 where "p1 = snd (request (api_CreatePod E fresh) (CCreatePod fresh) p)"
    have "same_object sw (ps_sw p)" using ok by (simp add: pass_ok_def)
    then have p1: "pass_ok L sw p1"
      unfolding p1_def using ok g nf d B by (intro pass_ok_request) auto
    have g1: "gates_passed sw (ps_trace p1)"
      unfolding p1_def using g by (auto simp: request_eq intro: gates_passed_mono)
    have rz: "resized_in (ps_trace p1) = resized_in (ps_trace p)"
      by (simp add: p1_def request_eq)
    show ?thesis
    proof (cases "fst (api_CreatePod E fresh (ps_world p))")
      case (Inl e)
      obtain cres p2 where c: "resolveCreateConflict L E name poll p1 = (cres, p2)"
        by (cases "resolveCreateConflict L E name poll p1")
      note p2 = resolveCreateConflict_pass [OF c p1 g1 name]
      have "reasonPhantomConflict \<noteq> []" by (simp add: reason_defs)
      then show ?thesis
        using r B Inl c p1 p2 rz unfolding p1_def
        by (auto simp: createOrRecoverPhantom_def Let_def request_eq
            intro!: pass_ok_warn pass_ok_setDegraded split: sum.splits if_splits)
    next
      case (Inr pod)
      then show ?thesis
        using r B p1 rz unfolding p1_def
        by (auto simp: createOrRecoverPhantom_def Let_def request_eq
            intro!: pass_ok_setReady pass_ok_metrics pass_ok_Eventf)
    qed
  qed
  then show "pass_ok L sw q" and "resized_in (ps_trace q) = resized_in (ps_trace p)"
    and "res = Inr (Some pod, n) \<Longrightarrow> n = 0 \<and> (\<exists>f. CCreatePod f (Inr pod) \<in> set (ps_trace q))"
    and "0 < poll \<Longrightarrow> res = Inr (None, n) \<Longrightarrow> \<not> 0 < n \<Longrightarrow> ps_degradedReason q \<noteq> []"
    by blast+
qed

text \<open>
  What management reports: an observed pod is the answer to a creation, the pod read and not
  resized, or the answer to an accepted resize.
\<close>

definition pod_observed :: "'q ShadowWorkload \<Rightarrow> 'q api_call list \<Rightarrow> 'q pod \<Rightarrow> bool" where
  "pod_observed sw t pod \<longleftrightarrow>
     (\<exists>f. CCreatePod f (Inr pod) \<in> set t) \<or>
     (pod_read sw Cached (Inr pod) t \<and> resized_in t = None) \<or> resized_in t = Some pod"

definition managed_ok :: "'q ShadowWorkload \<Rightarrow> ('q, 'v, 'w) pass \<Rightarrow> 'q managed \<Rightarrow> bool" where
  "managed_ok sw q m \<longleftrightarrow>
     (case m of
        Return n \<Rightarrow> 0 < n
      | Continue None imm \<Rightarrow> resized_in (ps_trace q) = None \<and> ps_degradedReason q \<noteq> []
      | Continue (Some pod) imm \<Rightarrow> \<not> imm \<and> pod_observed sw (ps_trace q) pod)"

lemma manage_phantom_pass:
  assumes r: "manage_phantom L V E desired poll p = (res, q)"
    and ok: "pass_ok L sw p" and g: "gates_passed sw (ps_trace p)"
    and d: "desired = desired_of L sw (ps_trace p)"
    and h: "ps_degradedReason p = [] \<longrightarrow> measured_in (ps_trace p) \<noteq> None"
    and poll: "0 < poll" and nr: "resized_in (ps_trace p) = None"
  shows "pass_ok L sw q" and "res = Inr m \<Longrightarrow> managed_ok sw q m"
proof -
  note sw = pass_ok_objectD [OF ok]
  let ?name = "PhantomName (sw_Name sw)"
  let ?get = "request (api_GetPod E Cached (sw_Namespace sw) ?name) (CGetPod Cached (sw_Namespace sw) ?name) p"
  define p1 where "p1 = snd ?get"
  have p1: "pass_ok L sw p1" unfolding p1_def using ok by (intro pass_ok_request) simp_all
  have t1: "ps_trace p1 = CGetPod Cached (sw_Namespace sw) ?name (fst ?get) # ps_trace p"
    "ps_degradedReason p1 = ps_degradedReason p" by (simp_all add: p1_def request_eq)
  then have g1: "gates_passed sw (ps_trace p1)" using g by (auto intro: gates_passed_mono)
  have nr1: "resized_in (ps_trace p1) = None" using t1 nr by simp
  have d1: "desired = desired_of L sw (ps_trace p1)" using d t1 by (simp add: desired_of_def)
  have rd: "pod_read sw Cached (fst ?get) (ps_trace p1)" using t1 by (simp add: pod_read_def)
  have ne: "reasonPhantomConflict \<noteq> []" "reasonPhantomRecreating \<noteq> []"
    by (simp_all add: reason_defs)
  note m = r [unfolded manage_phantom_def Let_def sw, folded p1_def]
  have "pass_ok L sw q \<and> (\<forall>m. res = Inr m \<longrightarrow> managed_ok sw q m)"
  proof (cases "fst ?get")
    case (Inl e)
    show ?thesis
    proof (cases "e = NotFound")
      case True
      obtain cres p2 where c: "createOrRecoverPhantom L V E ?name desired poll p1 = (cres, p2)"
        by (cases "createOrRecoverPhantom L V E ?name desired poll p1")
      have nf: "pod_read sw Cached (Inl NotFound) (ps_trace p1)" using rd Inl True by simp
      note p2 = createOrRecoverPhantom_pass [OF c p1 g1 refl d1 nf]
      have q: "q = p2" and
        "res = (case cres of Inl e \<Rightarrow> Inl e
                | Inr (x, n) \<Rightarrow> Inr (if 0 < n then Return n else Continue x False))"
        using m Inl True c by (auto simp: p1_def prod.case_eq_if split: sum.splits if_splits)
      then show ?thesis
        using p2 nr1 poll
        by (cases cres) (auto simp: managed_ok_def pod_observed_def split: option.splits)
    next
      case False
      then show ?thesis using m Inl p1 by (auto simp: p1_def prod.case_eq_if)
    qed
  next
    case (Inr pod)
    define p2 where "p2 = snd (request (api_DeletePod E pod (delete_observed pod))
                             (CDeletePod pod (delete_observed pod)) p1)"
    obtain pod' p3 where rz:
      "resizeIfDrifting L V E pod ?name desired (ps_degradedReason p1 = []) p1 = (pod', p3)"
      by (cases "resizeIfDrifting L V E pod ?name desired (ps_degradedReason p1 = []) p1")
    show ?thesis
    proof (cases "ownedBySw L pod sw")
      case False
      then show ?thesis using m Inr p1 nr1 ne
        by (auto simp: p1_def prod.case_eq_if managed_ok_def intro!: pass_ok_warn pass_ok_setDegraded)
    next
      case True
      show ?thesis
      proof (cases "pod_NodeName pod = spec_Node (sw_Spec sw)")
        case False
        have p2: "pass_ok L sw p2"
          unfolding p2_def using p1 g1 True rd Inr by (intro pass_ok_request) auto
        have nr2: "resized_in (ps_trace p2) = None" using nr1 by (simp add: p2_def request_eq)
        show ?thesis
          using m Inr True False p2 nr2 ne
          by (auto simp: p1_def p2_def prod.case_eq_if managed_ok_def
              intro!: pass_ok_setDegraded pass_ok_Eventf split: if_splits)
      next
        case pinned: True
        have rd': "pod_read sw Cached (Inr pod) (ps_trace p1)" using rd Inr by simp
        have h1: "ps_degradedReason p1 = [] \<Longrightarrow> measured_in (ps_trace p1) \<noteq> None" using h t1 by simp
        note p3 = resizeIfDrifting_pass [OF rz p1 g1 True rd' pinned h1 d1]
        have "pod_observed sw (ps_trace p3) pod'"
          using p3(2,3) nr1 rd' by (auto simp: pod_observed_def intro: pod_read_mono)
        then show ?thesis
          using m Inr True pinned p3(1) rz by (auto simp: p1_def prod.case_eq_if managed_ok_def)
      qed
    qed
  qed
  then show "pass_ok L sw q" and "res = Inr m \<Longrightarrow> managed_ok sw q m" by blast+
qed

section \<open>The whole pass\<close>

lemma initial_pass_ok [intro]: "pass_ok L sw (initial_pass sw r w)"
  by (simp add: pass_ok_def initial_pass_def snapshot_ok_def currents_ok_def reasons_ok_def)

lemma initial_pass_simps [simp]:
  "ps_sw (initial_pass sw r w) = sw" "ps_trace (initial_pass sw r w) = []"
  "ps_degradedReason (initial_pass sw r w) = []" "ps_metrics (initial_pass sw r w) = r"
  "ps_world (initial_pass sw r w) = w" "ps_readyReason (initial_pass sw r w) = reasonWithinThreshold"
  by (simp_all add: initial_pass_def)

text \<open>
  The prefix of a pass: after the gates and the measurement, what management starts from.
\<close>

definition pass_prefix ::
  "'q lib \<Rightarrow> 'v vec_lib \<Rightarrow> ('q, 'w) cluster \<Rightarrow> ('q, 'v, 'w) pass \<Rightarrow>
   (reconcile_error + bool \<times> f64 \<times> f64) \<times> ('q, 'v, 'w) pass" where
  "pass_prefix L V E p =
     (case gate_node L E p of
        (Inl e, p) \<Rightarrow> (Inl e, p)
      | (Inr ok, p) \<Rightarrow>
          (case gate_priority_class L E ok p of
             (Inl e, p) \<Rightarrow> (Inl e, p)
           | (Inr ready, p) \<Rightarrow>
               (let (pair, p) = (if ready then measure L V E p else ((FFin 0, FFin 0), p))
                in (Inr (ready, pair), p))))"

definition pass_suffix ::
  "'q lib \<Rightarrow> 'v vec_lib \<Rightarrow> ('q, 'w) cluster \<Rightarrow> 'q ShadowWorkload \<Rightarrow> 'q pod option \<Rightarrow> bool \<Rightarrow>
   ('q, 'v, 'w) pass \<Rightarrow> (reconcile_error + int) \<times> ('q, 'v, 'w) pass" where
  "pass_suffix L V E sw observed requeueImmediately p =
     (let p = report_conditions L (report_currents L V observed p)
      in case request (api_PatchStatus E sw (ps_sw p)) (CPatchStatus sw (ps_sw p)) p of
           (Some perr, p) \<Rightarrow> (Inl (PatchStatusFailed perr), p)
         | (None, p) \<Rightarrow> (Inr (if requeueImmediately then 1 else pollInterval sw), p))"

definition pass_desired :: "'q lib \<Rightarrow> 'q ShadowWorkload \<Rightarrow> f64 \<Rightarrow> f64 \<Rightarrow> 'q ResourcePair" where
  "pass_desired L sw cpu mem =
     Clamp L (PairOf L cpu mem) (up_Floor (spec_Update (sw_Spec sw)))
       (up_Ceiling (spec_Update (sw_Spec sw)))"

lemma reconcile_workload_phases:
  "reconcile_workload L V E p0 =
     (case pass_prefix L V E p0 of
        (Inl e, p) \<Rightarrow> (Inl e, p)
      | (Inr (ready, cpu, mem), p) \<Rightarrow>
          (if ready then
             (case manage_phantom L V E (pass_desired L (ps_sw p0) cpu mem)
                     (pollInterval (ps_sw p0)) p of
                (Inl e, p) \<Rightarrow> (Inl e, p)
              | (Inr (Return n), p) \<Rightarrow> (Inr n, p)
              | (Inr (Continue obs imm), p) \<Rightarrow> pass_suffix L V E (ps_sw p0) obs imm p)
           else pass_suffix L V E (ps_sw p0) None False p))"
  unfolding reconcile_workload_def pass_prefix_def pass_suffix_def pass_desired_def Let_def
  by (auto split: prod.splits sum.splits managed.splits option.splits)

lemma pass_prefix_pass:
  assumes r: "pass_prefix L V E (initial_pass sw rc w) = (res, q)"
  shows "pass_ok L sw q" and "resized_in (ps_trace q) = None"
    and "res = Inr (True, cpu, mem) \<Longrightarrow> gates_passed sw (ps_trace q)"
    and "res = Inr (True, cpu, mem) \<Longrightarrow> pass_desired L sw cpu mem = desired_of L sw (ps_trace q)"
    and "res = Inr (True, cpu, mem) \<Longrightarrow> ps_degradedReason q = [] \<longrightarrow> measured_in (ps_trace q) \<noteq> None"
    and "res = Inr (False, cpu, mem) \<Longrightarrow> ps_degradedReason q \<noteq> [] \<and> measured_in (ps_trace q) = None"
proof -
  let ?p0 = "initial_pass sw rc w"
  obtain nres p1 where n: "gate_node L E ?p0 = (nres, p1)" by (cases "gate_node L E ?p0")
  note p1 = gate_node_pass [OF n initial_pass_ok]
  have "pass_ok L sw q \<and> resized_in (ps_trace q) = None \<and>
    (\<forall>cpu mem. (res = Inr (True, cpu, mem) \<longrightarrow> gates_passed sw (ps_trace q) \<and>
        pass_desired L sw cpu mem = desired_of L sw (ps_trace q) \<and>
        (ps_degradedReason q = [] \<longrightarrow> measured_in (ps_trace q) \<noteq> None)) \<and>
      (res = Inr (False, cpu, mem) \<longrightarrow> ps_degradedReason q \<noteq> [] \<and> measured_in (ps_trace q) = None))"
  proof (cases nres)
    case (Inl e)
    then show ?thesis using r n p1 by (auto simp: pass_prefix_def)
  next
    case N: (Inr ok)
    obtain cres p2 where c: "gate_priority_class L E ok p1 = (cres, p2)"
      by (cases "gate_priority_class L E ok p1")
    note p2 = gate_priority_class_pass [OF c p1(1)]
    show ?thesis
    proof (cases cres)
      case (Inl e)
      then show ?thesis using r n N c p1 p2 by (auto simp: pass_prefix_def)
    next
      case C: (Inr ready)
      show ?thesis
      proof (cases ready)
        case False
        have "\<not> ok \<longrightarrow> ps_degradedReason p1 \<noteq> []" using gate_node_degraded n N by (cases ok) auto
        then have "ps_degradedReason p2 \<noteq> []"
          using gate_priority_class_degraded [of L E ok p1 p2] c C False by auto
        then show ?thesis using r n N c C False p1 p2 by (auto simp: pass_prefix_def)
      next
        case True
        note ready = gate_priority_class_ready [of L E ok p1 p2]
        obtain nd where nd: "ps_trace p1 = [CGetNode (spec_Node (sw_Spec sw)) (Inr nd)]"
          "fst (NodeEligible (Some nd))"
          using gate_node_eligible [of L E ?p0 p1] n N ready c C True by auto
        have g: "gates_passed sw (ps_trace p2)"
          using nd ready(2) c C True by (auto simp: gates_passed_def)
        obtain cpu mem p3 where m: "measure L V E p2 = ((cpu, mem), p3)"
          by (cases "measure L V E p2") auto
        have "measured_in (ps_trace p2) = None" using p1 p2 by simp
        note p3 = measure_pass [OF m p2(1) g this]
        show ?thesis using r n N c C True m p1 p2 p3 by (auto simp: pass_prefix_def pass_desired_def)
      qed
    qed
  qed
  then show "pass_ok L sw q" and "resized_in (ps_trace q) = None"
    and "res = Inr (True, cpu, mem) \<Longrightarrow> gates_passed sw (ps_trace q)"
    and "res = Inr (True, cpu, mem) \<Longrightarrow> pass_desired L sw cpu mem = desired_of L sw (ps_trace q)"
    and "res = Inr (True, cpu, mem) \<Longrightarrow> ps_degradedReason q = [] \<longrightarrow> measured_in (ps_trace q) \<noteq> None"
    and "res = Inr (False, cpu, mem) \<Longrightarrow> ps_degradedReason q \<noteq> [] \<and> measured_in (ps_trace q) = None"
    by blast+
qed

text \<open>
  A pass ends early, with an error or a positive delay and no status patch, or with the patch
  of the reported status.
\<close>

definition reported :: "'q lib \<Rightarrow> 'v vec_lib \<Rightarrow> 'q pod option \<Rightarrow> ('q, 'v, 'w) pass \<Rightarrow> ('q, 'v, 'w) pass" where
  "reported L V obs p = report_conditions L (report_currents L V obs p)"

lemma pollInterval_pos: "0 < pollInterval sw"
  by (simp add: pollInterval_def defaultPollInterval_def split: option.split)

lemma pass_suffix_cases:
  assumes "pass_suffix L V E sw obs imm p = (res, q)"
  obtains a where "ps_trace q = CPatchStatus sw (ps_sw (reported L V obs p)) a # ps_trace (reported L V obs p)"
    "res = (case a of Some e \<Rightarrow> Inl (PatchStatusFailed e)
            | None \<Rightarrow> Inr (if imm then 1 else pollInterval sw))"
    "ps_metrics q = ps_metrics (reported L V obs p)"
  using assms by (auto simp: pass_suffix_def reported_def Let_def request_eq split: option.splits)

lemma report_currents_trace [simp]: "ps_trace (report_currents L V obs p) = ps_trace p"
  by (simp add: report_currents_def Let_def split: option.split)

lemma reported_trace [simp]: "ps_trace (reported L V obs p) = ps_trace p"
  by (simp add: reported_def report_conditions_def Let_def)

lemma reconcile_workload_cases:
  fixes E :: "('q, 'w) cluster"
  assumes r: "reconcile_workload L V E (initial_pass sw rc w) = (res, q)"
  obtains (early) "pass_ok L sw q" "is_ok res \<longrightarrow> 0 < projr res"
  | (patched) obs imm a and p :: "('q, 'v, 'w) pass" where "pass_ok L sw p"
      "obs = None \<longrightarrow> resized_in (ps_trace p) = None \<and> ps_degradedReason p \<noteq> []"
      "\<And>pod. obs = Some pod \<Longrightarrow> \<not> imm \<and> pod_observed sw (ps_trace p) pod"
      "ps_trace q = CPatchStatus sw (ps_sw (reported L V obs p)) a # ps_trace p"
      "res = (case a of Some e \<Rightarrow> Inl (PatchStatusFailed e)
              | None \<Rightarrow> Inr (if imm then 1 else pollInterval sw))"
      "ps_metrics q = ps_metrics (reported L V obs p)"
proof -
  obtain pres p where x: "pass_prefix L V E (initial_pass sw rc w) = (pres, p)"
    by (cases "pass_prefix L V E (initial_pass sw rc w)")
  note p = pass_prefix_pass [OF x]
  show thesis
  proof (cases pres)
    case (Inl e)
    then show thesis using r x p(1) early by (auto simp: reconcile_workload_phases)
  next
    case P: (Inr t)
    obtain ready cpu mem where t: "t = (ready, cpu, mem)" by (cases t)
    show thesis
    proof (cases ready)
      case False
      then have "pass_suffix L V E sw None False p = (res, q)"
        using r x P t by (simp add: reconcile_workload_phases)
      then show thesis
        by (cases rule: pass_suffix_cases)
          (rule patched [OF p(1), of None False], use p P t False in auto)
    next
      case True
      obtain mres p2 where m: "manage_phantom L V E (pass_desired L sw cpu mem) (pollInterval sw) p = (mres, p2)"
        by (cases "manage_phantom L V E (pass_desired L sw cpu mem) (pollInterval sw) p")
      have d: "gates_passed sw (ps_trace p)" "pass_desired L sw cpu mem = desired_of L sw (ps_trace p)"
        "ps_degradedReason p = [] \<longrightarrow> measured_in (ps_trace p) \<noteq> None"
        using p(3-5) [of cpu mem] P t True by simp_all
      note p2 = manage_phantom_pass [OF m p(1) d pollInterval_pos p(2)]
      show thesis
      proof (cases mres)
        case (Inl e)
        then show thesis using r x P t True m p2(1) early by (auto simp: reconcile_workload_phases)
      next
        case M: (Inr md)
        show thesis
        proof (cases md)
          case (Return n)
          then show thesis
            using r x P t True m M p2(1) p2(2) [OF M] early
            by (auto simp: reconcile_workload_phases managed_ok_def)
        next
          case (Continue obs imm)
          then have "pass_suffix L V E sw obs imm p2 = (res, q)"
            using r x P t True m M by (simp add: reconcile_workload_phases)
          then show thesis
            by (cases rule: pass_suffix_cases)
              (rule patched [OF p2(1), of obs imm], use p2(2) [OF M] Continue in
                \<open>auto simp: managed_ok_def split: option.splits\<close>)
        qed
      qed
    qed
  qed
qed

end
