(* ===== verification/Reconciler_Report.thy ===== *)
theory Reconciler_Report
  imports Reconciler_Safety
begin

text \<open>
  The report at the end of a pass, and the view of a whole pass from outside: how it can end,
  what holds of every request in its trace, and what the status patch says.
\<close>

section \<open>The reported status\<close>

lemma reported_object:
  "pass_ok L sw p \<Longrightarrow> same_object sw (ps_sw (reported L V obs p))"
  by (simp add: pass_ok_def reported_def report_conditions_def report_currents_def Let_def
      split: option.split)

lemma reported_snapshot:
  "st_LastMeasurement (sw_Status (ps_sw (reported L V obs p))) = st_LastMeasurement (sw_Status (ps_sw p))"
  "st_ResolvedSource (sw_Status (ps_sw (reported L V obs p))) = st_ResolvedSource (sw_Status (ps_sw p))"
  "st_LastResize (sw_Status (ps_sw (reported L V obs p))) = st_LastResize (sw_Status (ps_sw p))"
  by (simp_all add: reported_def report_conditions_def report_currents_def Let_def split: option.split)

lemma reported_currents:
  "st_PhantomPod (sw_Status (ps_sw (reported L V obs p))) =
     (case obs of None \<Rightarrow> st_PhantomPod (sw_Status (ps_sw p)) | Some pod \<Rightarrow> PhantomName (sw_Name (ps_sw p)))"
  "st_CurrentCPU (sw_Status (ps_sw (reported L V obs p))) =
     (case obs of None \<Rightarrow> st_CurrentCPU (sw_Status (ps_sw p)) | Some pod \<Rightarrow> rp_CPU (CurrentPairOf L pod))"
  "st_CurrentMemory (sw_Status (ps_sw (reported L V obs p))) =
     (case obs of None \<Rightarrow> st_CurrentMemory (sw_Status (ps_sw p)) | Some pod \<Rightarrow> rp_Memory (CurrentPairOf L pod))"
  by (simp_all add: reported_def report_conditions_def report_currents_def Let_def split: option.split)

text \<open>
  The two conditions after a report: they disagree, carry the same reason when degraded, and
  every other condition type is left alone.
\<close>

definition reported_ready :: "('q, 'v, 'w) pass \<Rightarrow> string \<times> string" where
  "reported_ready p =
     (if ps_degradedReason p \<noteq> [] then (''False'', ps_degradedReason p) else (''True'', ps_readyReason p))"

definition reported_degraded :: "('q, 'v, 'w) pass \<Rightarrow> string \<times> string" where
  "reported_degraded p =
     (if ps_degradedReason p \<noteq> [] then (''True'', ps_degradedReason p) else (''False'', reasonAsExpected))"

lemma report_currents_frame [simp]:
  "ps_degradedReason (report_currents L V obs p) = ps_degradedReason p"
  "ps_readyReason (report_currents L V obs p) = ps_readyReason p"
  by (simp_all add: report_currents_def Let_def split: option.split)

lemma reported_conditions:
  assumes "condition_laws L"
  shows "\<exists>c. k_FindStatusCondition L (st_Conditions (sw_Status (ps_sw (reported L V obs p)))) conditionReady = Some c \<and>
           (cd_Status c, cd_Reason c) = reported_ready p \<and> cd_ObservedGeneration c = sw_Generation (ps_sw p)"
    and "\<exists>c. k_FindStatusCondition L (st_Conditions (sw_Status (ps_sw (reported L V obs p)))) conditionDegraded = Some c \<and>
           (cd_Status c, cd_Reason c) = reported_degraded p \<and> cd_ObservedGeneration c = sw_Generation (ps_sw p)"
proof -
  have g: "sw_Generation (ps_sw (report_currents L V obs p)) = sw_Generation (ps_sw p)"
    by (simp add: report_currents_def Let_def split: option.split)
  have ne: "conditionReady \<noteq> conditionDegraded" by (simp add: conditionReady_def conditionDegraded_def)
  have f: "k_FindStatusCondition L (k_SetStatusCondition L cs c) t =
      (if t = cd_Type c then Some c else k_FindStatusCondition L cs t)" for cs c t
    using assms unfolding condition_laws_def by blast
  show "\<exists>c. k_FindStatusCondition L (st_Conditions (sw_Status (ps_sw (reported L V obs p)))) conditionReady = Some c \<and>
           (cd_Status c, cd_Reason c) = reported_ready p \<and> cd_ObservedGeneration c = sw_Generation (ps_sw p)"
    using ne by (simp add: reported_def report_conditions_def Let_def f g reported_ready_def)
  show "\<exists>c. k_FindStatusCondition L (st_Conditions (sw_Status (ps_sw (reported L V obs p)))) conditionDegraded = Some c \<and>
           (cd_Status c, cd_Reason c) = reported_degraded p \<and> cd_ObservedGeneration c = sw_Generation (ps_sw p)"
    using ne by (simp add: reported_def report_conditions_def Let_def f g reported_degraded_def)
qed

section \<open>A pass from outside\<close>

lemma Reconcile_cases:
  fixes E :: "('q, 'w) cluster"
  assumes "Reconcile L V E ns n rc w = (res, rc', t, w')"
  obtains (unread) e w0 where "api_GetShadowWorkload E ns n w = (Inl e, w0)" "t = []"
    "res = (if e = NotFound then Inr 0 else Inl (GetShadowWorkloadFailed e))"
    "rc' = (if e = NotFound then RemoveShadowWorkload V rc ns n else rc)"
  | (early) sw w0 and q :: "('q, 'v, 'w) pass" where "api_GetShadowWorkload E ns n w = (Inr sw, w0)"
    "pass_ok L sw q" "t = ps_trace q" "is_ok res \<longrightarrow> 0 < projr res" "rc' = ps_metrics q"
  | (patched) sw w0 obs imm a and p :: "('q, 'v, 'w) pass" where
    "api_GetShadowWorkload E ns n w = (Inr sw, w0)" "pass_ok L sw p"
    "obs = None \<longrightarrow> resized_in (ps_trace p) = None \<and> ps_degradedReason p \<noteq> []"
    "\<And>pod. obs = Some pod \<Longrightarrow> \<not> imm \<and> pod_observed sw (ps_trace p) pod"
    "t = CPatchStatus sw (ps_sw (reported L V obs p)) a # ps_trace p"
    "res = (case a of Some e \<Rightarrow> Inl (PatchStatusFailed e)
            | None \<Rightarrow> Inr (if imm then 1 else pollInterval sw))"
    "rc' = ps_metrics (reported L V obs p)"
proof (cases "api_GetShadowWorkload E ns n w")
  case (Pair a w0)
  show thesis
  proof (cases a)
    case (Inl e)
    show thesis
      by (rule unread [of e w0]) (use assms Pair Inl in \<open>auto simp: Reconcile_def split: if_splits\<close>)
  next
    case (Inr sw)
    obtain res' q where r: "reconcile_workload L V E (initial_pass sw rc w0) = (res', q)"
      by (cases "reconcile_workload L V E (initial_pass sw rc w0)")
    then have e: "res' = res" "rc' = ps_metrics q" "t = ps_trace q"
      using assms Pair Inr by (auto simp: Reconcile_def)
    show thesis
      using r
    proof (cases rule: reconcile_workload_cases)
      case wearly: early
      then show thesis using early [of sw w0 q] Pair Inr e by simp
    next
      case wpatched: (patched obs imm a p)
      show thesis
        by (rule patched [OF _ wpatched(1,2,3)]) (use Pair Inr e wpatched in auto)
    qed
  qed
qed

text \<open>Every request but the status patch obeys the predicate, at its place in the trace.\<close>

lemma Reconcile_calls_ok:
  assumes "Reconcile L V E ns n rc w = (res, rc', u @ c # t, w')"
    and "\<And>b s a. c \<noteq> CPatchStatus b s a"
  obtains sw w0 where "api_GetShadowWorkload E ns n w = (Inr sw, w0)" "call_ok L sw t c"
  using assms(1)
proof (cases rule: Reconcile_cases)
  case (early sw w0 q)
  then show thesis using that trace_ok_split [of L sw u c t] by (simp add: pass_ok_def)
next
  case (patched sw w0 obs imm a p)
  then have "ps_trace p = tl u @ c # t" using assms(2) by (cases u) auto
  then show thesis
    using that patched(1,2) trace_ok_split [of L sw "tl u" c t] by (simp add: pass_ok_def)
qed simp

lemma Reconcile_call:
  assumes "Reconcile L V E ns n rc w = (res, rc', u @ c # t, w')" and "\<And>b s a. c \<noteq> CPatchStatus b s a"
  shows "\<exists>sw w0. api_GetShadowWorkload E ns n w = (Inr sw, w0) \<and> call_ok L sw t c"
  by (rule Reconcile_calls_ok [OF assms]) blast+

lemma no_status_patch: "pass_ok L sw p \<Longrightarrow> CPatchStatus b s a \<notin> set (ps_trace p)"
  using trace_ok_split [of L sw] by (fastforce simp: pass_ok_def dest: split_list)

text \<open>A status patch is the last request of a pass and reports what the pass knows.\<close>

lemma Reconcile_patch:
  fixes E :: "('q, 'w) cluster"
  assumes "Reconcile L V E ns n rc w = (res, rc', t, w')" and "CPatchStatus b s a \<in> set t"
  obtains w0 obs imm and p :: "('q, 'v, 'w) pass" where
    "api_GetShadowWorkload E ns n w = (Inr b, w0)" "pass_ok L b p"
    "obs = None \<longrightarrow> resized_in (ps_trace p) = None \<and> ps_degradedReason p \<noteq> []"
    "\<And>pod. obs = Some pod \<Longrightarrow> \<not> imm \<and> pod_observed b (ps_trace p) pod"
    "t = CPatchStatus b s a # ps_trace p" "s = ps_sw (reported L V obs p)"
    "res = (case a of Some e \<Rightarrow> Inl (PatchStatusFailed e)
            | None \<Rightarrow> Inr (if imm then 1 else pollInterval b))"
    "rc' = ps_metrics (reported L V obs p)"
  using assms(1)
proof (cases rule: Reconcile_cases)
  case (early sw w0 q)
  then show thesis using no_status_patch assms(2) by blast
next
  case (patched sw w0 obs imm a' p)
  then have "b = sw" "s = ps_sw (reported L V obs p)" "a = a'"
    using no_status_patch [OF patched(2)] assms(2) by auto
  with patched show thesis using that by blast
qed (use assms in simp)

end
