(* ===== verification/Pass_Invariant.thy ===== *)
theory Pass_Invariant
  imports Reconciler_Report
begin

text \<open>
  The shape of a pass: what holds while the gates are open, once the pair has been measured, at
  the report (after a closed gate or the management of the pod), and at the end.  The base of the
  status patch is the workload as read.  What all phases keep is the special case of one predicate.
\<close>

locale pass_phases =
  fixes L :: "'q lib" and V :: "'v vec_lib" and E :: "('q, 'w) cluster" and base :: "'q ShadowWorkload"
    and G :: "('q, 'v, 'w) pass \<Rightarrow> bool" and J :: "('q, 'v, 'w) pass \<Rightarrow> bool"
    and I :: "('q, 'v, 'w) pass \<Rightarrow> bool" and K :: "('q, 'v, 'w) pass \<Rightarrow> bool"
  assumes node_gated: "gate_node L E p = (nres, q) \<Longrightarrow> G p \<Longrightarrow> G q"
    and node_closed: "gate_node L E p = (Inr False, q) \<Longrightarrow> G p \<Longrightarrow> I q"
    and class_gated: "gate_priority_class L E True p = (cres, q) \<Longrightarrow> G p \<Longrightarrow> G q"
    and class_closed: "gate_priority_class L E True p = (Inr False, q) \<Longrightarrow> G p \<Longrightarrow> I q"
    and pair_measured: "measure L V E p = (pair, q) \<Longrightarrow> G p \<Longrightarrow> J q"
    and pod_managed: "manage_phantom L V E d poll p = (mres, q) \<Longrightarrow> J p \<Longrightarrow> I q"
    and status_reported: "pass_suffix L V E base obs imm p = (res, q) \<Longrightarrow> I p \<Longrightarrow> K q"
    and report_skipped: "G p \<Longrightarrow> K p" "I p \<Longrightarrow> K p"
begin

lemma prefix:
  assumes "pass_prefix L V E p = (res, q)" "G p"
  shows "res = Inl e \<Longrightarrow> G q" "res = Inr (True, pair) \<Longrightarrow> J q" "res = Inr (False, pair) \<Longrightarrow> I q"
proof -
  obtain nres p1 where g: "gate_node L E p = (nres, p1)" by (cases "gate_node L E p")
  obtain cres p2 where c: "gate_priority_class L E True p1 = (cres, p2)" by (cases "gate_priority_class L E True p1")
  obtain mp p3 where m: "measure L V E p2 = (mp, p3)" by (cases "measure L V E p2")
  have p1: "G p1" by (rule node_gated [OF g assms(2)])
  have p2: "G p2" by (rule class_gated [OF c p1])
  have p3: "J p3" by (rule pair_measured [OF m p2])
  have n: "I p1" if "nres = Inr False" using node_closed g that assms(2) by simp
  have k: "I p2" if "cres = Inr False" using class_closed c that p1 by simp
  have s: "gate_priority_class L E False p1 = (Inr False, p1)" by (simp add: gate_priority_class_def)
  consider (failed) d where "nres = Inl d" | (closed) "nres = Inr False" | (opened) "nres = Inr True"
    by (cases nres) auto
  then have "case res of Inl _ \<Rightarrow> G q | Inr (ready, _) \<Rightarrow> if ready then J q else I q"
  proof cases
    case opened
    then show ?thesis using assms(1) g c m p2 p3 k by (auto simp: pass_prefix_def split: sum.splits if_splits)
  qed (use assms(1) g s p1 n in \<open>auto simp: pass_prefix_def\<close>)
  then show "res = Inl e \<Longrightarrow> G q" "res = Inr (True, pair) \<Longrightarrow> J q" "res = Inr (False, pair) \<Longrightarrow> I q"
    by (auto split: prod.splits)
qed

lemma workload:
  assumes "reconcile_workload L V E p = (res, q)" "ps_sw p = base" "G p"
  shows "K q"
proof -
  obtain pres p1 where x: "pass_prefix L V E p = (pres, p1)" by (cases "pass_prefix L V E p")
  note p1 = prefix [OF x assms(3)]
  obtain ready cpu mem where t: "projr pres = (ready, cpu, mem)" by (cases "projr pres")
  obtain mres p2 where m: "manage_phantom L V E (pass_desired L (ps_sw p) cpu mem) (pollInterval (ps_sw p)) p1 = (mres, p2)"
    by (cases "manage_phantom L V E (pass_desired L (ps_sw p) cpu mem) (pollInterval (ps_sw p)) p1")
  have p2: "I p2" if "pres = Inr (True, cpu, mem)" by (rule pod_managed [OF m p1(2) [OF that]])
  show ?thesis
    using assms(1,2) x t m p1 p2 status_reported report_skipped
    by (cases pres) (auto simp: reconcile_workload_phases split: if_splits prod.splits sum.splits managed.splits)
qed

end

locale pass_invariant =
  fixes L :: "'q lib" and V :: "'v vec_lib" and E :: "('q, 'w) cluster"
    and base :: "'q ShadowWorkload" and I :: "('q, 'v, 'w) pass \<Rightarrow> bool"
  assumes gate_node: "gate_node L E p = (nres, q) \<Longrightarrow> I p \<Longrightarrow> I q"
    and gate_class: "gate_priority_class L E ready p = (cres, q) \<Longrightarrow> I p \<Longrightarrow> I q"
    and measured: "measure L V E p = (pair, q) \<Longrightarrow> I p \<Longrightarrow> I q"
    and managed: "manage_phantom L V E d poll p = (mres, q) \<Longrightarrow> I p \<Longrightarrow> I q"
    and reported: "pass_suffix L V E base obs imm p = (res, q) \<Longrightarrow> I p \<Longrightarrow> I q"

sublocale pass_invariant \<subseteq> pass_phases L V E base I I I I
  by unfold_locales (fact gate_node gate_class measured managed reported | assumption)+

text \<open>A pass over a workload that was read runs from the initial state to a state with its trace and recorder.\<close>

lemma Reconcile_run:
  assumes "Reconcile L V E ns n rc w = (res, rc', t, w')" "api_GetShadowWorkload E ns n w = (Inr sw, w0)"
  obtains res' q where "reconcile_workload L V E (initial_pass sw rc w0) = (res', q)"
    "ps_metrics q = rc'" "ps_trace q = t"
proof -
  obtain res' q where "reconcile_workload L V E (initial_pass sw rc w0) = (res', q)"
    by (cases "reconcile_workload L V E (initial_pass sw rc w0)")
  then show thesis using assms that by (auto simp: Reconcile_def)
qed

end
