(* ===== verification/Recorder_Pass.thy ===== *)
theory Recorder_Pass
  imports Pass_Invariant
begin

text \<open>
  The recorder across a pass: every step of the reconciler keeps the recorder's invariant,
  and the series it touches are those of the workload it reconciles.
\<close>

definition metrics_ok :: "'v vec_lib \<Rightarrow> ('q, 'v, 'w) pass \<Rightarrow> bool" where
  "metrics_ok V p \<longleftrightarrow> pred_option (recorder_ok V) (ps_metrics p)"

lemma metrics_ok_frame [simp]:
  "metrics_ok V (setDegraded r m p) = metrics_ok V p" "metrics_ok V (setReady r p) = metrics_ok V p"
  "metrics_ok V (Eventf E ty r m p) = metrics_ok V p" "metrics_ok V (with_status f p) = metrics_ok V p"
  "metrics_ok V (warnOnDegradedTransition L E r m p) = metrics_ok V p"
  "metrics_ok V (p\<lparr>ps_world := w\<rparr>) = metrics_ok V p"
  "metrics_ok V (p\<lparr>ps_world := w, ps_trace := t\<rparr>) = metrics_ok V p"
  "metrics_ok V (report_conditions L p) = metrics_ok V p"
  by (simp_all add: metrics_ok_def report_conditions_def Let_def)

lemma metrics_ok_ops:
  assumes "vec_laws V" "metrics_ok V p"
  shows "metrics_ok V (with_metrics (\<lambda>r. MeasurementFailed V r ns n fr) p)"
    "metrics_ok V (with_metrics (\<lambda>r. ReservationUpdated V r ns n) p)"
    "metrics_ok V (with_metrics (\<lambda>r. SetReserved V r ns n c m) p)"
    "metrics_ok V (with_metrics (\<lambda>r. ObservedMeasurement V r ns n c m) p)"
    "metrics_ok V (with_metrics (\<lambda>r. MeasurementSucceeded V r ns n t) p)"
    "metrics_ok V (measure_failed V fr dr msg p)"
  using assms by (simp_all add: metrics_ok_def recorder_ok_ops measure_failed_def Let_def)

lemma gate_metrics_ok:
  "gate_node L E p = (res, q) \<Longrightarrow> metrics_ok V p \<Longrightarrow> metrics_ok V q"
  "gate_priority_class L E ok p = (res', q) \<Longrightarrow> metrics_ok V p \<Longrightarrow> metrics_ok V q"
  by (auto simp: gate_node_def gate_priority_class_def request_eq Let_def
      split: sum.splits if_splits prod.splits)

lemma measure_metrics_ok:
  assumes "measure L V E p = (pair, q)" "vec_laws V" "metrics_ok V p"
  shows "metrics_ok V q"
  using assms
  by (cases rule: measure_cases)
    (auto simp: request_eq metrics_ok_ops, auto simp: metrics_ok_def recorder_ok_ops)

lemma resize_metrics_ok:
  assumes "resizeIfDrifting L V E pod name d h p = (pod', q)" "vec_laws V" "metrics_ok V p"
  shows "metrics_ok V q"
  using assms
  by (cases rule: resizeIfDrifting_cases) (auto simp: metrics_ok_def recorder_ok_ops)

lemma resolve_metrics_ok:
  "resolveCreateConflict L E name poll p = (res, q) \<Longrightarrow> metrics_ok V p \<Longrightarrow> metrics_ok V q"
  by (auto simp: resolveCreateConflict_def request_eq Let_def split: sum.splits if_splits prod.splits)

lemma create_metrics_ok:
  assumes "createOrRecoverPhantom L V E name d poll p = (res, q)" "vec_laws V" "metrics_ok V p"
  shows "metrics_ok V q"
  using assms resolve_metrics_ok
  by (fastforce simp: createOrRecoverPhantom_def request_eq Let_def metrics_ok_ops
      split: sum.splits if_splits prod.splits)

lemma manage_metrics_ok:
  assumes "manage_phantom L V E d poll p = (res, q)" "vec_laws V" "metrics_ok V p"
  shows "metrics_ok V q"
  using assms
  by (auto simp: manage_phantom_def request_eq Let_def metrics_ok_ops
      split: sum.splits if_splits prod.splits dest: create_metrics_ok resize_metrics_ok)

lemma report_metrics_ok: "vec_laws V \<Longrightarrow> metrics_ok V p \<Longrightarrow> metrics_ok V (report_currents L V obs p)"
  by (auto simp: report_currents_def Let_def metrics_ok_ops split: option.split)

lemma suffix_metrics_ok:
  assumes "pass_suffix L V E sw obs imm p = (res, q)" "vec_laws V" "metrics_ok V p"
  shows "metrics_ok V q"
  using assms report_metrics_ok [OF assms(2,3), of L obs]
  by (auto simp: pass_suffix_def request_eq Let_def split: option.splits)

interpretation recorder: pass_invariant L V E sw "\<lambda>p. vec_laws V \<longrightarrow> metrics_ok V p" for L V E sw
  by (rule pass_invariant.intro)
    (blast dest: gate_metrics_ok measure_metrics_ok manage_metrics_ok suffix_metrics_ok)+

lemma Reconcile_recorder_ok:
  assumes "Reconcile L V E ns n rc w = (res, rc', t, w')" "vec_laws V" "pred_option (recorder_ok V) rc"
  shows "pred_option (recorder_ok V) rc'"
proof (cases "api_GetShadowWorkload E ns n w")
  case (Pair a w0)
  show ?thesis
  proof (cases a)
    case (Inl e)
    then show ?thesis using assms Pair by (auto simp: Reconcile_def recorder_ok_ops split: if_splits)
  next
    case (Inr sw)
    obtain res' q where "reconcile_workload L V E (initial_pass sw rc w0) = (res', q)" "ps_metrics q = rc'"
      by (rule Reconcile_run [OF assms(1)]) (use Pair Inr in simp)+
    then show ?thesis using recorder.workload [of L V E _ res' q sw] assms(2,3) by (fastforce simp: metrics_ok_def)
  qed
qed

end
