(* ===== verification/Pass_Facts.thy ===== *)
theory Pass_Facts
  imports Reconciler_Report Recorder_Pass
begin

text \<open>
  Facts that the properties of a pass share: what the summaries of a trace
  (\<open>measured_in\<close>, \<open>resized_in\<close>) say of its requests, the pod the builder returns, and the
  status patch as the last request of its pass.
\<close>

lemma measured_in_query: "measured_in t = Some r \<Longrightarrow> \<exists>q. CQueryPair q (Inr r) \<in> set t"
  by (induction t rule: measured_in.induct) auto

lemma measured_in_None: "measured_in t = None \<Longrightarrow> CQueryPair q (Inr r) \<notin> set t"
  by (induction t rule: measured_in.induct) auto

lemma resized_in_None: "resized_in t = None \<Longrightarrow> CPatchResize b m (Inr pod) \<notin> set t"
  by (induction t rule: resized_in.induct) auto

lemma resized_in_call: "resized_in t = Some pod \<Longrightarrow> \<exists>b m. CPatchResize b m (Inr pod) \<in> set t"
  by (induction t rule: resized_in.induct) auto

lemma query_resolved:
  assumes "pass_ok L sw p" "CQueryPair q a \<in> set (ps_trace p)"
  shows "Resolve (sw_Spec sw) = Inr q"
proof -
  obtain u t where "ps_trace p = u @ CQueryPair q a # t" using split_list [OF assms(2)] by blast
  then have "call_ok L sw t (CQueryPair q a)" using assms(1) trace_ok_split by (fastforce simp: pass_ok_def)
  then show ?thesis by simp
qed

lemma BuildPhantomPod_pod:
  assumes "BuildPhantomPod L sw d = Inr pod" and "owner_laws L"
  shows "k_GetControllerOf L pod = Some (controller_ref sw)"
    and "pod_Name pod = PhantomName (sw_Name sw)" "pod_Namespace pod = sw_Namespace sw"
    and "pod_NodeName pod = spec_Node (sw_Spec sw)" "pod_Containers pod = [phantom_container d]"
    and "pod_PriorityClassName pod = BallastPriorityClassName"
    and "pod_Labels pod LabelManagedBy = Some ManagedByValue"
    and "pod_AutomountServiceAccountToken pod = Some False"
    and "pod_SeccompProfile pod = Some ''RuntimeDefault''"
proof -
  obtain p0 where "k_SetControllerReference L sw p0 = Inr pod"
    and p0: "pod_Name p0 = PhantomName (sw_Name sw)" "pod_Namespace p0 = sw_Namespace sw"
      "pod_NodeName p0 = spec_Node (sw_Spec sw)" "pod_Containers p0 = [phantom_container d]"
      "pod_PriorityClassName p0 = BallastPriorityClassName"
      "pod_Labels p0 LabelManagedBy = Some ManagedByValue"
      "pod_AutomountServiceAccountToken p0 = Some False" "pod_SeccompProfile p0 = Some ''RuntimeDefault''"
    using assms(1)
    by (auto simp: BuildPhantomPod_def Let_def LabelManagedBy_def LabelShadowWorkload_def split: sum.splits)
  then have k: "k_GetControllerOf L pod = Some (controller_ref sw)"
    and e: "pod = p0\<lparr>pod_OwnerReferences := pod_OwnerReferences pod\<rparr>"
    using assms(2) unfolding owner_laws_def by blast+
  show "k_GetControllerOf L pod = Some (controller_ref sw)" by (rule k)
  show "pod_Name pod = PhantomName (sw_Name sw)" "pod_Namespace pod = sw_Namespace sw"
    "pod_NodeName pod = spec_Node (sw_Spec sw)" "pod_Containers pod = [phantom_container d]"
    "pod_PriorityClassName pod = BallastPriorityClassName"
    "pod_Labels pod LabelManagedBy = Some ManagedByValue"
    "pod_AutomountServiceAccountToken pod = Some False" "pod_SeccompProfile pod = Some ''RuntimeDefault''"
    by (subst e, simp add: p0)+
qed

lemma controller_ref_same: "same_object sw sw' \<Longrightarrow> controller_ref sw' = controller_ref sw"
  by (simp add: controller_ref_def same_objectD)

lemma controller_ref_owned: "k_GetControllerOf L pod = Some (controller_ref sw) \<Longrightarrow> ownedBySw L pod sw"
  by (simp add: ownedBySw_def controller_ref_def)

lemma Reconcile_patch_at:
  fixes E :: "('q, 'w) cluster"
  assumes "Reconcile L V E ns n rc w = (res, rc', later @ CPatchStatus b s a # t, w')"
  obtains w0 obs imm and p :: "('q, 'v, 'w) pass" where
    "api_GetShadowWorkload E ns n w = (Inr b, w0)" "pass_ok L b p"
    "obs = None \<longrightarrow> resized_in (ps_trace p) = None \<and> ps_degradedReason p \<noteq> []"
    "\<And>pod. obs = Some pod \<Longrightarrow> \<not> imm \<and> pod_observed b (ps_trace p) pod"
    "later = []" "t = ps_trace p" "s = ps_sw (reported L V obs p)"
proof (rule Reconcile_patch [OF assms])
  fix w0 obs imm and p :: "('q, 'v, 'w) pass"
  assume p: "api_GetShadowWorkload E ns n w = (Inr b, w0)" "pass_ok L b p"
    "obs = None \<longrightarrow> resized_in (ps_trace p) = None \<and> ps_degradedReason p \<noteq> []"
    "\<And>pod. obs = Some pod \<Longrightarrow> \<not> imm \<and> pod_observed b (ps_trace p) pod"
    "later @ CPatchStatus b s a # t = CPatchStatus b s a # ps_trace p"
    "s = ps_sw (reported L V obs p)"
  have l: "later = []"
  proof (cases later)
    case (Cons c l)
    then have "ps_trace p = l @ CPatchStatus b s a # t" using p(5) by simp
    then show ?thesis using no_status_patch [OF p(2), of b s a] by (metis in_set_conv_decomp)
  qed simp
  show thesis by (rule that [OF p(1-4) l]) (use p(5,6) l in auto)
qed simp

text \<open>Every request of a pass but the status patch, wherever it is in the trace.\<close>

lemma Reconcile_read:
  assumes "Reconcile L V E ns n rc w = (res, rc', t, w')" "c \<in> set t"
  obtains sw w0 where "api_GetShadowWorkload E ns n w = (Inr sw, w0)"
  using assms by (auto elim: Reconcile_cases)

lemma Reconcile_member:
  assumes "Reconcile L V E ns n rc w = (res, rc', t, w')" "api_GetShadowWorkload E ns n w = (Inr sw, w0)"
    and "c \<in> set t" "\<And>b s a. c \<noteq> CPatchStatus b s a"
  shows "\<exists>u. call_ok L sw u c"
proof -
  from split_list [OF assms(3)] obtain later earlier where t: "t = later @ c # earlier" by blast
  show ?thesis
    using Reconcile_call [of L V E ns n rc w res rc' later c earlier w'] assms(1,2,4) unfolding t by auto
qed

definition gated_call :: "'q api_call \<Rightarrow> bool" where
  "gated_call c =
     (case c of CQueryPair _ _ \<Rightarrow> True | CCreatePod _ _ \<Rightarrow> True | CDeletePod _ _ _ \<Rightarrow> True
      | CPatchResize _ _ _ \<Rightarrow> True | _ \<Rightarrow> False)"

text \<open>A pod the API server showed in a pass: read, created, or resized.\<close>

definition shown_in :: "'q ShadowWorkload \<Rightarrow> 'q api_call list \<Rightarrow> 'q pod \<Rightarrow> bool" where
  "shown_in sw t pod \<longleftrightarrow>
     CGetPod Cached (sw_Namespace sw) (PhantomName (sw_Name sw)) (Inr pod) \<in> set t \<or>
     (\<exists>f. CCreatePod f (Inr pod) \<in> set t) \<or> (\<exists>b m. CPatchResize b m (Inr pod) \<in> set t)"

text \<open>What a failed measurement leaves: the clamped zero pair, which is the floor.\<close>

definition policy_ok :: "('q \<Rightarrow> rat) \<Rightarrow> 'q UpdatePolicy \<Rightarrow> bool" where
  "policy_ok val u \<longleftrightarrow>
     0 \<le> val (rp_CPU (up_Floor u)) \<and> val (rp_CPU (up_Floor u)) \<le> val (rp_CPU (up_Ceiling u)) \<and>
     0 \<le> val (rp_Memory (up_Floor u)) \<and> val (rp_Memory (up_Floor u)) \<le> val (rp_Memory (up_Ceiling u))"

lemma clamped_zero_is_floor:
  assumes "quantity_laws L val" "policy_ok val u"
  defines "D \<equiv> Clamp L (PairOf L (FFin 0) (FFin 0)) (up_Floor u) (up_Ceiling u)"
  shows "val (rp_CPU D) = val (rp_CPU (up_Floor u))" "val (rp_Memory D) = val (rp_Memory (up_Floor u))"
  using assms PairOf_zero [OF assms(1)]
  by (simp_all add: policy_ok_def Clamp_def val_clampQuantity [OF assms(1)])

end
