(* ===== verification/Query_Reading.thy ===== *)
theory Query_Reading
  imports Sources
begin

text \<open>
  What the generated query texts mean.  A reader for the query shapes the code emits is
  written after PromQL's documented rules (label literals with Go escapes and no raw
  newline, comma-separated matchers, range selectors; regular-expression matchers are
  anchored at both ends): reading back a generated query yields exactly the intended
  matchers, whatever bytes the job, the instance or the path contain, so no field of a
  ShadowWorkload can break out of its literal.
\<close>

section \<open>Label literals\<close>

fun read_body :: "string \<Rightarrow> (string \<times> string) option" where
  "read_body [] = None"
| "read_body (c # cs) =
     (if c = CHR 0x22 then Some ([], cs)
      else if c = CHR 0x0A then None
      else if c = CHR 0x5C then
        (case cs of
           [] \<Rightarrow> None
         | e # es \<Rightarrow> if e = CHR 0x5C \<or> e = CHR 0x22
                     then map_option (\<lambda>(v, r). (e # v, r)) (read_body es) else None)
      else map_option (\<lambda>(v, r). (c # v, r)) (read_body cs))"

definition read_label :: "string \<Rightarrow> (string \<times> string) option" where
  "read_label s = (case s of c # cs \<Rightarrow> if c = CHR 0x22 then read_body cs else None | [] \<Rightarrow> None)"

definition label_escape :: "char \<Rightarrow> string" where
  "label_escape c = (if c = CHR 0x5C \<or> c = CHR 0x22 then [CHR 0x5C, c] else [c])"

lemma promLabel_eq:
  "promLabel v = [CHR 0x22] @ concat (map label_escape v) @ [CHR 0x22]"
proof -
  have "replace_byte (CHR 0x22) [CHR 0x5C, CHR 0x22] (replace_byte (CHR 0x5C) [CHR 0x5C, CHR 0x5C] v)
      = concat (map label_escape v)"
    by (induction v) (auto simp: label_escape_def)
  then show ?thesis by (simp add: promLabel_def Let_def)
qed

lemma read_body_escape:
  "CHR 0x0A \<notin> set v \<Longrightarrow>
     read_body (concat (map label_escape v) @ CHR 0x22 # rest) = Some (v, rest)"
  by (induction v) (auto simp: label_escape_def)

lemma read_label_promLabel:
  "CHR 0x0A \<notin> set v \<Longrightarrow> read_label (promLabel v @ rest) = Some (v, rest)"
  by (simp add: promLabel_eq read_label_def read_body_escape)

section \<open>Matchers and range queries\<close>

datatype matcher = MEq string string | MRe string string

definition strip_prefix :: "string \<Rightarrow> string \<Rightarrow> string option" where
  "strip_prefix p s = (if take (length p) s = p then Some (drop (length p) s) else None)"

lemma strip_prefix_append [simp]: "strip_prefix p (p @ s) = Some s"
  by (simp add: strip_prefix_def)

definition read_matcher :: "string \<Rightarrow> (matcher \<times> string) option" where
  "read_matcher s =
     (let name = takeWhile (\<lambda>c. c \<noteq> CHR ''='') s
      in case dropWhile (\<lambda>c. c \<noteq> CHR ''='') s of
           _ # CHR ''~'' # t \<Rightarrow> map_option (\<lambda>(v, r). (MRe name v, r)) (read_label t)
         | _ # t \<Rightarrow> map_option (\<lambda>(v, r). (MEq name v, r)) (read_label t)
         | [] \<Rightarrow> None)"

text \<open>Matchers up to the closing brace; every matcher takes at least one byte of fuel.\<close>

fun read_matchers :: "nat \<Rightarrow> string \<Rightarrow> (matcher list \<times> string) option" where
  "read_matchers 0 s = None"
| "read_matchers (Suc n) s =
     (case read_matcher s of
        Some (m, CHR '','' # t) \<Rightarrow> map_option (\<lambda>(ms, r). (m # ms, r)) (read_matchers n t)
      | Some (m, CHR ''}'' # t) \<Rightarrow> Some ([m], t)
      | _ \<Rightarrow> None)"

definition read_selector :: "string \<Rightarrow> ((string \<times> matcher list) \<times> string) option" where
  "read_selector s =
     (let name = takeWhile (\<lambda>c. c \<noteq> CHR ''{'') s
      in case dropWhile (\<lambda>c. c \<noteq> CHR ''{'') s of
           _ # t \<Rightarrow> map_option (\<lambda>(ms, r). ((name, ms), r)) (read_matchers (length s) t)
         | [] \<Rightarrow> None)"

text \<open>\<open>sum(f(selector[window]))\<close> for the range function \<open>f\<close>.\<close>

definition read_range_query :: "string \<Rightarrow> string \<Rightarrow> (string \<times> matcher list \<times> string) option" where
  "read_range_query f s =
     (case strip_prefix (''sum('' @ f @ ''('') s of
        None \<Rightarrow> None
      | Some t \<Rightarrow>
          (case read_selector t of
             Some ((name, ms), CHR ''['' # u) \<Rightarrow>
               (if dropWhile (\<lambda>c. c \<noteq> CHR '']'') u = '']))''
                then Some (name, ms, takeWhile (\<lambda>c. c \<noteq> CHR '']'') u) else None)
           | _ \<Rightarrow> None))"

fun print_matcher :: "matcher \<Rightarrow> string" where
  "print_matcher (MEq n v) = n @ ''='' @ promLabel v"
| "print_matcher (MRe n v) = n @ ''=~'' @ promLabel v"

fun matcher_ok :: "matcher \<Rightarrow> bool" where
  "matcher_ok (MEq n v) = (CHR ''='' \<notin> set n \<and> CHR 0x0A \<notin> set v)"
| "matcher_ok (MRe n v) = (CHR ''='' \<notin> set n \<and> CHR 0x0A \<notin> set v)"

lemma takeWhile_stop: "c \<notin> set n \<Longrightarrow> takeWhile (\<lambda>x. x \<noteq> c) (n @ c # s) = n"
  by (induction n) auto

lemma dropWhile_stop: "c \<notin> set n \<Longrightarrow> dropWhile (\<lambda>x. x \<noteq> c) (n @ c # s) = c # s"
  by (induction n) auto

lemma promLabel_Cons: "promLabel v @ r = CHR 0x22 # (tl (promLabel v) @ r)"
  by (simp add: promLabel_eq)

lemma read_matcher_print: "matcher_ok m \<Longrightarrow> read_matcher (print_matcher m @ r) = Some (m, r)"
proof (cases m)
  case (MEq n v)
  assume "matcher_ok m"
  then have "read_label (CHR 0x22 # (tl (promLabel v) @ r)) = Some (v, r)"
    using read_label_promLabel [of v r] by (simp add: MEq promLabel_Cons [of v r])
  with \<open>matcher_ok m\<close> show ?thesis
    by (simp add: MEq read_matcher_def takeWhile_stop dropWhile_stop promLabel_Cons [of v r] Let_def)
next
  case (MRe n v)
  assume "matcher_ok m"
  then show ?thesis
    by (simp add: MRe read_matcher_def takeWhile_stop dropWhile_stop Let_def read_label_promLabel)
qed

text \<open>A non-empty matcher list as the code prints it, closing brace included.\<close>

fun print_matchers :: "matcher list \<Rightarrow> string" where
  "print_matchers [] = ''}''"
| "print_matchers [m] = print_matcher m @ ''}''"
| "print_matchers (m # ms) = print_matcher m @ '','' @ print_matchers ms"

lemma read_matchers_print:
  "list_all matcher_ok ms \<Longrightarrow> ms \<noteq> [] \<Longrightarrow> length ms \<le> n \<Longrightarrow>
     read_matchers n (print_matchers ms @ r) = Some (ms, r)"
proof (induction ms arbitrary: n rule: print_matchers.induct)
  case (2 m)
  then show ?case by (cases n) (simp_all add: read_matcher_print)
next
  case (3 m m' ms)
  then show ?case by (cases n) (simp_all add: read_matcher_print)
qed simp

lemma length_print_matchers: "length ms \<le> length (print_matchers ms)"
  by (induction ms rule: print_matchers.induct) auto

lemma read_selector_print:
  assumes "CHR ''{'' \<notin> set n" "list_all matcher_ok ms" "ms \<noteq> []"
  shows "read_selector (n @ ''{'' @ print_matchers ms @ r) = Some ((n, ms), r)"
proof -
  let ?t = "print_matchers ms @ r"
  have "length ms \<le> length (n @ CHR ''{'' # ?t)" using length_print_matchers [of ms] by simp
  from read_matchers_print [OF assms(2,3) this, of r] show ?thesis
    using takeWhile_stop [OF assms(1), of ?t] dropWhile_stop [OF assms(1), of ?t]
    by (simp add: read_selector_def Let_def)
qed

lemma read_range_query_print:
  assumes "CHR ''{'' \<notin> set n" "list_all matcher_ok ms" "ms \<noteq> []" "CHR '']'' \<notin> set w"
  shows "read_range_query f (''sum('' @ f @ ''('' @ n @ ''{'' @ print_matchers ms @ ''['' @ w @ '']))'')
       = Some (n, ms, w)"
proof -
  have "strip_prefix (''sum('' @ f @ ''('') ((''sum('' @ f @ ''('') @ s) = Some s" for s
    by (rule strip_prefix_append)
  then have "strip_prefix (''sum('' @ f @ ''('') (''sum('' @ f @ ''('' @ s) = Some s" for s
    by (simp only: append_assoc)
  then show ?thesis
    using read_selector_print [OF assms(1-3), of "''['' @ w @ '']))''"]
      takeWhile_stop [OF assms(4)] dropWhile_stop [OF assms(4)]
    by (simp only: read_range_query_def option.case prod.case append_Cons append_Nil) simp
qed

section \<open>What a resolved host source selects\<close>

definition id_matcher :: "string \<Rightarrow> bool \<Rightarrow> matcher" where
  "id_matcher path glob = (if glob then MRe ''id'' (glob_pattern path) else MEq ''id'' path)"

lemma windowPattern_bytes: "rx_match windowPattern w \<Longrightarrow> c \<in> set w \<Longrightarrow> is_digit c \<or> c \<in> set ''.msh''"
  by (drule (1) rx_match_bytes) (auto simp: windowPattern_def RPlus_def ROpt_def)

lemma window_no_bracket: "rx_match windowPattern w \<Longrightarrow> CHR '']'' \<notin> set w"
  by (auto dest!: windowPattern_bytes simp: is_digit_def)

lemma QuoteMeta_bytes: "set (QuoteMeta s) \<subseteq> insert (CHR 0x5C) (set s)"
  by (induction s) auto

lemma replace_pair_bytes: "set (replace_pair a b new s) \<subseteq> set new \<union> set s"
  by (induction a b new s rule: replace_pair.induct) auto

lemma glob_pattern_no_newline: "CHR 0x0A \<notin> set p \<Longrightarrow> CHR 0x0A \<notin> set (glob_pattern p)"
  using QuoteMeta_bytes [of p]
    replace_pair_bytes [of "CHR 0x5C" "CHR ''*''" "''[^/]*''" "QuoteMeta p"]
  by (auto simp: glob_pattern_def Let_def)

lemma matcher_ok_id: "CHR 0x0A \<notin> set p \<Longrightarrow> matcher_ok (id_matcher p g)"
  by (simp add: id_matcher_def glob_pattern_no_newline)

lemma cpu_query_reads:
  assumes "list_all matcher_ok ms" "ms \<noteq> []" "rx_match windowPattern w"
  shows "read_range_query ''rate'' (cpu_query (''{'' @ print_matchers ms) w)
           = Some (''container_cpu_usage_seconds_total'', ms, w)"
  using read_range_query_print [OF _ assms(1,2) window_no_bracket [OF assms(3)],
      of "''container_cpu_usage_seconds_total''" "''rate''"]
  by (simp add: cpu_query_def)

lemma memory_query_reads:
  assumes "list_all matcher_ok ms" "ms \<noteq> []" "rx_match windowPattern w"
  shows "read_range_query ''avg_over_time'' (memory_query (''{'' @ print_matchers ms) w)
           = Some (''container_memory_working_set_bytes'', ms, w)"
  using read_range_query_print [OF _ assms(1,2) window_no_bracket [OF assms(3)],
      of "''container_memory_working_set_bytes''" "''avg_over_time''"]
  by (simp add: memory_query_def)

text \<open>The queries of a bundle denote a CPU rate and a memory average over the same matchers.\<close>

definition reads_as :: "Queries \<Rightarrow> matcher list \<Rightarrow> string \<Rightarrow> bool" where
  "reads_as q ms w \<longleftrightarrow>
     read_range_query ''rate'' (q_CPUCores q)
       = Some (''container_cpu_usage_seconds_total'', ms, w) \<and>
     read_range_query ''avg_over_time'' (q_MemoryBytes q)
       = Some (''container_memory_working_set_bytes'', ms, w)"

definition target_matchers :: "string \<Rightarrow> string \<Rightarrow> matcher list" where
  "target_matchers job inst = [MEq ''job'' (cadvisorJob job), MEq ''instance'' inst]"

lemma targetHealthQuery_reads:
  assumes "CHR 0x0A \<notin> set job" "CHR 0x0A \<notin> set inst"
  shows "read_selector (targetHealthQuery (cadvisorJob job) inst)
           = Some ((''up'', target_matchers job inst), [])"
  using read_selector_print [of "''up''" "target_matchers job inst" "[]"] assms
  by (simp add: targetHealthQuery_def target_matchers_def cadvisorJob_def)

lemma resolveHostCgroup_reads:
  assumes res: "resolveHostCgroup path glob job inst w = Inr q"
    and nl: "CHR 0x0A \<notin> set job" "CHR 0x0A \<notin> set inst" "CHR 0x0A \<notin> set path"
  shows "reads_as q (target_matchers job inst @ [id_matcher path glob]) w"
    and "q_TargetHealth q = targetHealthQuery (cadvisorJob job) inst"
proof -
  let ?ms = "target_matchers job inst @ [id_matcher path glob]"
  have w: "rx_match windowPattern w" using res by (auto simp: resolveHostCgroup_def split: if_splits)
  have ok: "list_all matcher_ok ?ms"
    using nl matcher_ok_id by (simp add: target_matchers_def cadvisorJob_def)
  have q: "q_CPUCores q = cpu_query (''{'' @ print_matchers ?ms) w"
    "q_MemoryBytes q = memory_query (''{'' @ print_matchers ?ms) w"
    using res
    by (auto simp: resolveHostCgroup_def Let_def id_matcher_def target_matchers_def split: if_splits)
  show "reads_as q ?ms w"
    unfolding reads_as_def q using cpu_query_reads [OF ok _ w] memory_query_reads [OF ok _ w] by simp
  show "q_TargetHealth q = targetHealthQuery (cadvisorJob job) inst"
    using res by (auto simp: resolveHostCgroup_def Let_def split: if_splits)
qed

lemma resolveDocker_reads:
  assumes res: "resolveDocker dk w = Inr q"
    and nl: "CHR 0x0A \<notin> set (dk_CadvisorJob dk)" "CHR 0x0A \<notin> set (dk_CadvisorInstance dk)"
  shows "reads_as q (target_matchers (dk_CadvisorJob dk) (dk_CadvisorInstance dk) @
           [MRe ''id'' ''/system.slice/docker-.*'']) w"
    and "q_TargetHealth q = targetHealthQuery (cadvisorJob (dk_CadvisorJob dk)) (dk_CadvisorInstance dk)"
proof -
  let ?ms = "target_matchers (dk_CadvisorJob dk) (dk_CadvisorInstance dk) @
    [MRe ''id'' ''/system.slice/docker-.*'']"
  have w: "rx_match windowPattern w" using res by (auto simp: resolveDocker_def split: if_splits)
  have ok: "list_all matcher_ok ?ms"
    using nl by (simp add: target_matchers_def cadvisorJob_def)
  have q: "q_CPUCores q = cpu_query (''{'' @ print_matchers ?ms) w"
    "q_MemoryBytes q = memory_query (''{'' @ print_matchers ?ms) w"
    using res
    by (auto simp: resolveDocker_def Let_def target_matchers_def dockerCgroupIDSelector_def
      promLabel_eq label_escape_def split: if_splits)
  show "reads_as q ?ms w"
    unfolding reads_as_def q using cpu_query_reads [OF ok _ w] memory_query_reads [OF ok _ w] by simp
  show "q_TargetHealth q = targetHealthQuery (cadvisorJob (dk_CadvisorJob dk)) (dk_CadvisorInstance dk)"
    using res by (auto simp: resolveDocker_def Let_def split: if_splits)
qed

section \<open>Globs\<close>

text \<open>A star stands for any run of bytes within one path segment, any other byte for itself.\<close>

fun glob_match :: "string \<Rightarrow> string \<Rightarrow> bool" where
  "glob_match [] t = (t = [])"
| "glob_match (p # ps) [] = (p = CHR ''*'' \<and> glob_match ps [])"
| "glob_match (p # ps) (c # cs) =
     (if p = CHR ''*'' then glob_match ps (c # cs) \<or> c \<noteq> CHR ''/'' \<and> glob_match (p # ps) cs
      else c = p \<and> glob_match ps cs)"

definition glob_piece :: "char \<Rightarrow> string" where
  "glob_piece c = (if c = CHR ''*'' then ''[^/]*'' else if regexp_special c then [CHR 0x5C, c] else [c])"

definition glob_rx :: "string \<Rightarrow> rx" where
  "glob_rx ps = foldr (\<lambda>p r. RSeq (if p = CHR ''*'' then RStar (RCls (\<lambda>x. x \<noteq> CHR ''/''))
                                    else RCls (\<lambda>x. x = p)) r) ps REps"

lemma replace_pair_other: "x \<noteq> a \<Longrightarrow> replace_pair a b new (x # xs) = x # replace_pair a b new xs"
  by (cases xs) auto

lemma glob_pattern_pieces:
  "CHR 0x5C \<notin> set p \<Longrightarrow> glob_pattern p = ''^'' @ concat (map glob_piece p) @ ''$''"
proof -
  assume "CHR 0x5C \<notin> set p"
  then have "replace_pair (CHR 0x5C) (CHR ''*'') ''[^/]*'' (QuoteMeta p) = concat (map glob_piece p)"
    by (induction p) (auto simp: glob_piece_def regexp_special_def replace_pair_other)
  then show ?thesis by (simp add: glob_pattern_def Let_def)
qed

lemma re2_read_pieces:
  "re2_read (concat (map glob_piece p)) = Some (glob_rx p)"
  by (induction p) (auto simp: glob_piece_def glob_rx_def regexp_special_def)

lemma star_seq_Cons:
  "c # cs \<in> rx_lang (RSeq (RStar (RCls P)) r) \<longleftrightarrow>
     c # cs \<in> rx_lang r \<or> P c \<and> cs \<in> rx_lang (RSeq (RStar (RCls P)) r)"
proof -
  have seq: "w \<in> rx_lang (RSeq (RStar (RCls P)) r) \<longleftrightarrow>
      (\<exists>u v. w = u @ v \<and> (\<forall>x \<in> set u. P x) \<and> v \<in> rx_lang r)" for w
    unfolding rx_lang.simps(4) rx_lang_star_class by blast
  show ?thesis
  proof
    assume "c # cs \<in> rx_lang (RSeq (RStar (RCls P)) r)"
    then obtain u v where "c # cs = u @ v" "\<forall>x \<in> set u. P x" "v \<in> rx_lang r"
      unfolding seq by blast
    then show "c # cs \<in> rx_lang r \<or> P c \<and> cs \<in> rx_lang (RSeq (RStar (RCls P)) r)"
      unfolding seq by (cases u) auto
  next
    assume "c # cs \<in> rx_lang r \<or> P c \<and> cs \<in> rx_lang (RSeq (RStar (RCls P)) r)"
    then consider "c # cs \<in> rx_lang r"
      | u v where "P c" "cs = u @ v" "\<forall>x \<in> set u. P x" "v \<in> rx_lang r"
      unfolding seq by blast
    then show "c # cs \<in> rx_lang (RSeq (RStar (RCls P)) r)"
    proof cases
      case 1
      then show ?thesis unfolding seq
        by - (rule exI [of _ "[]"], rule exI [of _ "c # cs"], simp)
    next
      case (2 u v)
      then show ?thesis unfolding seq
        by - (rule exI [of _ "c # u"], rule exI [of _ v], simp)
    qed
  qed
qed

lemma glob_rx_lang: "t \<in> rx_lang (glob_rx p) \<longleftrightarrow> glob_match p t"
proof (induction p t rule: glob_match.induct)
  case (1 t)
  show ?case by (simp add: glob_rx_def)
next
  case (2 p ps)
  then show ?case by (auto simp: glob_rx_def intro: star_nil)
next
  case (3 p ps c cs)
  show ?case
  proof (cases "p = CHR ''*''")
    case True
    then have "glob_rx (p # ps) = RSeq (RStar (RCls (\<lambda>x. x \<noteq> CHR ''/''))) (glob_rx ps)"
      by (simp add: glob_rx_def)
    with True 3 star_seq_Cons [of c cs "\<lambda>x. x \<noteq> CHR ''/''" "glob_rx ps"] show ?thesis by auto
  next
    case False
    with 3 show ?thesis by (simp add: glob_rx_def)
  qed
qed

lemma glob_match_no_star: "CHR ''*'' \<notin> set p \<Longrightarrow> glob_match p t = (t = p)"
  by (induction p t rule: glob_match.induct) auto

section \<open>Selection\<close>

text \<open>Reading a pattern anchored at both ends, and which label sets a matcher list selects.\<close>

definition re2_full :: "string \<Rightarrow> rx option" where
  "re2_full p =
     (if p \<noteq> [] \<and> hd p = CHR ''^'' \<and> tl p \<noteq> [] \<and> last p = CHR ''$''
      then re2_read (butlast (tl p)) else None)"

fun matcher_selects :: "(string \<Rightarrow> string) \<Rightarrow> matcher \<Rightarrow> bool" where
  "matcher_selects lbl (MEq n v) = (lbl n = v)"
| "matcher_selects lbl (MRe n p) = (case re2_full p of Some r \<Rightarrow> rx_match r (lbl n) | None \<Rightarrow> False)"

definition selects :: "matcher list \<Rightarrow> (string \<Rightarrow> string) \<Rightarrow> bool" where
  "selects ms lbl = list_all (matcher_selects lbl) ms"

lemma glob_pattern_selects:
  assumes "CHR 0x5C \<notin> set p"
  shows "matcher_selects lbl (MRe n (glob_pattern p)) = glob_match p (lbl n)"
proof -
  have "re2_full (glob_pattern p) = Some (glob_rx p)"
    unfolding glob_pattern_pieces [OF assms] re2_full_def
    by (simp add: butlast_append re2_read_pieces)
  then show ?thesis by (simp add: rx_match_iff_lang glob_rx_lang)
qed

lemma id_matcher_selects:
  assumes "CHR 0x5C \<notin> set p" "g \<longleftrightarrow> CHR ''*'' \<in> set p"
  shows "matcher_selects lbl (id_matcher p g) = glob_match p (lbl ''id'')"
proof (cases g)
  case True
  with assms(1) show ?thesis
    by (simp add: id_matcher_def glob_pattern_selects del: matcher_selects.simps)
next
  case False
  with assms(2) show ?thesis by (simp add: id_matcher_def glob_match_no_star)
qed

lemma cgroupPathPattern_bytes: "rx_match cgroupPathPattern p \<Longrightarrow> c \<in> set p \<Longrightarrow> path_byte c"
  by (drule (1) rx_match_bytes) (auto simp: cgroupPathPattern_def RPlus_def path_byte_def)

lemma systemdUnitPattern_bytes: "rx_match systemdUnitPattern u \<Longrightarrow> c \<in> set u \<Longrightarrow> unit_byte c"
proof -
  assume "rx_match systemdUnitPattern u" "c \<in> set u"
  then have "unit_byte c \<or> c \<in> set ''.servicescope''"
    by (auto dest!: rx_match_bytes simp: systemdUnitPattern_def RPlus_def)
  moreover have "\<forall>c \<in> set ''.servicescope''. unit_byte c"
    by (simp add: unit_byte_def is_alnum_def)
  ultimately show ?thesis by blast
qed

lemma not_path_byte [simp]: "\<not> path_byte (CHR 0x5C)" "\<not> path_byte (CHR 0x0A)"
  by (simp_all add: path_byte_def is_alnum_def)

lemma not_unit_byte [simp]:
  "\<not> unit_byte (CHR 0x5C)" "\<not> unit_byte (CHR 0x0A)" "\<not> unit_byte (CHR ''*'')" "\<not> unit_byte (CHR ''/'')"
  by (simp_all add: unit_byte_def is_alnum_def)

section \<open>Resolved host sources\<close>

lemma resolveSystemd_host:
  assumes "resolveSystemd sd w = Inr q"
  shows "resolveHostCgroup (''/system.slice/'' @ sd_Unit sd) False (sd_CadvisorJob sd) (sd_CadvisorInstance sd) w = Inr q"
    and "CHR ''*'' \<notin> set (''/system.slice/'' @ sd_Unit sd)" "CHR 0x5C \<notin> set (''/system.slice/'' @ sd_Unit sd)"
    and "CHR 0x0A \<notin> set (''/system.slice/'' @ sd_Unit sd)"
  using assms by (auto simp: resolveSystemd_def split: if_splits dest: systemdUnitPattern_bytes)

lemma resolveCgroup_host:
  assumes "resolveCgroup cg w = Inr q"
  shows "resolveHostCgroup (cg_Path cg) (CHR ''*'' \<in> set (cg_Path cg)) (cg_CadvisorJob cg) (cg_CadvisorInstance cg) w = Inr q"
    and "CHR 0x5C \<notin> set (cg_Path cg)" "CHR 0x0A \<notin> set (cg_Path cg)"
  using assms
  by (auto simp: resolveCgroup_def contains_byte_def split: if_splits dest: cgroupPathPattern_bytes)

lemma resolved_host_queries:
  fixes spec :: "'q ShadowWorkloadSpec"
  assumes r: "Resolve spec = Inr q" and ty: "src_Type (spec_Source spec) \<in> {SourceTypeCgroup, SourceTypeSystemd}"
    and nl: "CHR 0x0A \<notin> set (ds_CadvisorJob (Describe spec))" "CHR 0x0A \<notin> set (ds_CadvisorInstance (Describe spec))"
  obtains ms where "reads_as q ms (mc_Window (spec_Metrics spec))"
    "\<And>lbl. selects ms lbl \<longleftrightarrow> lbl ''job'' = ds_CadvisorJob (Describe spec) \<and>
       lbl ''instance'' = ds_CadvisorInstance (Describe spec) \<and>
       glob_match (ds_CgroupPath (Describe spec)) (lbl ''id'')"
    "read_selector (q_TargetHealth q) = Some ((''up'', [MEq ''job'' (ds_CadvisorJob (Describe spec)),
       MEq ''instance'' (ds_CadvisorInstance (Describe spec))]), [])"
proof -
  have "\<exists>path glob job inst. resolveHostCgroup path glob job inst (mc_Window (spec_Metrics spec)) = Inr q \<and>
      path = ds_CgroupPath (Describe spec) \<and> cadvisorJob job = ds_CadvisorJob (Describe spec) \<and>
      inst = ds_CadvisorInstance (Describe spec) \<and> (glob \<longleftrightarrow> CHR ''*'' \<in> set path) \<and>
      CHR 0x5C \<notin> set path \<and> CHR 0x0A \<notin> set path"
  proof (cases "src_Type (spec_Source spec) = SourceTypeCgroup")
    case True
    then obtain cg where c: "src_Cgroup (spec_Source spec) = Some cg"
      "resolveCgroup cg (mc_Window (spec_Metrics spec)) = Inr q"
      using r by (auto simp: Resolve_def Let_def source_type_defs split: option.splits)
    have "Describe spec = \<lparr>ds_Type = SourceTypeCgroup, ds_CgroupPath = cg_Path cg,
        ds_CadvisorJob = cadvisorJob (cg_CadvisorJob cg), ds_CadvisorInstance = cg_CadvisorInstance cg\<rparr>"
      using True c by (simp add: Describe_def Let_def source_type_defs)
    with resolveCgroup_host [OF c(2)] show ?thesis by auto
  next
    case False
    then have ty': "src_Type (spec_Source spec) = SourceTypeSystemd" using ty by simp
    then obtain sd where c: "src_Systemd (spec_Source spec) = Some sd"
      "resolveSystemd sd (mc_Window (spec_Metrics spec)) = Inr q"
      using r by (auto simp: Resolve_def Let_def source_type_defs split: option.splits)
    have "Describe spec = \<lparr>ds_Type = SourceTypeSystemd, ds_CgroupPath = ''/system.slice/'' @ sd_Unit sd,
        ds_CadvisorJob = cadvisorJob (sd_CadvisorJob sd), ds_CadvisorInstance = sd_CadvisorInstance sd\<rparr>"
      using ty' c by (simp add: Describe_def Let_def source_type_defs)
    with resolveSystemd_host [OF c(2)] show ?thesis by auto
  qed
  then obtain path glob job inst where h:
    "resolveHostCgroup path glob job inst (mc_Window (spec_Metrics spec)) = Inr q"
    "path = ds_CgroupPath (Describe spec)" "cadvisorJob job = ds_CadvisorJob (Describe spec)"
    "inst = ds_CadvisorInstance (Describe spec)" "glob \<longleftrightarrow> CHR ''*'' \<in> set path"
    "CHR 0x5C \<notin> set path" "CHR 0x0A \<notin> set path" by blast
  have j: "CHR 0x0A \<notin> set job" using nl(1) h(3) by (auto simp: cadvisorJob_def split: if_splits)
  have i: "CHR 0x0A \<notin> set inst" using nl(2) h(4) by simp
  note reads = resolveHostCgroup_reads [OF h(1) j i h(7)]
  show thesis
  proof (rule that [OF reads(1)])
    show "selects (target_matchers job inst @ [id_matcher path glob]) lbl \<longleftrightarrow>
        lbl ''job'' = ds_CadvisorJob (Describe spec) \<and> lbl ''instance'' = ds_CadvisorInstance (Describe spec) \<and>
        glob_match (ds_CgroupPath (Describe spec)) (lbl ''id'')" for lbl
      using id_matcher_selects [OF h(6,5)] h by (simp add: selects_def target_matchers_def)
    show "read_selector (q_TargetHealth q) = Some ((''up'', [MEq ''job'' (ds_CadvisorJob (Describe spec)),
       MEq ''instance'' (ds_CadvisorInstance (Describe spec))]), [])"
      using reads(2) targetHealthQuery_reads [OF j i] h by (simp add: target_matchers_def)
  qed
qed

end
