(* ===== verification/Example_Cluster.thy ===== *)
theory Example_Cluster
  imports Reconciler_Report
begin

text \<open>
  Concrete instances of the parameters, on which hypotheses can be discharged: quantities as
  rationals, metric vectors as maps, conditions as association lists, and a cluster that
  gives fixed answers.
\<close>

definition sgn_cmp :: "rat \<Rightarrow> rat \<Rightarrow> int" where
  "sgn_cmp a b = (if a < b then - 1 else if b < a then 1 else 0)"

definition set_condition_list :: "'q condition list \<Rightarrow> 'q condition \<Rightarrow> 'q condition list" where
  "set_condition_list cs c = c # filter (\<lambda>d. cd_Type d \<noteq> cd_Type c) cs"

definition rat_lib :: "rat lib" where
  "rat_lib =
     \<lparr>q_Cmp = sgn_cmp,
      q_NewMilliQuantity = (\<lambda>n. of_int (sint n) / 1000),
      q_NewQuantity = (\<lambda>n. of_int (sint n)),
      q_NewNanoQuantity = (\<lambda>n. of_int (sint n) / 1000000000),
      q_Zero = 0,
      q_AsApproximateFloat64 = f64_of,
      go_int64_ovf = (\<lambda>_. 0),
      k_SetControllerReference = (\<lambda>sw p. Inr (p\<lparr>pod_OwnerReferences := [controller_ref sw]\<rparr>)),
      k_GetControllerOf = (\<lambda>p. find (\<lambda>r. or_Controller r = Some True) (pod_OwnerReferences p)),
      k_SetStatusCondition = set_condition_list,
      k_FindStatusCondition = (\<lambda>cs t. find (\<lambda>c. cd_Type c = t) cs)\<rparr>"

lemma rat_lib_quantity_laws: "quantity_laws rat_lib id"
  by (auto simp: quantity_laws_def rat_lib_def sgn_cmp_def)

lemma rat_lib_owner_laws: "owner_laws rat_lib"
  by (auto simp: owner_laws_def rat_lib_def controller_ref_def)

lemma find_set_condition_list:
  "find (\<lambda>c. cd_Type c = t) (set_condition_list cs c) =
     (if t = cd_Type c then Some c else find (\<lambda>c. cd_Type c = t) cs)"
proof -
  have "find (\<lambda>c. cd_Type c = t) (filter (\<lambda>d. cd_Type d \<noteq> cd_Type c) cs) = find (\<lambda>c. cd_Type c = t) cs"
    if "t \<noteq> cd_Type c"
    using that by (induction cs) auto
  then show ?thesis by (auto simp: set_condition_list_def)
qed

lemma rat_lib_condition_laws: "condition_laws rat_lib"
  by (simp add: condition_laws_def rat_lib_def find_set_condition_list)

record map_vec =
  mv_keys :: "string list"
  mv_series :: "string list \<rightharpoonup> f64"

definition map_vec_lib :: "map_vec vec_lib" where
  "map_vec_lib =
     \<lparr>v_new = (\<lambda>n ks. \<lparr>mv_keys = ks, mv_series = Map.empty\<rparr>),
      v_keys = mv_keys,
      v_series = mv_series,
      v_Set = (\<lambda>v ls x. v\<lparr>mv_series := (mv_series v)(ls \<mapsto> x)\<rparr>),
      v_Inc = (\<lambda>v ls. v\<lparr>mv_series := (mv_series v)(ls \<mapsto> inc_value (mv_series v ls))\<rparr>),
      v_DeletePartialMatch = (\<lambda>v m. v\<lparr>mv_series :=
        (\<lambda>ls. if partial_match (mv_keys v) ls m then None else mv_series v ls)\<rparr>)\<rparr>"

lemma map_vec_laws: "vec_laws map_vec_lib"
  by (simp add: vec_laws_def map_vec_lib_def fun_eq_iff)

section \<open>A workload, a node, pods\<close>

definition example_spec :: "rat ShadowWorkloadSpec" where
  "example_spec =
     \<lparr>spec_Node = ''node-a'',
      spec_Source = \<lparr>src_Type = SourceTypePromQL, src_Docker = None,
        src_PromQL = Some \<lparr>pq_CPUCores = ''cpu'', pq_MemoryBytes = ''mem''\<rparr>,
        src_Cgroup = None, src_Systemd = None\<rparr>,
      spec_Metrics = \<lparr>mc_PrometheusURL = ''http://p'', mc_Window = ''5m''\<rparr>,
      spec_Update = \<lparr>up_DeltaThresholdPercent = 10, up_PollInterval = ''30s'',
        up_Floor = \<lparr>rp_CPU = 1 / 100, rp_Memory = 1024\<rparr>,
        up_Ceiling = \<lparr>rp_CPU = 2, rp_Memory = 8192\<rparr>\<rparr>\<rparr>"

definition example_status :: "rat ShadowWorkloadStatus" where
  "example_status =
     \<lparr>st_PhantomPod = [], st_CurrentCPU = 0, st_CurrentMemory = 0, st_LastResize = ZeroTime,
      st_LastMeasurement = None, st_ResolvedSource = None, st_Conditions = []\<rparr>"

definition example_sw :: "rat ShadowWorkload" where
  "example_sw =
     \<lparr>sw_Name = ''db'', sw_Namespace = ''ns'', sw_UID = ''u1'', sw_Generation = 3,
      sw_Spec = example_spec, sw_Status = example_status\<rparr>"

definition example_node :: node where
  "example_node =
     \<lparr>node_name = ''node-a'', node_deletionTimestamp = None,
      node_conditions = [\<lparr>nc_type = ''Ready'', nc_status = ''True''\<rparr>]\<rparr>"

definition example_pod :: "string \<Rightarrow> rat ResourcePair \<Rightarrow> rat pod" where
  "example_pod node_n pr =
     \<lparr>pod_Name = ''shadow-db'', pod_Namespace = ''ns'', pod_UID = ''pod-1'', pod_ResourceVersion = ''7'',
      pod_Labels = Map.empty, pod_Annotations = Map.empty,
      pod_OwnerReferences = [controller_ref example_sw], pod_NodeName = node_n,
      pod_PriorityClassName = BallastPriorityClassName, pod_AutomountServiceAccountToken = Some False,
      pod_RestartPolicy = ''Always'', pod_SeccompProfile = Some ''RuntimeDefault'',
      pod_Containers = [phantom_container pr]\<rparr>"

text \<open>
  A cluster with fixed answers for the pod, the creation, the deletion and the query pair;
  a patch is accepted as sent.
\<close>

definition example_cluster ::
  "(api_error + rat pod) \<Rightarrow> (rat pod \<Rightarrow> api_error + rat pod) \<Rightarrow> api_error option \<Rightarrow>
   (qerror + f64 \<times> f64 \<times> bool) \<Rightarrow> (rat, unit) cluster" where
  "example_cluster pd create del pair =
     \<lparr>has_APIReader = True,
      api_GetShadowWorkload = (\<lambda>ns n w. (Inr example_sw, w)),
      api_GetNode = (\<lambda>rd n w. (Inr example_node, w)),
      api_GetPriorityClass = (\<lambda>rd n w. (Inr (), w)),
      api_GetPod = (\<lambda>rd ns n w. (pd, w)),
      api_CreatePod = (\<lambda>p w. (create p, w)),
      api_DeletePod = (\<lambda>p opts w. (del, w)),
      api_PatchResize = (\<lambda>base new w. (Inr new, w)),
      api_PatchStatus = (\<lambda>base new w. (None, w)),
      api_Event = (\<lambda>ty r m w. w),
      time_Now = (\<lambda>w. (At 0, w)),
      QuerierFor = (\<lambda>url. Inr (\<lambda>q w. (pair, w)))\<rparr>"

section \<open>Evaluation rules\<close>

lemma example_cluster_simps [simp]:
  "has_APIReader (example_cluster pd cr del pair)"
  "api_GetShadowWorkload (example_cluster pd cr del pair) ns n w = (Inr example_sw, w)"
  "api_GetNode (example_cluster pd cr del pair) rd n w = (Inr example_node, w)"
  "api_GetPriorityClass (example_cluster pd cr del pair) rd n w = (Inr (), w)"
  "api_GetPod (example_cluster pd cr del pair) rd ns n w = (pd, w)"
  "api_CreatePod (example_cluster pd cr del pair) p w = (cr p, w)"
  "api_DeletePod (example_cluster pd cr del pair) p opts w = (del, w)"
  "api_PatchResize (example_cluster pd cr del pair) base new w = (Inr new, w)"
  "api_PatchStatus (example_cluster pd cr del pair) sw sw' w = (None, w)"
  "api_Event (example_cluster pd cr del pair) ty r m w = w"
  "time_Now (example_cluster pd cr del pair) w = (At 0, w)"
  "QuerierFor (example_cluster pd cr del pair) url = Inr (\<lambda>q w. (pair, w))"
  by (simp_all add: example_cluster_def)

lemma example_sw_simps [simp]:
  "sw_Name example_sw = ''db''" "sw_Namespace example_sw = ''ns''" "sw_UID example_sw = ''u1''"
  "sw_Spec example_sw = example_spec" "spec_Node example_spec = ''node-a''"
  "up_DeltaThresholdPercent (spec_Update example_spec) = 10"
  "sw_Status example_sw = example_status" "st_Conditions example_status = []"
  by (simp_all add: example_sw_def example_spec_def example_status_def)

lemma example_pod_simps [simp]:
  "pod_NodeName (example_pod n pr) = n" "pod_UID (example_pod n pr) = ''pod-1''"
  "CurrentPairOf rat_lib (example_pod n pr) = pr"
  by (simp_all add: example_pod_def CurrentPairOf_def phantom_container_def resource_list_def
      ResourceCPU_def ResourceMemory_def)

lemma example_Resolve:
  "Resolve example_spec =
     Inr \<lparr>q_CPUCores = ''cpu'', q_MemoryBytes = ''mem'', q_TargetHealth = []\<rparr>"
  by (simp add: Resolve_def example_spec_def source_type_defs)

lemma example_NodeEligible: "NodeEligible (Some example_node) = (True, [])"
  by (simp add: NodeEligible_def example_node_def)

lemma example_PhantomName: "PhantomName ''db'' = ''shadow-db''"
  by (simp add: PhantomName_short)

lemma example_owned: "ownedBySw rat_lib (example_pod n pr) (example_sw\<lparr>sw_Status := st\<rparr>)"
  by (simp add: ownedBySw_def example_pod_def rat_lib_def controller_ref_def)

lemma example_owned' [simp]: "ownedBySw rat_lib (example_pod n pr) example_sw"
  by (simp add: ownedBySw_def example_pod_def rat_lib_def controller_ref_def)

lemma example_desired:
  "pass_desired rat_lib example_sw (FFin 1) (FFin 5000) = \<lparr>rp_CPU = 1, rp_Memory = 5000\<rparr>"
proof -
  note v = PairOf_values(1,2) [OF rat_lib_quantity_laws, of 1 5000]
  have "cpu_units 1000 1 = 1000" using rnd_int [of 1000] round_away_of_int [of 1000] by (simp add: cpu_units_def)
  moreover have "round_away 5000 = 5000" using round_away_of_int [of 5000] by simp
  ultimately have "PairOf rat_lib (FFin 1) (FFin 5000) = \<lparr>rp_CPU = 1, rp_Memory = 5000\<rparr>"
    using v by (simp add: maxCPU_value maxInt64Float_value ResourcePair.equality)
  then show ?thesis
    by (simp add: pass_desired_def Clamp_def clampQuantity_def rat_lib_def sgn_cmp_def example_spec_def)
qed

lemma example_floor:
  "pass_desired rat_lib example_sw (FFin 0) (FFin 0) = \<lparr>rp_CPU = 1 / 100, rp_Memory = 1024\<rparr>"
proof -
  have "PairOf rat_lib (FFin 0) (FFin 0) = \<lparr>rp_CPU = 0, rp_Memory = 0\<rparr>"
    using PairOf_zero [OF rat_lib_quantity_laws] by (simp add: ResourcePair.equality)
  then show ?thesis
    by (simp add: pass_desired_def Clamp_def clampQuantity_def rat_lib_def sgn_cmp_def example_spec_def)
qed

lemma example_poll: "pollInterval example_sw = 30000000000"
proof -
  have "ParseDuration ''30s'' = Some 30000000000" by (simp add: parse_duration_eval)
  then show ?thesis by (simp add: pollInterval_def example_spec_def)
qed

lemma example_drift:
  "DriftExceeds rat_lib \<lparr>rp_CPU = 0, rp_Memory = m\<rparr> \<lparr>rp_CPU = 1, rp_Memory = m'\<rparr> t"
  using f64_of_int [of 1] f64_of_int [of 0]
  by (simp add: DriftExceeds_def drift_def rat_lib_def drift_float_def)

text \<open>A nil recorder stays nil.\<close>

lemma nil_recorder [simp]:
  "ObservedMeasurement V None ns n c m = None" "MeasurementSucceeded V None ns n t = None"
  "SetReserved V None ns n c m = None" "ReservationUpdated V None ns n = None"
  "MeasurementFailed V None ns n r = None" "RemoveShadowWorkload V None ns n = None"
  by (simp_all add: ObservedMeasurement_def MeasurementSucceeded_def SetReserved_def
      ReservationUpdated_def MeasurementFailed_def RemoveShadowWorkload_def)

lemma report_metrics [simp]:
  "ps_metrics (report_conditions L p) = ps_metrics p"
  "ps_metrics (report_currents L V None p) = ps_metrics p"
  "ps_metrics p = None \<Longrightarrow> ps_metrics (report_currents L V obs p) = None"
  by (simp_all add: report_conditions_def report_currents_def Let_def split: option.split)

lemmas example_eval =
  reconcile_workload_phases pass_prefix_def pass_suffix_def gate_node_def gate_priority_class_def
  measure_def manage_phantom_def createOrRecoverPhantom_def resolveCreateConflict_def
  measure_failed_def request_eq timeNow_eq Let_def example_Resolve
  example_NodeEligible example_PhantomName example_owned apiReader_def delete_observed_def

lemma report_trace [simp]: "ps_trace (report_conditions L p) = ps_trace p"
  by (simp add: report_conditions_def Let_def)

section \<open>Three runs\<close>

text \<open>What each run has requested when it deletes, resizes or creates, newest first.\<close>

definition example_query :: Queries where
  "example_query = \<lparr>q_CPUCores = ''cpu'', q_MemoryBytes = ''mem'', q_TargetHealth = []\<rparr>"

definition example_earlier ::
  "api_error + rat pod \<Rightarrow> (qerror + f64 \<times> f64 \<times> bool) \<Rightarrow> rat api_call list" where
  "example_earlier pd pair =
     [CGetPod Cached ''ns'' ''shadow-db'' pd, CQueryPair example_query pair,
      CGetPriorityClass (Inr ()), CGetNode ''node-a'' (Inr example_node)]"

definition example_pair :: "qerror + f64 \<times> f64 \<times> bool" where
  "example_pair = Inr (FFin 1, FFin 5000, True)"

lemmas example_trace_defs = example_earlier_def example_query_def example_pair_def

text \<open>An owned pod on another node is deleted.\<close>

definition repin_pod :: "rat pod" where
  "repin_pod = example_pod ''node-b'' \<lparr>rp_CPU = 1 / 2, rp_Memory = 4096\<rparr>"

definition repin_cluster :: "(rat, unit) cluster" where
  "repin_cluster = example_cluster (Inr repin_pod) Inr None example_pair"

lemma repin_run:
  "\<exists>s m. Reconcile rat_lib map_vec_lib repin_cluster ''ns'' ''db'' None () =
     (Inr 1, None,
      [CPatchStatus example_sw s None, CEvent EventTypeNormal reasonPhantomRecreating m] @
      CDeletePod repin_pod \<lparr>do_GracePeriodSeconds = 0, do_UID = ''pod-1''\<rparr> None #
      example_earlier (Inr repin_pod) example_pair, ())"
  by (simp add: Reconcile_def repin_cluster_def repin_pod_def example_eval example_trace_defs)

text \<open>An owned pod on the node with no processor request is resized.\<close>

definition resize_pod :: "rat pod" where
  "resize_pod = example_pod ''node-a'' \<lparr>rp_CPU = 0, rp_Memory = 4096\<rparr>"

definition resize_cluster :: "(rat, unit) cluster" where
  "resize_cluster = example_cluster (Inr resize_pod) Inr None example_pair"

lemma resize_run:
  "\<exists>s m. Reconcile rat_lib map_vec_lib resize_cluster ''ns'' ''db'' None () =
     (Inr 30000000000, None,
      [CPatchStatus example_sw s None, CEvent EventTypeNormal reasonResized m] @
      CPatchResize resize_pod (resized_pod resize_pod \<lparr>rp_CPU = 1, rp_Memory = 5000\<rparr>)
         (Inr (resized_pod resize_pod \<lparr>rp_CPU = 1, rp_Memory = 5000\<rparr>)) #
      example_earlier (Inr resize_pod) example_pair, ())"
  by (simp add: Reconcile_def resize_cluster_def resize_pod_def example_eval example_trace_defs
      resizeIfDrifting_def resizePhantom_def example_drift example_desired example_poll)

text \<open>No pod: one is created, with the measured pair or, when the query fails, with the floor.\<close>

definition create_cluster :: "(qerror + f64 \<times> f64 \<times> bool) \<Rightarrow> (rat, unit) cluster" where
  "create_cluster pair = example_cluster (Inl NotFound) Inr None pair"

definition example_fresh :: "rat ResourcePair \<Rightarrow> rat pod" where
  "example_fresh pr =
     (example_pod ''node-a'' pr)\<lparr>pod_UID := [], pod_ResourceVersion := [],
        pod_Labels := [LabelManagedBy \<mapsto> ManagedByValue, LabelShadowWorkload \<mapsto> ''db''],
        pod_Annotations := [AnnotationDisclaimer \<mapsto> DisclaimerText]\<rparr>"

lemma example_Build: "BuildPhantomPod rat_lib (example_sw\<lparr>sw_Status := st\<rparr>) pr = Inr (example_fresh pr)"
  by (simp add: BuildPhantomPod_def example_fresh_def example_pod_def rat_lib_def example_PhantomName
      controller_ref_def)

lemma example_Build' [simp]: "BuildPhantomPod rat_lib example_sw pr = Inr (example_fresh pr)"
  by (simp add: BuildPhantomPod_def example_fresh_def example_pod_def rat_lib_def example_PhantomName)

lemma create_run:
  "\<exists>s m. Reconcile rat_lib map_vec_lib (create_cluster example_pair) ''ns'' ''db'' None () =
     (Inr 30000000000, None,
      [CPatchStatus example_sw s None, CEvent EventTypeNormal reasonPhantomCreated m] @
      CCreatePod (example_fresh \<lparr>rp_CPU = 1, rp_Memory = 5000\<rparr>)
         (Inr (example_fresh \<lparr>rp_CPU = 1, rp_Memory = 5000\<rparr>)) #
      example_earlier (Inl NotFound) example_pair, ())"
  by (simp add: Reconcile_def create_cluster_def example_eval example_trace_defs example_desired
      example_Build example_poll)

lemma create_floor_run:
  "\<exists>s m m'. Reconcile rat_lib map_vec_lib (create_cluster (Inl (QSentinel ErrPartialSample))) ''ns'' ''db'' None () =
     (Inr 30000000000, None,
      [CPatchStatus example_sw s None, CEvent EventTypeNormal reasonPhantomCreated m] @
      CCreatePod (example_fresh \<lparr>rp_CPU = 1 / 100, rp_Memory = 1024\<rparr>)
         (Inr (example_fresh \<lparr>rp_CPU = 1 / 100, rp_Memory = 1024\<rparr>)) #
      [CGetPod Cached ''ns'' ''shadow-db'' (Inl NotFound),
       CEvent EventTypeWarning reasonPrometheusUnavailable m',
       CQueryPair example_query (Inl (QSentinel ErrPartialSample)),
       CGetPriorityClass (Inr ()), CGetNode ''node-a'' (Inr example_node)], ())"
  by (simp add: Reconcile_def create_cluster_def example_eval example_trace_defs example_floor
      classify_def example_poll)

lemma create_patch_run:
  "\<exists>s m. Reconcile rat_lib map_vec_lib (create_cluster example_pair) ''ns'' ''db'' None () =
     (Inr 30000000000, None, [] @ CPatchStatus example_sw s None #
        CEvent EventTypeNormal reasonPhantomCreated m #
        CCreatePod (example_fresh \<lparr>rp_CPU = 1, rp_Memory = 5000\<rparr>)
         (Inr (example_fresh \<lparr>rp_CPU = 1, rp_Memory = 5000\<rparr>)) #
      example_earlier (Inl NotFound) example_pair, ())"
  using create_run by simp

end
