(* ===== verification/Source_Properties.thy ===== *)
theory Source_Properties
  imports Query_Reading Example_Cluster
begin

text \<open>
  Properties of the source resolution, with the concrete specs of their witnesses.
\<close>

section \<open>Concrete specs\<close>

definition example_cgroup_spec :: "rat ShadowWorkloadSpec" where
  "example_cgroup_spec = example_spec\<lparr>spec_Source :=
     \<lparr>src_Type = SourceTypeCgroup, src_Docker = None, src_PromQL = None,
      src_Cgroup = Some \<lparr>cg_Path = ''/a/b*.c'', cg_CadvisorJob = [], cg_CadvisorInstance = ''h:1''\<rparr>,
      src_Systemd = None\<rparr>\<rparr>"

lemma example_cgroup_resolves: "\<exists>q. Resolve example_cgroup_spec = Inr q"
proof -
  have "rx_match windowPattern ''5m''" "rx_match cgroupPathPattern ''/a/b*.c''" by code_simp+
  then show ?thesis
    by (simp add: Resolve_def example_cgroup_spec_def example_spec_def source_type_defs Let_def
        resolveCgroup_def resolveHostCgroup_def)
qed

lemma example_cgroup_description:
  "Describe example_cgroup_spec = \<lparr>ds_Type = SourceTypeCgroup, ds_CgroupPath = ''/a/b*.c'',
     ds_CadvisorJob = ''cadvisor'', ds_CadvisorInstance = ''h:1''\<rparr>"
  by (simp add: Describe_def example_cgroup_spec_def source_type_defs Let_def cadvisorJob_def)

definition example_docker :: DockerSource where
  "example_docker = \<lparr>dk_Selector = ''all'', dk_CadvisorJob = ''j'', dk_CadvisorInstance = ''h:1''\<rparr>"

definition example_docker_spec :: "rat ShadowWorkloadSpec" where
  "example_docker_spec = example_spec\<lparr>spec_Source :=
     \<lparr>src_Type = SourceTypeDocker, src_Docker = Some example_docker, src_PromQL = None,
      src_Cgroup = None, src_Systemd = None\<rparr>\<rparr>"

section \<open>Properties\<close>

text \<open>C16: the queries of a resolved cgroup or systemd source read as a CPU
  rate and a memory average over exactly the series of the described job and instance whose
  cgroup id matches the described path, stars within one path segment, whatever bytes the
  fields contain.\<close>

theorem host_source_selects_what_it_describes:
  assumes "Resolve spec = Inr q" "src_Type (spec_Source spec) \<in> {SourceTypeCgroup, SourceTypeSystemd}"
    and "CHR 0x0A \<notin> set (ds_CadvisorJob (Describe spec))" "CHR 0x0A \<notin> set (ds_CadvisorInstance (Describe spec))"
  shows "\<exists>ms. read_range_query ''rate'' (q_CPUCores q)
        = Some (''container_cpu_usage_seconds_total'', ms, mc_Window (spec_Metrics spec)) \<and>
      read_range_query ''avg_over_time'' (q_MemoryBytes q)
        = Some (''container_memory_working_set_bytes'', ms, mc_Window (spec_Metrics spec)) \<and>
      (\<forall>lbl. selects ms lbl \<longleftrightarrow> lbl ''job'' = ds_CadvisorJob (Describe spec) \<and>
         lbl ''instance'' = ds_CadvisorInstance (Describe spec) \<and>
         glob_match (ds_CgroupPath (Describe spec)) (lbl ''id'')) \<and>
      read_selector (q_TargetHealth q) = Some ((''up'', [MEq ''job'' (ds_CadvisorJob (Describe spec)),
         MEq ''instance'' (ds_CadvisorInstance (Describe spec))]), [])"
  by (rule resolved_host_queries [OF assms]) (auto simp: reads_as_def)

theorem host_source_selects_what_it_describes_witness:
  "\<exists>q ms. Resolve example_cgroup_spec = Inr q \<and>
     read_range_query ''rate'' (q_CPUCores q) = Some (''container_cpu_usage_seconds_total'', ms, ''5m'') \<and>
     (\<forall>lbl. selects ms lbl \<longleftrightarrow> lbl ''job'' = ''cadvisor'' \<and> lbl ''instance'' = ''h:1'' \<and>
        glob_match ''/a/b*.c'' (lbl ''id''))"
proof -
  obtain q where q: "Resolve example_cgroup_spec = Inr q" using example_cgroup_resolves by blast
  have "src_Type (spec_Source example_cgroup_spec) \<in> {SourceTypeCgroup, SourceTypeSystemd}"
    "mc_Window (spec_Metrics example_cgroup_spec) = ''5m''"
    by (simp_all add: example_cgroup_spec_def example_spec_def)
  then show ?thesis
    using host_source_selects_what_it_describes [OF q] q by (auto simp: example_cgroup_description)
qed

text \<open>C17: the queries of a resolved docker source read as a CPU rate and a
  memory average over the containers under the docker scopes of system.slice on the named
  target, and the health query reads as \<open>up\<close> of that target.\<close>

theorem docker_source_selects_its_target:
  assumes "src_Type (spec_Source spec) = SourceTypeDocker" "src_Docker (spec_Source spec) = Some dk"
    and "Resolve spec = Inr q"
    and "CHR 0x0A \<notin> set (dk_CadvisorJob dk)" "CHR 0x0A \<notin> set (dk_CadvisorInstance dk)"
  shows "reads_as q [MEq ''job'' (cadvisorJob (dk_CadvisorJob dk)), MEq ''instance'' (dk_CadvisorInstance dk),
           MRe ''id'' ''/system.slice/docker-.*''] (mc_Window (spec_Metrics spec)) \<and>
    read_selector (q_TargetHealth q) = Some ((''up'',
      [MEq ''job'' (cadvisorJob (dk_CadvisorJob dk)), MEq ''instance'' (dk_CadvisorInstance dk)]), []) \<and>
    dk_CadvisorInstance dk \<noteq> []"
proof -
  have r: "resolveDocker dk (mc_Window (spec_Metrics spec)) = Inr q"
    using assms(1-3) by (simp add: Resolve_def Let_def)
  then have "dk_CadvisorInstance dk \<noteq> []" by (auto simp: resolveDocker_def Let_def split: if_splits)
  with resolveDocker_reads [OF r assms(4,5)] targetHealthQuery_reads [OF assms(4,5)] show ?thesis
    by (simp add: target_matchers_def)
qed

theorem docker_source_selects_its_target_witness:
  "\<exists>q. Resolve example_docker_spec = Inr q \<and>
     reads_as q [MEq ''job'' ''j'', MEq ''instance'' ''h:1'', MRe ''id'' ''/system.slice/docker-.*''] ''5m''"
proof -
  have "rx_match windowPattern ''5m''" by code_simp
  then obtain q where q: "Resolve example_docker_spec = Inr q"
    by (simp add: Resolve_def example_docker_spec_def example_spec_def source_type_defs Let_def
        resolveDocker_def example_docker_def)
  from docker_source_selects_its_target [OF _ _ q, of example_docker] q show ?thesis
    by (simp add: example_docker_spec_def example_spec_def example_docker_def cadvisorJob_def)
qed

text \<open>C20: a spec whose type names no block, an absent block, or an unknown
  type does not resolve, and a typed source never resolves without an instance.\<close>

theorem resolve_requires_the_matching_block:
  assumes "Resolve spec = Inr q"
  shows "(\<exists>dk. src_Type (spec_Source spec) = SourceTypeDocker \<and> src_Docker (spec_Source spec) = Some dk \<and>
            dk_CadvisorInstance dk \<noteq> []) \<or>
    (\<exists>pq. src_Type (spec_Source spec) = SourceTypePromQL \<and> src_PromQL (spec_Source spec) = Some pq \<and>
            q = \<lparr>q_CPUCores = pq_CPUCores pq, q_MemoryBytes = pq_MemoryBytes pq, q_TargetHealth = []\<rparr>) \<or>
    (\<exists>cg. src_Type (spec_Source spec) = SourceTypeCgroup \<and> src_Cgroup (spec_Source spec) = Some cg \<and>
            cg_CadvisorInstance cg \<noteq> [] \<and> \<not> contains_pair (cg_Path cg) (CHR ''/'') (CHR ''/'')) \<or>
    (\<exists>sd. src_Type (spec_Source spec) = SourceTypeSystemd \<and> src_Systemd (spec_Source spec) = Some sd \<and>
            sd_CadvisorInstance sd \<noteq> [] \<and> CHR ''/'' \<notin> set (sd_Unit sd))"
  using assms
  by (auto simp: Resolve_def Let_def resolveDocker_def resolveCgroup_def resolveSystemd_def
      resolveHostCgroup_def split: option.splits if_splits dest: systemdUnitPattern_bytes)

theorem resolve_requires_the_matching_block_witness:
  "\<exists>cg. src_Cgroup (spec_Source example_cgroup_spec) = Some cg \<and> cg_CadvisorInstance cg \<noteq> []"
  using example_cgroup_resolves
  by (elim exE) (drule resolve_requires_the_matching_block,
    auto simp: example_cgroup_spec_def source_type_defs)

end
