(* ===== verification/Drift.thy ===== *)
theory Drift
  imports Phantom
begin

text \<open>
  Analysis of the float64 computation behind \<open>drift\<close> in \<open>internal/shadow/phantom.go\<close>:
  when it fires exactly, how it depends on the threshold, what a shrink can reach, and
  how far its three roundings can move the decision from the exact relative change.
\<close>

section \<open>Exact cases\<close>

lemma sint_int32_bound: "\<bar>sint (t :: int32)\<bar> \<le> 2 ^ 53"
  using sint_ge [of t] sint_lt [of t] by simp

lemma drift_float_zero_current:
  "c \<le> 0 \<Longrightarrow> drift_float (FFin c) w t = f_lt (FFin 0) w"
  by (cases w) (auto simp: drift_float_def Let_def)

lemma drift_float_same:
  assumes "0 \<le> t" "\<bar>t\<bar> \<le> 2 ^ 53" and "f_le (FFin 0) c"
  shows "\<not> drift_float c c t"
  using assms by (cases c)
    (auto simp: drift_float_def Let_def f_of_int_def f64_of_int f_sub_def f64_of_def [of 0])

lemma f_lt_mono: "f_lt (FFin a) x \<Longrightarrow> b \<le> a \<Longrightarrow> f_lt (FFin b) x"
  by (cases x) auto

lemma drift_float_threshold_mono:
  assumes "drift_float c w t" "t' \<le> t" "\<bar>t\<bar> \<le> 2 ^ 53" "\<bar>t'\<bar> \<le> 2 ^ 53"
  shows "drift_float c w t'"
  using assms
  by (auto simp: drift_float_def Let_def f_of_int_def f64_of_int intro: f_lt_mono split: if_splits)

text \<open>A shrink never exceeds one hundred percent, rounding included.\<close>

lemma drift_float_shrink_le_100:
  assumes "wf_f64 (FFin c)" "0 < c" "0 \<le> w" "w \<le> c" "100 \<le> t" "\<bar>t\<bar> \<le> 2 ^ 53"
  shows "\<not> drift_float (FFin c) (FFin w) t"
proof -
  have c: "representable c" "c < f64_lim" using assms by auto
  note d = f64_of_bounded [of c "w - c", OF _ _ c]
  define d1 where "d1 = \<bar>rnd (w - c)\<bar>"
  have e1: "f_abs (f_sub (FFin w) (FFin c)) = FFin d1" and d1: "0 \<le> d1" "d1 \<le> c"
    using d assms by (auto simp: f_sub_def d1_def)
  have r1: "representable 1" "representable 100"
    using representable_int [of 1] representable_int [of 100] by simp_all
  have q: "0 \<le> d1 / c" "d1 / c \<le> 1" using d1 assms by simp_all
  note qq = f64_of_bounded [of 1 "d1 / c", OF _ _ r1(1)]
  define q1 where "q1 = rnd (d1 / c)"
  have e2: "f_div (FFin d1) (FFin c) = FFin q1" and q1: "0 \<le> q1" "q1 \<le> 1"
    using qq q assms rnd_nonneg [OF q(1)] by (auto simp: q1_def)
  note pp = f64_of_bounded [of 100 "q1 * 100", OF _ _ r1(2)]
  have e3: "f_mul (FFin q1) (FFin 100) = FFin (rnd (q1 * 100))" and "rnd (q1 * 100) \<le> 100"
    using pp q1 by auto
  then have "rnd (q1 * 100) \<le> of_int t" using assms(5) by linarith
  then show ?thesis
    using assms e1 e2 e3 by (simp add: drift_float_def Let_def f_of_int_def f64_of_int)
qed

section \<open>Accuracy of the decision\<close>

text \<open>
  The float values of interest: representable, at least \<open>2 ^ - 30\<close> (a nanocore is about
  that) and at most \<open>2 ^ 64\<close>.  The computed change decides the exact relative change
  outside a band of relative width \<open>2 ^ - 51\<close>.
\<close>

definition quantity_float :: "rat \<Rightarrow> bool" where
  "quantity_float x \<longleftrightarrow> representable x \<and> 2 powi (- 30) \<le> x \<and> x \<le> 2 powi 64"

lemma quantity_float_diff:
  assumes c: "quantity_float c" and w: "w = 0 \<or> quantity_float w" and "w \<noteq> c"
  shows "2 powi (- 83) \<le> \<bar>w - c\<bar>"
proof -
  have g: "\<exists>n. x = of_int n * 2 powi (- 83)" if "x = 0 \<or> quantity_float x" for x
    using that representable_grid [of x "- 30"] by (auto simp: quantity_float_def intro: exI [of _ 0])
  obtain a b where ab: "w = of_int a * 2 powi (- 83)" "c = of_int b * 2 powi (- 83)"
    using g c w by blast
  then have "w - c = of_int (a - b) * 2 powi (- 83)"
    by (simp only: of_int_diff left_diff_distrib)
  then have d: "\<bar>w - c\<bar> = of_int \<bar>a - b\<bar> * 2 powi (- 83)"
    by (simp only: abs_mult of_int_abs abs_of_pos [OF powi2_pos])
  have "1 \<le> \<bar>a - b\<bar>" using ab \<open>w \<noteq> c\<close> by auto
  then have "(1 :: rat) \<le> of_int \<bar>a - b\<bar>" by (metis of_int_1_le_iff)
  then show ?thesis unfolding d by simp
qed

lemma scaled_bounds:
  fixes a b k x y z :: rat
  assumes "x * l \<le> y" "y \<le> x * h" "y * k * l' \<le> z" "z \<le> y * k * h'"
    and "0 \<le> k" "0 \<le> l'" "0 \<le> h'"
  shows "x * k * (l * l') \<le> z" "z \<le> x * k * (h * h')"
proof -
  have "x * l * (k * l') \<le> y * (k * l')" using assms by (intro mult_right_mono) simp_all
  then show "x * k * (l * l') \<le> z" using assms(3) by (simp add: mult_ac)
  have "y * (k * h') \<le> x * h * (k * h')" using assms by (intro mult_right_mono) simp_all
  then show "z \<le> x * k * (h * h')" using assms(4) by (simp add: mult_ac)
qed

text \<open>The computed change, for a difference that is not zero.\<close>

lemma drift_change_bounds:
  assumes c: "quantity_float c" and w: "w = 0 \<or> quantity_float w" and "w \<noteq> c"
  obtains p where
    "f_mul (f_div (f_abs (f_sub (FFin w) (FFin c))) (FFin c)) (FFin 100) = FFin p"
    "\<bar>w - c\<bar> / c * 100 * (1 - 1 / 2 ^ 53) ^ 3 \<le> p"
    "p \<le> \<bar>w - c\<bar> / c * 100 * (1 + 1 / 2 ^ 53) ^ 3"
proof -
  let ?l = "1 - 1 / 2 ^ 53 :: rat" let ?h = "1 + 1 / 2 ^ 53 :: rat"
  define d where "d = \<bar>w - c\<bar>"
  have cb: "1 / 2 ^ 30 \<le> c" "c \<le> 2 ^ 64" "0 < c" "0 \<le> w" "w \<le> 2 ^ 64"
    using c w by (auto simp: quantity_float_def power_int_minus divide_simps)
  have db: "1 / 2 ^ 83 \<le> d" "d \<le> 2 ^ 64"
    using quantity_float_diff [OF c w \<open>w \<noteq> c\<close>] cb by (auto simp: d_def power_int_minus divide_simps abs_if)
  have n1: "2 powi (- 1022) \<le> d" "d \<le> 2 powi 1000"
    by (rule order_trans [OF _ db(1)], simp add: power_int_minus)
      (rule order_trans [OF db(2)], simp)
  note d1 = f64_of_normal [OF n1]
  define d' where "d' = rnd d"
  have d'b: "1 / 2 ^ 84 \<le> d'" "d' \<le> 2 ^ 65" using d1 db unfolding d'_def by (simp_all add: field_simps)
  have e1: "f_abs (f_sub (FFin w) (FFin c)) = FFin d'"
  proof -
    have "f_abs (f_sub (FFin w) (FFin c)) = f64_of d" by (simp add: f_sub_def d_def f_abs_f64_of)
    then show ?thesis by (simp add: d1(1) d'_def)
  qed
  have qb: "1 / 2 ^ 148 \<le> d' / c" "d' / c \<le> 2 ^ 95"
  proof -
    have "1 / 2 ^ 148 * c \<le> 1 / 2 ^ 148 * 2 ^ 64" using cb by (intro mult_left_mono) simp_all
    also have "\<dots> \<le> d'" using d'b by simp
    finally show "1 / 2 ^ 148 \<le> d' / c" using cb by (simp add: pos_le_divide_eq)
    have "d' \<le> 2 ^ 95 * (1 / 2 ^ 30)" using d'b by simp
    also have "\<dots> \<le> 2 ^ 95 * c" using cb by (intro mult_left_mono) simp_all
    finally show "d' / c \<le> 2 ^ 95" using cb by (simp add: pos_divide_le_eq)
  qed
  have n2: "2 powi (- 1022) \<le> d' / c" "d' / c \<le> 2 powi 1000"
    by (rule order_trans [OF _ qb(1)], simp add: power_int_minus)
      (rule order_trans [OF qb(2)], simp)
  note q1 = f64_of_normal [OF n2]
  define q where "q = rnd (d' / c)"
  have q1b: "1 / 2 ^ 149 \<le> q" "q \<le> 2 ^ 96" using q1 qb unfolding q_def by (simp_all add: field_simps)
  have q100: "1 / 2 ^ 149 \<le> q * 100" "q * 100 \<le> 2 ^ 103" using q1b by simp_all
  have n3: "2 powi (- 1022) \<le> q * 100" "q * 100 \<le> 2 powi 1000"
    by (rule order_trans [OF _ q100(1)], simp add: power_int_minus)
      (rule order_trans [OF q100(2)], simp)
  note p1 = f64_of_normal [OF n3]
  have e: "f_mul (f_div (f_abs (f_sub (FFin w) (FFin c))) (FFin c)) (FFin 100) = FFin (rnd (q * 100))"
    using e1 q1(1) p1(1) cb by (simp add: q_def)
  have c0: "0 \<le> 1 / c" and lh: "0 \<le> ?l" "0 \<le> ?h" using cb by simp_all
  have b1: "d * ?l \<le> d'" "d' \<le> d * ?h" using d1 by (simp_all only: d'_def)
  have b2: "d' * (1 / c) * ?l \<le> q" "q \<le> d' * (1 / c) * ?h" using q1 by (simp_all add: q_def)
  note s1 = scaled_bounds [OF b1 b2 c0 lh]
  have b3: "q * 100 * ?l \<le> rnd (q * 100)" "rnd (q * 100) \<le> q * 100 * ?h" using p1 by simp_all
  show thesis
  proof (rule that [OF e])
    show "\<bar>w - c\<bar> / c * 100 * ?l ^ 3 \<le> rnd (q * 100)" using scaled_bounds(1) [OF s1 b3 _ lh] by (simp add: d_def power3_eq_cube mult_ac)
    show "rnd (q * 100) \<le> \<bar>w - c\<bar> / c * 100 * ?h ^ 3" using scaled_bounds(2) [OF s1 b3 _ lh] by (simp add: d_def power3_eq_cube mult_ac)
  qed
qed

text \<open>The band: three roundings stay within a factor of \<open>1 + 2 ^ - 51\<close>.\<close>

lemma drift_band: "(1 :: rat) \<le> (1 + 1 / 2 ^ 51) * (1 - 1 / 2 ^ 53) ^ 3"
  "(1 + 1 / 2 ^ 53) ^ 3 \<le> (1 + 1 / 2 ^ 51 :: rat)"
  by (simp_all add: power_divide)

lemma drift_float_accurate:
  assumes c: "quantity_float c" and w: "w = 0 \<or> quantity_float w" and t: "0 \<le> t" "\<bar>t\<bar> \<le> 2 ^ 53"
  shows "drift_float (FFin c) (FFin w) t \<Longrightarrow>
           of_int t < \<bar>w - c\<bar> / c * 100 * (1 + 1 / 2 ^ 51)"
    and "of_int t * (1 + 1 / 2 ^ 51) < \<bar>w - c\<bar> / c * 100 \<Longrightarrow>
           drift_float (FFin c) (FFin w) t"
proof -
  have c0: "0 < c" using c powi2_pos [of "- 30"] unfolding quantity_float_def by linarith
  have w0: "0 \<le> w" using w powi2_pos [of "- 30"] unfolding quantity_float_def by linarith
  define r where "r = \<bar>w - c\<bar> / c * 100"
  have r0: "0 \<le> r" using c0 by (simp add: r_def)
  have t': "f_of_int t = FFin (of_int t)" using t(2) by (simp add: f_of_int_def f64_of_int)
  have *: "(drift_float (FFin c) (FFin w) t \<longrightarrow> of_int t < r * (1 + 1 / 2 ^ 51)) \<and>
      (of_int t * (1 + 1 / 2 ^ 51) < r \<longrightarrow> drift_float (FFin c) (FFin w) t)"
  proof (cases "w = c")
    case True
    have "\<not> drift_float (FFin c) (FFin c) t"
      by (rule drift_float_same) (use t c0 in simp_all)
    moreover have "\<not> of_int t * (1 + 1 / 2 ^ 51) < (0 :: rat)" using t by (simp add: not_less)
    ultimately show ?thesis using True by (simp add: r_def)
  next
    case False
    obtain p where p: "f_mul (f_div (f_abs (f_sub (FFin w) (FFin c))) (FFin c)) (FFin 100) = FFin p"
      "r * (1 - 1 / 2 ^ 53) ^ 3 \<le> p" "p \<le> r * (1 + 1 / 2 ^ 53) ^ 3"
      using drift_change_bounds [OF c w False] unfolding r_def by blast
    have d: "drift_float (FFin c) (FFin w) t \<longleftrightarrow> of_int t < p"
      using c0 w0 p(1) t' by (simp add: drift_float_def)
    have "p \<le> r * (1 + 1 / 2 ^ 51)"
      using order_trans [OF p(3) mult_left_mono [OF drift_band(2) r0]] .
    moreover have "of_int t < p" if "of_int t * (1 + 1 / 2 ^ 51) < r"
    proof -
      have "of_int t * 1 \<le> of_int t * ((1 + 1 / 2 ^ 51) * (1 - 1 / 2 ^ 53) ^ 3 :: rat)"
        using t(1) drift_band(1) by (intro mult_left_mono) simp_all
      also have "\<dots> = (of_int t * (1 + 1 / 2 ^ 51)) * (1 - 1 / 2 ^ 53) ^ 3"
        by (simp only: mult.assoc)
      also have "\<dots> < r * (1 - 1 / 2 ^ 53) ^ 3" using that by (intro mult_strict_right_mono) simp_all
      also have "\<dots> \<le> p" by (rule p(2))
      finally show ?thesis by simp
    qed
    ultimately show ?thesis using d by (auto intro: less_le_trans)
  qed
  then show "drift_float (FFin c) (FFin w) t \<Longrightarrow>
           of_int t < \<bar>w - c\<bar> / c * 100 * (1 + 1 / 2 ^ 51)"
    and "of_int t * (1 + 1 / 2 ^ 51) < \<bar>w - c\<bar> / c * 100 \<Longrightarrow>
           drift_float (FFin c) (FFin w) t"
    unfolding r_def by blast+
qed

lemma quantity_float_int: "1 \<le> n \<Longrightarrow> n \<le> 2 ^ 53 \<Longrightarrow> quantity_float (of_int n)"
proof -
  assume n: "1 \<le> n" "n \<le> 2 ^ 53"
  have "(2 :: rat) powi (- 30) \<le> 1" by (simp add: power_int_minus)
  also have "(1 :: rat) \<le> of_int n" using n by simp
  finally have a: "(2 :: rat) powi (- 30) \<le> of_int n" .
  have "(of_int n :: rat) \<le> of_int (2 ^ 53)" using n by (simp only: of_int_le_iff)
  also have "\<dots> \<le> 2 powi 64" by simp
  finally show ?thesis using a n by (simp add: quantity_float_def representable_int)
qed

text \<open>A pair does not drift from itself.\<close>

lemma DriftExceeds_same:
  assumes "0 \<le> sint t" "f_le (FFin 0) (q_AsApproximateFloat64 L (rp_CPU d))" "f_le (FFin 0) (q_AsApproximateFloat64 L (rp_Memory d))"
  shows "\<not> DriftExceeds L d d t"
  using drift_float_same [OF assms(1) sint_int32_bound] assms(2,3) by (simp add: DriftExceeds_def drift_def)

end
