(* ===== verification/Phantom_Properties.thy ===== *)
theory Phantom_Properties
  imports Drift Example_Cluster
begin

text \<open>
  Properties of the pure phantom mechanics: naming, clamping and drift.
\<close>

text \<open>C21: the pod name has the prefix and at most 63 bytes; for a name that does not
  fit, the slice of the name is within its bounds and the result has exactly 63 bytes.\<close>

theorem phantom_name_is_bounded:
  "take 7 (PhantomName n) = ''shadow-'' \<and> length (PhantomName n) \<le> 63 \<and>
   (if length n \<le> 56 then PhantomName n = ''shadow-'' @ n
    else length (PhantomName n) = 63 \<and> 0 \<le> phantom_keep (sprintf_06x (fnv64a n)) \<and>
         phantom_keep (sprintf_06x (fnv64a n)) \<le> int (length n))"
  using PhantomName_length [of n] PhantomName_prefix [of n] PhantomName_short [of n]
    PhantomName_truncated_length [of n] PhantomName_slice_in_bounds [of n]
  by (simp add: MaxPodNameLength_def PhantomNamePrefix_def)

text \<open>C22: the clamped pair lies between floor and ceiling in both dimensions,
  is the measured pair where that already lies between them, and clamping again changes
  nothing.\<close>

theorem clamp_stays_in_the_policy_range:
  assumes L: "quantity_laws L val" and r: "val (rp_CPU f) \<le> val (rp_CPU c)" "val (rp_Memory f) \<le> val (rp_Memory c)"
  shows "val (rp_CPU f) \<le> val (rp_CPU (Clamp L d f c)) \<and> val (rp_CPU (Clamp L d f c)) \<le> val (rp_CPU c) \<and>
    val (rp_Memory f) \<le> val (rp_Memory (Clamp L d f c)) \<and> val (rp_Memory (Clamp L d f c)) \<le> val (rp_Memory c) \<and>
    (val (rp_CPU f) \<le> val (rp_CPU d) \<and> val (rp_CPU d) \<le> val (rp_CPU c) \<longrightarrow> rp_CPU (Clamp L d f c) = rp_CPU d) \<and>
    (val (rp_Memory f) \<le> val (rp_Memory d) \<and> val (rp_Memory d) \<le> val (rp_Memory c) \<longrightarrow>
       rp_Memory (Clamp L d f c) = rp_Memory d) \<and>
    Clamp L (Clamp L d f c) f c = Clamp L d f c"
  using r by (auto simp: Clamp_def clampQuantity_def Let_def quantity_lawsD [OF L])

theorem clamp_stays_in_the_policy_range_witness:
  "Clamp rat_lib \<lparr>rp_CPU = 5, rp_Memory = 1\<rparr> \<lparr>rp_CPU = 1, rp_Memory = 2\<rparr> \<lparr>rp_CPU = 4, rp_Memory = 8\<rparr>
     = \<lparr>rp_CPU = 4, rp_Memory = 2\<rparr> \<and>
   1 \<le> rp_CPU (Clamp rat_lib \<lparr>rp_CPU = 5, rp_Memory = 1\<rparr> \<lparr>rp_CPU = 1, rp_Memory = 2\<rparr> \<lparr>rp_CPU = 4, rp_Memory = 8\<rparr>)"
  using clamp_stays_in_the_policy_range [OF rat_lib_quantity_laws,
      of "\<lparr>rp_CPU = 1, rp_Memory = 2\<rparr>" "\<lparr>rp_CPU = 4, rp_Memory = 8\<rparr>" "\<lparr>rp_CPU = 5, rp_Memory = 1\<rparr>"]
  by (simp add: Clamp_def clampQuantity_def rat_lib_def sgn_cmp_def)

text \<open>C23: on quantities whose floats are between \<open>2 ^ - 30\<close> and
  \<open>2 ^ 64\<close>, the float computation decides whether the exact relative change in percent exceeds
  the threshold, except within a relative band of \<open>2 ^ - 51\<close> above it.\<close>

theorem drift_decides_the_relative_change:
  assumes "q_AsApproximateFloat64 L cur = FFin c" "q_AsApproximateFloat64 L want = FFin w"
    and "quantity_float c" "w = 0 \<or> quantity_float w" "0 \<le> sint t"
  shows "(drift L cur want t \<longrightarrow> of_int (sint t) < \<bar>w - c\<bar> / c * 100 * (1 + 1 / 2 ^ 51)) \<and>
    (of_int (sint t) * (1 + 1 / 2 ^ 51) < \<bar>w - c\<bar> / c * 100 \<longrightarrow> drift L cur want t)"
  using drift_float_accurate [OF assms(3-5) sint_int32_bound] assms(1,2) by (simp add: drift_def)

theorem drift_decides_the_relative_change_witness: "drift rat_lib 100 111 10"
proof -
  have "q_AsApproximateFloat64 rat_lib 100 = FFin 100" "q_AsApproximateFloat64 rat_lib 111 = FFin 111"
    using f64_of_int [of 100] f64_of_int [of 111] by (simp_all add: rat_lib_def)
  from drift_decides_the_relative_change [OF this, of 10] show ?thesis
    using quantity_float_int [of 100] quantity_float_int [of 111] by simp
qed

text \<open>C24: with the largest threshold the API admits, a shrink never counts as
  drift, down to zero, because its relative change is at most one hundred percent.\<close>

theorem shrink_never_fires_at_one_hundred:
  assumes "q_AsApproximateFloat64 L cur = FFin c" "q_AsApproximateFloat64 L want = FFin w"
    and "wf_f64 (FFin c)" "0 < c" "0 \<le> w" "w \<le> c" "100 \<le> sint t"
  shows "\<not> drift L cur want t"
  using drift_float_shrink_le_100 [OF assms(3-7) sint_int32_bound] assms(1,2) by (simp add: drift_def)

theorem shrink_never_fires_at_one_hundred_witness: "\<not> drift rat_lib 100 0 100"
proof -
  have e: "q_AsApproximateFloat64 rat_lib 100 = FFin 100" "q_AsApproximateFloat64 rat_lib 0 = FFin 0"
    using f64_of_int [of 100] f64_of_int [of 0] by (simp_all add: rat_lib_def)
  show ?thesis
    by (rule shrink_never_fires_at_one_hundred [OF e])
      (use representable_int [of 100] in simp_all)
qed

text \<open>From a zero request any positive target counts as drift and a zero target does
  not, for every threshold, and a lower threshold fires whenever a higher one does.\<close>

lemma drift_from_nothing:
  "(q_AsApproximateFloat64 L cur = FFin 0 \<longrightarrow>
      drift L cur want t = f_lt (FFin 0) (q_AsApproximateFloat64 L want)) \<and>
   (drift L cur want t \<and> sint t' \<le> sint t \<longrightarrow> drift L cur want t')"
  using drift_float_zero_current [of 0] drift_float_threshold_mono [OF _ _ sint_int32_bound sint_int32_bound]
  by (auto simp: drift_def)

end
