(* ===== verification/Request_Provenance.thy ===== *)
theory Request_Provenance
  imports Pass_Invariant
begin

text \<open>
  Where the answers of a trace come from: every request of a pass was put to the operation of
  the cluster that serves it, and a query pair to the querier that \<open>QuerierFor\<close> builds for the
  URL of the workload.
\<close>

fun issued :: "('q, 'w) cluster \<Rightarrow> 'q ShadowWorkload \<Rightarrow> 'q api_call \<Rightarrow> bool" where
  "issued E sw (CGetNode n a) \<longleftrightarrow>
     n = spec_Node (sw_Spec sw) \<and> (\<exists>w. fst (api_GetNode E (apiReader E) n w) = a)"
| "issued E sw (CGetPriorityClass a) \<longleftrightarrow>
     (\<exists>w. fst (api_GetPriorityClass E (apiReader E) BallastPriorityClassName w) = a)"
| "issued E sw (CGetPod rd ns n a) \<longleftrightarrow>
     rd \<in> {Cached, apiReader E} \<and> (\<exists>w. fst (api_GetPod E rd ns n w) = a)"
| "issued E sw (CCreatePod pod a) \<longleftrightarrow> (\<exists>w. fst (api_CreatePod E pod w) = a)"
| "issued E sw (CDeletePod pod opts a) \<longleftrightarrow> (\<exists>w. fst (api_DeletePod E pod opts w) = a)"
| "issued E sw (CPatchResize base new a) \<longleftrightarrow> (\<exists>w. fst (api_PatchResize E base new w) = a)"
| "issued E sw (CPatchStatus base new a) \<longleftrightarrow> (\<exists>w. fst (api_PatchStatus E base new w) = a)"
| "issued E sw (CEvent ty r m) \<longleftrightarrow> True"
| "issued E sw (CQueryPair q a) \<longleftrightarrow>
     (\<exists>k w. QuerierFor E (mc_PrometheusURL (spec_Metrics (sw_Spec sw))) = Inr k \<and> fst (k q w) = a)"

definition issued_ok :: "('q, 'w) cluster \<Rightarrow> 'q ShadowWorkload \<Rightarrow> ('q, 'v, 'w) pass \<Rightarrow> bool" where
  "issued_ok E sw p \<longleftrightarrow> sw_Spec (ps_sw p) = sw_Spec sw \<and> list_all (issued E sw) (ps_trace p)"

lemma issued_ok_frame [simp]:
  "issued_ok E sw (setDegraded r m p) = issued_ok E sw p" "issued_ok E sw (setReady r p) = issued_ok E sw p"
  "issued_ok E sw (Eventf E' ty r m p) = issued_ok E sw p" "issued_ok E sw (with_status f p) = issued_ok E sw p"
  "issued_ok E sw (with_metrics g p) = issued_ok E sw p"
  "issued_ok E sw (measure_failed V fr r m p) = issued_ok E sw p"
  "issued_ok E sw (p\<lparr>ps_world := w\<rparr>) = issued_ok E sw p"
  "issued_ok E sw (warnOnDegradedTransition L E' r m p) = issued_ok E sw p"
  "issued_ok E sw (report_conditions L p) = issued_ok E sw p"
  "issued_ok E sw (report_currents L V obs p) = issued_ok E sw p"
  by (simp_all add: issued_ok_def warn_trace report_conditions_def report_currents_def Let_def split: option.split)

lemma issued_ok_request [simp]:
  "issued_ok E sw (p\<lparr>ps_world := w, ps_trace := c # ps_trace p\<rparr>) \<longleftrightarrow> issued E sw c \<and> issued_ok E sw p"
  "issued_ok E sw (p\<lparr>ps_world := w, ps_trace := c # d # ps_trace p\<rparr>) \<longleftrightarrow>
     issued E sw c \<and> issued E sw d \<and> issued_ok E sw p"
  by (auto simp: issued_ok_def)

lemma issued_ok_Spec: "issued_ok E sw p \<Longrightarrow> sw_Spec (ps_sw p) = sw_Spec sw"
  by (simp add: issued_ok_def)

lemma gate_issued:
  "gate_node L E p = (res, q) \<Longrightarrow> issued_ok E sw p \<Longrightarrow> issued_ok E sw q"
  "gate_priority_class L E ok p = (res', q) \<Longrightarrow> issued_ok E sw p \<Longrightarrow> issued_ok E sw q"
  by (auto simp: gate_node_def gate_priority_class_def request_eq Let_def issued_ok_Spec
      split: sum.splits if_splits prod.splits)

lemma measure_issued:
  assumes "measure L V E p = (pair, q)" "issued_ok E sw p"
  shows "issued_ok E sw q"
  using assms issued_ok_Spec [OF assms(2)]
  by (auto simp: measure_def request_eq timeNow_eq Let_def split: sum.splits prod.splits)

lemma resize_issued:
  assumes "resizeIfDrifting L V E pod name d h p = (pod', q)" "issued_ok E sw p"
  shows "issued_ok E sw q"
  using assms
  by (auto simp: resizeIfDrifting_def resizePhantom_def request_eq timeNow_eq Let_def
      split: sum.splits if_splits prod.splits)

lemma resolve_issued:
  "resolveCreateConflict L E name poll p = (res, q) \<Longrightarrow> issued_ok E sw p \<Longrightarrow> issued_ok E sw q"
  by (auto simp: resolveCreateConflict_def request_eq Let_def split: sum.splits if_splits prod.splits)

lemma create_issued:
  assumes "createOrRecoverPhantom L V E name d poll p = (res, q)" "issued_ok E sw p"
  shows "issued_ok E sw q"
  using assms resolve_issued
  by (fastforce simp: createOrRecoverPhantom_def request_eq Let_def split: sum.splits if_splits prod.splits)

lemma manage_issued:
  assumes "manage_phantom L V E d poll p = (res, q)" "issued_ok E sw p"
  shows "issued_ok E sw q"
  using assms
  by (auto simp: manage_phantom_def request_eq Let_def
      split: sum.splits if_splits prod.splits elim!: create_issued resize_issued)

lemma suffix_issued:
  assumes "pass_suffix L V E b obs imm p = (res, q)" "issued_ok E sw p"
  shows "issued_ok E sw q"
  using assms by (auto simp: pass_suffix_def request_eq Let_def split: option.splits)

interpretation issue: pass_invariant L V E base "issued_ok E sw" for L V E base sw
  by (rule pass_invariant.intro)
    (erule (1) gate_issued measure_issued manage_issued suffix_issued)+

lemma Reconcile_issued:
  assumes "Reconcile L V E ns n rc w = (res, rc', t, w')" "api_GetShadowWorkload E ns n w = (Inr sw, w0)"
    and "c \<in> set t"
  shows "issued E sw c"
proof -
  obtain res' q where r: "reconcile_workload L V E (initial_pass sw rc w0) = (res', q)" and t: "ps_trace q = t"
    by (rule Reconcile_run [OF assms(1,2)])
  have "issued_ok E sw q" by (rule issue.workload [OF r]) (simp_all add: issued_ok_def)
  then show ?thesis using assms(3) t by (auto simp: issued_ok_def list_all_iff)
qed

end
