(* ===== verification/Controller_Setup.thy ===== *)
theory Controller_Setup
  imports Request_Provenance Recorder_Pass
begin

text \<open>
  Model of \<open>SetupWithManager\<close> in \<open>internal/controller/shadowworkload_controller.go\<close>: the defaults of
  a reconciler and its registration.  The API validation \<open>dns\<close>, the HTTP backend, the metrics
  registry and the completion of the controller (which registers the watches) are parameters.
\<close>

section \<open>The querier factory\<close>

definition queryTimeout :: int where "queryTimeout = 10000000000"

text \<open>The default: a client for the URL, when the manager's policy admits it.\<close>

definition default_QuerierFor ::
  "(string \<Rightarrow> bool) \<Rightarrow> 'w backend \<Rightarrow> DestinationPolicy \<Rightarrow> string \<Rightarrow> string + 'w querier" where
  "default_QuerierFor dns be policy rawURL =
     (case NewClient dns rawURL queryTimeout policy of
        Inl e \<Rightarrow> Inl (fst e)
      | Inr c \<Rightarrow> Inr (QueryPair be c))"

text \<open>
  What a pass relies on: a querier exists only for an admitted URL, and what it measures is
  valid.  Extending \<open>metrics_querier\<close> pointwise, over the queriers of all URLs.
\<close>

locale querier_factory =
  fixes querierFor :: "string \<Rightarrow> string + 'w querier" and admitted :: "string \<Rightarrow> bool"
  assumes only_admitted: "querierFor url = Inr k \<Longrightarrow> admitted url"
    and queriers: "querierFor url = Inr k \<Longrightarrow> metrics_querier k"
begin

text \<open>In a pass, every query pair went to an admitted URL, and every measured pair is valid.\<close>

lemma queried:
  assumes "Reconcile L V E ns n rc w = (res, rc', t, w')" "api_GetShadowWorkload E ns n w = (Inr sw, w0)"
    and "QuerierFor E = querierFor" "CQueryPair q a \<in> set t"
  shows "admitted (mc_PrometheusURL (spec_Metrics (sw_Spec sw)))"
    and "a = Inr (cpu, mem, found) \<Longrightarrow> validCPUResourceSample cpu \<and> validMemoryResourceSample mem"
proof -
  obtain k w1 where k: "querierFor (mc_PrometheusURL (spec_Metrics (sw_Spec sw))) = Inr k" "fst (k q w1) = a"
    using Reconcile_issued [OF assms(1,2,4)] assms(3) by auto
  then show "admitted (mc_PrometheusURL (spec_Metrics (sw_Spec sw)))" by (intro only_admitted)
  note m = metrics_querier.result_valid [OF queriers [OF k(1)]]
  assume "a = Inr (cpu, mem, found)"
  then have "k q w1 = (Inr (cpu, mem, found), snd (k q w1))" using k(2) by (metis prod.collapse)
  from m [OF this] show "validCPUResourceSample cpu \<and> validMemoryResourceSample mem" ..
qed

end

interpretation default_querier: querier_factory "default_QuerierFor dns be policy"
    "\<lambda>url. \<exists>u. Validate dns policy url = Inr u" for dns be policy
proof (rule querier_factory.intro)
  have c: "\<exists>c u. Validate dns policy url = Inr u \<and> k = QueryPair be c"
    if "default_QuerierFor dns be policy url = Inr k" for url k
    using that by (auto simp: default_QuerierFor_def NewClient_def split: sum.splits)
  show "\<exists>u. Validate dns policy url = Inr u" if "default_QuerierFor dns be policy url = Inr k" for url k
    using c [OF that] by blast
  show "metrics_querier k" if "default_QuerierFor dns be policy url = Inr k" for url k
    using c [OF that] prom.metrics_querier_axioms by auto
qed

section \<open>Setup\<close>

record ('v, 'w) reconciler_config =
  rc_hasRecorder :: bool
  rc_QuerierFor :: "(string \<Rightarrow> string + 'w querier) option"
  rc_policy :: DestinationPolicy
  rc_Metrics :: "'v Recorder option"

datatype setup_error = RegisterMetrics register_error | CompleteFailed string

definition setup_defaults ::
  "(string \<Rightarrow> bool) \<Rightarrow> 'w backend \<Rightarrow> 'v vec_lib \<Rightarrow> ('v, 'w) reconciler_config \<Rightarrow> ('v, 'w) reconciler_config" where
  "setup_defaults dns be V c =
     (let c = c\<lparr>rc_hasRecorder := True\<rparr>;
          c = (if rc_QuerierFor c = None
               then c\<lparr>rc_QuerierFor := Some (default_QuerierFor dns be (rc_policy c))\<rparr> else c)
      in if rc_Metrics c = None then c\<lparr>rc_Metrics := New V\<rparr> else c)"

definition SetupWithManager ::
  "(string \<Rightarrow> bool) \<Rightarrow> 'w backend \<Rightarrow> 'v vec_lib \<Rightarrow> ('v \<Rightarrow> 'r \<Rightarrow> register_error option \<times> 'r) \<Rightarrow>
   ('r \<Rightarrow> string option \<times> 'r) \<Rightarrow> ('v, 'w) reconciler_config \<Rightarrow> 'r \<Rightarrow>
   setup_error option \<times> ('v, 'w) reconciler_config \<times> 'r" where
  "SetupWithManager dns be V reg register_watches c s =
     (let c = setup_defaults dns be V c
      in case Register reg (rc_Metrics c) s of
           (Some e, s) \<Rightarrow> (Some (RegisterMetrics e), c, s)
         | (None, s) \<Rightarrow>
             (case register_watches s of
                (Some e, s) \<Rightarrow> (Some (CompleteFailed e), c, s)
              | (None, s) \<Rightarrow> (None, c, s)))"

end
