(* ===== verification/Destination_Properties.thy ===== *)
theory Destination_Properties
  imports Controller_Setup Example_Cluster
begin

text \<open>
  Properties of the destination policy and of the setup that puts it in front of every query.
\<close>

section \<open>Concrete inputs\<close>

definition example_dns :: "string \<Rightarrow> bool" where
  "example_dns s \<longleftrightarrow> s \<noteq> [] \<and> length s \<le> 253 \<and> list_all dns_byte s \<and> is_alnum (hd s) \<and> is_alnum (last s)"

lemma example_dns_laws: "dns_laws example_dns"
  by (simp add: dns_laws_def example_dns_def)

lemmas text_eval = cut_byte_def is_letter_def is_alnum_def is_digit_def to_lower_byte_def char_of_def bit_0
  cut_last_def trim_suffix_byte_def contains_byte_def unhex_def is_hex_def digits_value_def Let_def

lemmas url_eval = text_eval url_Parse_def parse_url_def parse_hierarchy_def parseAuthority_def parseHost_def
  validOptionalPort_def host_byte_def ctl_byte_def no_url_def url_Hostname_def url_Port_def splitHostPort_def

lemmas host_eval = text_eval canonicalHostname_def ParseIP_def ParseAddr_def example_dns_def dns_byte_def parseIPv4_def

lemma example_hosts:
  "canonicalHostname example_dns ''P'' = Inr ''p''" "canonicalHostname example_dns ''p'' = Inr ''p''"
  by (simp_all add: host_eval)

lemma example_parse:
  "parsePrometheusURL example_dns ''http://P:9/x'' =
     Inr (no_url\<lparr>u_Scheme := ''http'', u_Host := ''P:9'', u_Path := ''/x''\<rparr>, origin_text ''http'' ''p'' ''9'')"
  "parsePrometheusURL example_dns ''http://p:09'' =
     Inr (no_url\<lparr>u_Scheme := ''http'', u_Host := ''p:09''\<rparr>, origin_text ''http'' ''p'' ''9'')"
  by (simp_all add: parsePrometheusURL_def is_trimmed_def space_runes_def url_eval trim_right_def example_hosts
      canonical_port_def numeral_of.simps digit_of_def)

lemma example_address:
  "IP_String [0x2001, 0xdb8, 0, 0, 0, 0, 0, 0x1a] = ''2001:db8::1a''"
proof -
  have "[0::nat..<8] = [0, 1, 2, 3, 4, 5, 6, 7]" by code_simp
  then have "best_run [0x2001, 0xdb8, 0, 0, 0, 0, 0, 0x1a] = Some (2, 5)"
    by (simp add: best_run_def zero_run_def)
  then show ?thesis by (simp add: IP_String_def ip_octets_def print_groups_def numeral_of.simps digit_of_def)
qed

lemma example_policy:
  "NewDestinationPolicy example_dns [''http://p:09''] False =
     Inr \<lparr>dp_allowAny = False, dp_allowed = {origin_text ''http'' ''p'' ''9''}\<rparr>"
  by (simp add: NewDestinationPolicy_def zero_policy_def example_parse no_url_def)

section \<open>Properties\<close>

text \<open>C31: a policy built from rules admits a URL exactly when the URL is a
  valid Prometheus URL and some rule has the same scheme, the same canonical host and the same
  effective port; the URL it returns is the parsed one.\<close>

theorem policy_admits_exactly_the_listed_origins:
  assumes "NewDestinationPolicy dns rules False = Inr p" "dns_laws dns"
  shows "Validate dns p raw = Inr u \<longleftrightarrow>
    (\<exists>o1. parsePrometheusURL dns raw = Inr (u, o1)) \<and>
    (\<exists>rule r o2. rule \<in> set rules \<and> parsePrometheusURL dns rule = Inr (r, o2) \<and>
       u_Scheme r = u_Scheme u \<and> effective_port r = effective_port u \<and>
       canonicalHostname dns (url_Hostname r) = canonicalHostname dns (url_Hostname u))"
proof -
  have p: "\<not> dp_allowAny p"
    "dp_allowed p = {o'. \<exists>rule \<in> set rules. \<exists>r. parsePrometheusURL dns rule = Inr (r, o')}"
    using add_rules_ok [of dns rules _ p] assms(1) by (auto simp: NewDestinationPolicy_def zero_policy_def split: if_splits)
  show ?thesis
  proof (cases "parsePrometheusURL dns raw")
    case (Inr uo)
    obtain v o1 where v: "parsePrometheusURL dns raw = Inr (v, o1)" using Inr by (cases uo) auto
    have "o1 \<in> dp_allowed p \<longleftrightarrow> (\<exists>rule r o2. rule \<in> set rules \<and> parsePrometheusURL dns rule = Inr (r, o2) \<and>
       u_Scheme r = u_Scheme v \<and> effective_port r = effective_port v \<and>
       canonicalHostname dns (url_Hostname r) = canonicalHostname dns (url_Hostname v))"
      using same_origin_iff [OF v _ assms(2)] unfolding p(2) by (auto, metis+)
    then show ?thesis using v p(1) by (auto simp: Validate_def)
  qed (simp add: Validate_def)
qed

theorem policy_admits_exactly_the_listed_origins_witness:
  "\<exists>p. NewDestinationPolicy example_dns [''http://p:09''] False = Inr p \<and>
     Validate example_dns p ''http://P:9/x'' = Inr (no_url\<lparr>u_Scheme := ''http'', u_Host := ''P:9'', u_Path := ''/x''\<rparr>)"
proof -
  have "url_Port (no_url\<lparr>u_Host := ''P:9''\<rparr>) = ''9''" "url_Port (no_url\<lparr>u_Host := ''p:09''\<rparr>) = ''09''"
    "canonicalHostname example_dns (url_Hostname (no_url\<lparr>u_Host := ''P:9''\<rparr>)) = Inr ''p''"
    "canonicalHostname example_dns (url_Hostname (no_url\<lparr>u_Host := ''p:09''\<rparr>)) = Inr ''p''"
    "digits_value 10 ''9'' = digits_value 10 ''09''"
    by code_simp+
  with policy_admits_exactly_the_listed_origins [OF example_policy example_dns_laws, of "''http://P:9/x''"]
  show ?thesis using example_policy example_parse
    by (simp add: effective_port_def url_Port_def url_Hostname_def)
qed

text \<open>C32: whatever the policy, an accepted URL is an absolute http or https URL with a host
  and a port between 1 and 65535, without credentials, query and fragment, and its host has a
  canonical form.\<close>

theorem accepted_destination_is_plain:
  assumes "Validate dns p raw = Inr u"
  shows "u_Scheme u \<in> {''http'', ''https''} \<and> u_Host u \<noteq> [] \<and> u_Opaque u = [] \<and> u_User u = None \<and>
    u_RawQuery u = [] \<and> u_Fragment u = [] \<and> 1 \<le> effective_port u \<and> effective_port u \<le> 65535 \<and>
    (\<exists>h. canonicalHostname dns (url_Hostname u) = Inr h)"
proof -
  obtain o1 where "parsePrometheusURL dns raw = Inr (u, o1)"
    using assms by (auto simp: Validate_def split: sum.splits if_splits)
  then show ?thesis by (rule parsePrometheusURL_ok) simp
qed

theorem accepted_destination_is_plain_witness:
  "\<exists>u. Validate example_dns \<lparr>dp_allowAny = True, dp_allowed = {}\<rparr> ''http://P:9/x'' = Inr u \<and>
     u_User u = None \<and> u_Host u \<noteq> [] \<and> effective_port u \<le> 65535"
proof -
  obtain u where u: "Validate example_dns \<lparr>dp_allowAny = True, dp_allowed = {}\<rparr> ''http://P:9/x'' = Inr u"
    by (simp add: Validate_def example_parse)
  from accepted_destination_is_plain [OF u] u show ?thesis by blast
qed

text \<open>The zero policy and a policy without rules refuse every URL, permission for any destination
  cannot be combined with rules, and one rule that is no origin makes the whole policy an
  error.\<close>

lemma policy_fails_closed:
  "(\<exists>e. Validate dns zero_policy raw = Inl e) \<and>
   NewDestinationPolicy dns [] False = Inr zero_policy \<and>
   (rules \<noteq> [] \<longrightarrow> (\<exists>e. NewDestinationPolicy dns rules True = Inl e)) \<and>
   (rule \<in> set rules \<and> (\<forall>r o'. parsePrometheusURL dns rule = Inr (r, o') \<longrightarrow> u_Path r \<noteq> [] \<and> u_Path r \<noteq> ''/'') \<longrightarrow>
      (\<exists>e. NewDestinationPolicy dns rules allowAny = Inl e))"
  using add_rules_error [of rule rules dns]
  by (auto simp: NewDestinationPolicy_def Validate_def zero_policy_def split: sum.splits)

text \<open>A canonical host is its own canonical host, in particular a printed address reads
  back as the same address; it has only lower-case letters, digits, dashes, dots and colons.\<close>

lemma canonical_host_is_idempotent:
  assumes "canonicalHostname dns raw = Inr h" "dns_laws dns"
  shows "canonicalHostname dns h = Inr h \<and> h \<noteq> [] \<and> list_all canonical_byte h \<and>
    (\<forall>ip. ParseIP h = Some ip \<longrightarrow> IP_String ip = h)"
  using canonicalHostname_fixed [OF assms] canonicalHostname_ok(1,2,5) [OF assms] by blast

end
