(* ===== verification/Json_Printing.thy ===== *)
theory Json_Printing
  imports Go_Json
begin

text \<open>
  A printer of JSON values, as a server writes them, and the proof that the reader of \<open>Go_Json\<close>
  gives back what was printed.
\<close>

section \<open>The printer\<close>

definition hex_digit :: "nat \<Rightarrow> char" where
  "hex_digit d = ''0123456789abcdef'' ! d"

definition quote_byte :: "char \<Rightarrow> string" where
  "quote_byte c =
     (if c = CHR 0x22 \<or> c = CHR 0x5C then [CHR 0x5C, c]
      else if (of_char c :: nat) < 0x20 then
        [CHR 0x5C, CHR ''u'', CHR ''0'', CHR ''0'', hex_digit (of_char c div 16), hex_digit (of_char c mod 16)]
      else [c])"

definition quoted :: "string \<Rightarrow> string" where
  "quoted s = concat (map quote_byte s)"

definition print_string :: "string \<Rightarrow> string" where
  "print_string s = CHR 0x22 # quoted s @ [CHR 0x22]"

fun joined :: "string list \<Rightarrow> string" where
  "joined [] = []"
| "joined [x] = x"
| "joined (x # y # zs) = x @ CHR '','' # joined (y # zs)"

fun print_json :: "json \<Rightarrow> string" where
  "print_json JNul = ''null''"
| "print_json (JBoo b) = (if b then ''true'' else ''false'')"
| "print_json (JNum t) = t"
| "print_json (JStr s) = print_string s"
| "print_json (JArr vs) = CHR ''['' # joined (map print_json vs) @ '']''"
| "print_json (JObj ms) =
     CHR ''{'' # joined (map (\<lambda>m. print_string (fst m) @ CHR '':'' # print_json (snd m)) ms) @ ''}''"

text \<open>What can be printed: UTF-8 strings and texts that are numbers; and how deep it nests.\<close>

function utf8 :: "string \<Rightarrow> bool" where
  "utf8 [] = True"
| "utf8 (c # s) = (rune_len (c # s) \<noteq> 0 \<and> utf8 (drop (rune_len (c # s) - 1) s))"
  by pat_completeness auto
termination by (relation "measure length") auto

definition is_number :: "string \<Rightarrow> bool" where
  "is_number t \<longleftrightarrow> scan_number t = Some (t, [])"

fun printable :: "json \<Rightarrow> bool" where
  "printable (JNum t) = is_number t"
| "printable (JStr s) = utf8 s"
| "printable (JArr vs) = list_all printable vs"
| "printable (JObj ms) = list_all (\<lambda>m. utf8 (fst m) \<and> printable (snd m)) ms"
| "printable v = True"

fun depth :: "json \<Rightarrow> nat" where
  "depth (JArr vs) = Suc (fold max (map depth vs) 0)"
| "depth (JObj ms) = Suc (fold max (map (\<lambda>m. depth (snd m)) ms) 0)"
| "depth v = 0"

lemma fold_max_le: "fold max ns (a :: nat) \<le> d \<longleftrightarrow> a \<le> d \<and> (\<forall>n \<in> set ns. n \<le> d)"
  by (induction ns arbitrary: a) auto

section \<open>Strings\<close>

lemma hex_digit_unhex: "d < 16 \<Longrightarrow> unhex (hex_digit d) = Some d"
proof -
  have "\<forall>d \<in> set [0..<16]. unhex (hex_digit d) = Some d" by code_simp
  then show "d < 16 \<Longrightarrow> unhex (hex_digit d) = Some d" by simp
qed

lemma control_digits: "(of_char c :: nat) < 0x20 \<Longrightarrow>
    unhex (hex_digit (of_char c div 16)) = Some (of_char c div 16) \<and>
    unhex (hex_digit (of_char c mod 16)) = Some (of_char c mod 16)"
  by (intro conjI hex_digit_unhex) auto

lemma hex_digit_plain: "d < 16 \<Longrightarrow> \<not> (of_char (hex_digit d) :: nat) < 0x20 \<and> hex_digit d \<noteq> CHR 0x22 \<and> hex_digit d \<noteq> CHR 0x5C"
proof -
  have "\<forall>d \<in> set [0..<16]. \<not> (of_char (hex_digit d) :: nat) < 0x20 \<and> hex_digit d \<noteq> CHR 0x22 \<and> hex_digit d \<noteq> CHR 0x5C"
    by code_simp
  then show "d < 16 \<Longrightarrow> ?thesis" by simp
qed

lemma scan_plain:
  "\<not> (of_char c :: nat) < 0x20 \<Longrightarrow> c \<noteq> CHR 0x22 \<Longrightarrow> c \<noteq> CHR 0x5C \<Longrightarrow>
   scan_string (c # s) = map_option (\<lambda>(raw, r). (c # raw, r)) (scan_string s)"
  by simp

lemma scan_quoted: "scan_string (quoted s @ CHR 0x22 # r) = Some (quoted s, r)"
proof (induction s)
  case (Cons c s)
  have q: "quoted (c # s) = quote_byte c @ quoted s" by (simp add: quoted_def)
  consider "c = CHR 0x22 \<or> c = CHR 0x5C" | "(of_char c :: nat) < 0x20" "c \<noteq> CHR 0x22" "c \<noteq> CHR 0x5C" |
    "\<not> (of_char c :: nat) < 0x20" "c \<noteq> CHR 0x22" "c \<noteq> CHR 0x5C" by blast
  then show ?case
  proof cases
    case 1
    then show ?thesis using Cons by (auto simp: q quote_byte_def)
  next
    case 2
    let ?a = "hex_digit (of_char c div 16)" and ?b = "hex_digit (of_char c mod 16)"
    let ?t = "CHR ''0'' # CHR ''0'' # ?a # ?b # quoted s @ CHR 0x22 # r"
    have "unhex CHR ''0'' = Some 0" by code_simp
    then have h: "list_all (\<lambda>h. unhex h \<noteq> None) (take 4 ?t)" "4 \<le> length ?t"
      using control_digits [OF 2(1)] by simp_all
    have "scan_string ?t = Some (CHR ''0'' # CHR ''0'' # ?a # ?b # quoted s, r)"
      using Cons hex_digit_plain [of "of_char c div 16"] hex_digit_plain [of "of_char c mod 16"] 2(1)
      by (simp add: scan_plain del: scan_string.simps(2))
    then have "scan_string (CHR 0x5C # CHR ''u'' # ?t) = Some (CHR 0x5C # CHR ''u'' # CHR ''0'' # CHR ''0'' # ?a # ?b # quoted s, r)"
      using h by (simp del: take_Suc_Cons add: scan_string.simps(2) [of "CHR 0x5C"])
    then show ?thesis using 2 by (simp add: q quote_byte_def)
  next
    case 3
    then show ?thesis using Cons by (simp add: q quote_byte_def)
  qed
qed (simp add: quoted_def)

lemma getu4_not_u: "u \<noteq> CHR ''u'' \<Longrightarrow> getu4 (x # u # s) = None"
  by (cases "x # u # s" rule: getu4.cases) auto

lemma quoted_high: "\<forall>c \<in> set s. 0x80 \<le> (of_char c :: nat) \<Longrightarrow> quoted s = s"
proof (induction s)
  case (Cons c s)
  then have "c \<noteq> CHR 0x22" "c \<noteq> CHR 0x5C" by auto
  then show ?case using Cons by (simp add: quoted_def quote_byte_def)
qed (simp add: quoted_def)

lemma rune_ascii: "(of_char c :: nat) < 0x80 \<Longrightarrow> rune_len (c # s) = 1"
  by (simp add: rune_len_def rune_lead_def)

lemma rune_high:
  assumes "rune_len (c # s) = Suc n" "\<not> (of_char c :: nat) < 0x80"
  shows "n \<le> length s" "\<forall>b \<in> set (take n s). 0x80 \<le> (of_char b :: nat)" "rune_len (c # take n s @ t) = Suc n"
proof -
  have "rune_lead c \<noteq> 1" using assms(2) by (simp add: rune_lead_def)
  then have l: "rune_lead c = Suc n" "n \<noteq> 0" "n \<le> length s" "rune_second c (hd s)"
    "list_all (\<lambda>b. byte_in 0x80 b 0xBF) (take n s)"
    using assms(1) by (auto simp: rune_len_def Let_def split: if_splits)
  show "n \<le> length s" by fact
  show "\<forall>b \<in> set (take n s). 0x80 \<le> (of_char b :: nat)" using l(5) by (simp add: list_all_iff)
  have "hd (take n s @ t) = hd s" using l(2,3) by (cases s; cases n) auto
  then show "rune_len (c # take n s @ t) = Suc n" using l by (simp add: rune_len_def Let_def)
qed

lemma unquote_quoted: "utf8 s \<Longrightarrow> unquote (quoted s) = s"
proof (induction s rule: utf8.induct)
  case (2 c s)
  show ?case
  proof (cases "(of_char c :: nat) < 0x80")
    case True
    then have IH: "unquote (quoted s) = s" using 2 by (simp add: rune_ascii)
    show ?thesis
    proof (cases "c = CHR 0x22 \<or> c = CHR 0x5C")
      case esc: True
      then have "getu4 (CHR 0x5C # c # quoted s) = None" by (intro getu4_not_u) auto
      then show ?thesis using esc IH by (auto simp: quoted_def quote_byte_def escape_char_def)
    next
      case plain: False
      show ?thesis
      proof (cases "(of_char c :: nat) < 0x20")
        case ctl: True
        have "unhex CHR ''0'' = Some 0" by code_simp
        then have "getu4 (quote_byte c @ quoted s) = Some (of_char c)"
          using ctl plain control_digits [OF ctl] by (simp add: quote_byte_def)
        then show ?thesis using ctl plain IH
          by (simp add: quoted_def quote_byte_def rune_bytes_def)
      next
        case False
        then show ?thesis using plain IH rune_ascii [OF True] by (simp add: quoted_def quote_byte_def)
      qed
    qed
  next
    case False
    obtain n where n: "rune_len (c # s) = Suc n" using 2(2) by (cases "rune_len (c # s)") auto
    note h = rune_high [OF n False]
    have IH: "unquote (quoted (drop n s)) = drop n s" using 2 n by simp
    have "quoted (c # take n s) = c # take n s" by (rule quoted_high) (use h(2) False in auto)
    then have q: "quoted (c # s) = c # take n s @ quoted (drop n s)"
      by (metis append_Cons append_take_drop_id concat_append map_append quoted_def)
    have "c \<noteq> CHR 0x5C" using False by auto
    moreover have "rune_len (c # take n s @ quoted (drop n s)) = Suc n" by (rule h(3))
    ultimately show ?thesis unfolding q using IH h(1) by simp
  qed
qed (simp add: quoted_def)

section \<open>Numbers\<close>

definition stops :: "string \<Rightarrow> bool" where
  "stops r \<longleftrightarrow> r = [] \<or> hd r \<in> {CHR '','', CHR '']'', CHR ''}''}"

lemma stops_not: "stops r \<Longrightarrow> r \<noteq> [] \<Longrightarrow> \<not> is_digit (hd r) \<and> hd r \<notin> {CHR ''.'', CHR ''e'', CHR ''E''}"
  by (auto simp: stops_def is_digit_def)

lemma scan_digits_append: "scan_digits t = Some x \<Longrightarrow> stops r \<Longrightarrow> scan_digits (t @ r) = Some (x @ r)"
proof -
  assume t: "scan_digits t = Some x" and r: "stops r"
  have "dropWhile is_digit (t @ r) = dropWhile is_digit t @ r" for t
    using stops_not [OF r] by (induction t) (auto simp: dropWhile_eq_self_iff)
  then show ?thesis using t by (auto simp: scan_digits_def split: if_splits)
qed

lemma scan_int_append: "scan_int t = Some x \<Longrightarrow> stops r \<Longrightarrow> scan_int (t @ r) = Some (x @ r)"
  by (cases t; cases "tl t")
    (auto simp: scan_int_def Let_def dest: scan_digits_append split: if_splits; auto simp: scan_digits_def)+

lemma scan_frac_append: "scan_frac t = Some x \<Longrightarrow> stops r \<Longrightarrow> scan_frac (t @ r) = Some (x @ r)"
  using stops_not [of r] by (cases t) (auto simp: scan_frac_def dest: scan_digits_append split: if_splits)

lemma scan_exp_append: "scan_exp t = Some x \<Longrightarrow> stops r \<Longrightarrow> scan_exp (t @ r) = Some (x @ r)"
  using stops_not [of r]
  by (cases t; cases "tl t")
    (auto simp: scan_exp_def dest: scan_digits_append split: if_splits; auto simp: scan_digits_def)+

lemma scan_number_append:
  assumes "is_number t" "stops r"
  shows "scan_number (t @ r) = Some (t, r)"
proof -
  obtain a b where "scan_int t = Some a" "scan_frac a = Some b" "scan_exp b = Some []"
    using assms(1) by (auto simp: is_number_def scan_number_def bind_eq_Some_conv)
  then show ?thesis
    using scan_int_append scan_frac_append scan_exp_append [of b "[]"] assms(2)
    by (force simp: scan_number_def)
qed

lemma number_hd:
  assumes "is_number t"
  obtains c s where "t = c # s" "c = CHR ''-'' \<or> is_digit c"
proof -
  obtain a where "scan_int t = Some a" using assms by (auto simp: is_number_def scan_number_def bind_eq_Some_conv)
  then have "t \<noteq> [] \<and> (hd t = CHR ''-'' \<or> is_digit (hd t))"
    by (auto simp: scan_int_def scan_digits_def is_digit_def Let_def split: if_splits)
  then show thesis using that by (cases t) auto
qed


section \<open>Reading what was printed\<close>

definition ws :: "char \<Rightarrow> bool" where
  "ws c \<longleftrightarrow> c \<in> {CHR 0x20, CHR 0x09, CHR 0x0A, CHR 0x0D}"

lemma skip_ws_Cons: "\<not> ws c \<Longrightarrow> skip_ws (c # s) = c # s"
  by (simp add: skip_ws_def ws_def)

lemma print_hd:
  assumes "printable v"
  obtains c s where "print_json v = c # s" "\<not> ws c" "c \<notin> {CHR '']'', CHR ''}'', CHR '',''}"
proof (cases v)
  case (JNum t)
  then obtain c s where "t = c # s" "c = CHR ''-'' \<or> is_digit c" using assms number_hd [of t] by auto
  moreover from this(2) have "\<not> ws c \<and> c \<notin> {CHR '']'', CHR ''}'', CHR '',''}" by (auto simp: ws_def is_digit_def)
  ultimately show thesis using that [of c s] JNum by simp
next
  case (JBoo b)
  then show thesis using that by (cases b) (auto simp: ws_def)
qed (use that in \<open>auto simp: ws_def print_string_def\<close>)

text \<open>A reader that, with enough fuel, takes the text off any continuation that ends a value.\<close>

definition reads :: "nat \<Rightarrow> string \<Rightarrow> json \<Rightarrow> bool" where
  "reads d t v \<longleftrightarrow> (\<forall>r. stops r \<longrightarrow> (\<exists>k. \<forall>f \<ge> k. parse_value f d (t @ r) = Some (v, r)))"

lemma readsD:
  assumes "reads d t v" "stops r"
  obtains k where "\<And>f. k \<le> f \<Longrightarrow> parse_value f d (t @ r) = Some (v, r)"
  using assms unfolding reads_def by blast

lemma stop_bytes [simp]: "stops (CHR '','' # s)" "stops (CHR '']'' # s)" "stops (CHR ''}'' # s)" "stops []"
  by (simp_all add: stops_def)

lemma ws_bytes [simp]: "\<not> ws CHR '',''" "\<not> ws CHR '']''" "\<not> ws CHR ''}''" "\<not> ws CHR '':''" "\<not> ws CHR 0x22"
    "\<not> ws CHR ''{''" "\<not> ws CHR ''[''"
  by (simp_all add: ws_def)

lemma elements_read:
  assumes "vs \<noteq> []" "\<forall>v \<in> set vs. reads d (print_json v) v"
  shows "\<exists>k. \<forall>f \<ge> k. parse_elements f d (joined (map print_json vs) @ CHR '']'' # r) = Some (vs, r)"
  using assms
proof (induction vs rule: list_nonempty_induct)
  case (single v)
  obtain k where k: "\<And>f. k \<le> f \<Longrightarrow> parse_value f d (print_json v @ CHR '']'' # r) = Some (v, CHR '']'' # r)"
    using single readsD [of d "print_json v" v "CHR '']'' # r"] by auto
  have "parse_elements f d (print_json v @ CHR '']'' # r) = Some ([v], r)" if "Suc k \<le> f" for f
    using that k [of "f - 1"] by (cases f) (simp_all add: skip_ws_Cons)
  then show ?case by auto
next
  case (cons v vs)
  let ?t = "joined (map print_json vs) @ CHR '']'' # r"
  obtain j where j: "\<And>f. j \<le> f \<Longrightarrow> parse_elements f d ?t = Some (vs, r)" using cons by auto
  obtain k where k: "\<And>f. k \<le> f \<Longrightarrow> parse_value f d (print_json v @ CHR '','' # ?t) = Some (v, CHR '','' # ?t)"
    using cons readsD [of d "print_json v" v "CHR '','' # ?t"] by auto
  have e: "joined (map print_json (v # vs)) @ CHR '']'' # r = print_json v @ CHR '','' # ?t"
    using cons(1) by (cases vs) simp_all
  have "parse_elements f d (print_json v @ CHR '','' # ?t) = Some (v # vs, r)" if "Suc (max j k) \<le> f" for f
    using that j [of "f - 1"] k [of "f - 1"] by (cases f) (simp_all add: skip_ws_Cons)
  then show ?case unfolding e by blast
qed

abbreviation print_member :: "string \<times> json \<Rightarrow> string" where
  "print_member m \<equiv> print_string (fst m) @ CHR '':'' # print_json (snd m)"

lemma member_head:
  assumes "utf8 n" "parse_value f d t = Some (v, c # u)" "\<not> ws c"
  shows "parse_members (Suc f) d (print_string n @ CHR '':'' # t) =
    (if c = CHR ''}'' then Some ([(n, v)], u)
     else if c = CHR '','' then map_option (\<lambda>(ms, r). ((n, v) # ms, r)) (parse_members f d u) else None)"
  using assms by (simp add: print_string_def skip_ws_Cons scan_quoted unquote_quoted)

lemma members_read:
  assumes "ms \<noteq> []" "\<forall>m \<in> set ms. utf8 (fst m) \<and> reads d (print_json (snd m)) (snd m)"
  shows "\<exists>k. \<forall>f \<ge> k. parse_members f d (joined (map print_member ms) @ CHR ''}'' # r) = Some (ms, r)"
  using assms
proof (induction ms rule: list_nonempty_induct)
  case (single m)
  obtain k where k: "\<And>f. k \<le> f \<Longrightarrow>
      parse_value f d (print_json (snd m) @ CHR ''}'' # r) = Some (snd m, CHR ''}'' # r)"
    using single readsD [of d "print_json (snd m)" "snd m" "CHR ''}'' # r"] by auto
  have "parse_members f d (print_member m @ CHR ''}'' # r) = Some ([m], r)" if "Suc k \<le> f" for f
    using that member_head [OF _ k, of "fst m" "f - 1"] single by (cases f) simp_all
  then show ?case by auto
next
  case (cons m ms)
  let ?t = "joined (map print_member ms) @ CHR ''}'' # r"
  obtain j where j: "\<And>f. j \<le> f \<Longrightarrow> parse_members f d ?t = Some (ms, r)" using cons by auto
  obtain k where k: "\<And>f. k \<le> f \<Longrightarrow>
      parse_value f d (print_json (snd m) @ CHR '','' # ?t) = Some (snd m, CHR '','' # ?t)"
    using cons readsD [of d "print_json (snd m)" "snd m" "CHR '','' # ?t"] by auto
  have e: "joined (map print_member (m # ms)) @ CHR ''}'' # r = print_member m @ CHR '','' # ?t"
    using cons(1) by (cases ms) simp_all
  have "parse_members f d (print_member m @ CHR '','' # ?t) = Some (m # ms, r)" if "Suc (max j k) \<le> f" for f
    using that j [of "f - 1"] member_head [OF _ k, of "fst m" "f - 1"] cons by (cases f) simp_all
  then show ?case unfolding e by blast
qed

lemma reads_step:
  assumes "\<And>f r. stops r \<Longrightarrow> parse_value (Suc f) d (t @ r) = Some (v, r)"
  shows "reads d t v"
  unfolding reads_def
proof (intro allI impI exI)
  fix r f assume "stops r" "Suc 0 \<le> f"
  then show "parse_value f d (t @ r) = Some (v, r)" using assms by (cases f) simp_all
qed

lemma print_reads: "printable v \<Longrightarrow> depth v \<le> d \<Longrightarrow> reads d (print_json v) v"
proof (induction v arbitrary: d)
  case (JNum t)
  then have n: "is_number t" by simp
  obtain c s where t: "t = c # s" "c = CHR ''-'' \<or> is_digit c" by (rule number_hd [OF n])
  then have c: "\<not> ws c" "c \<notin> {CHR ''{'', CHR ''['', CHR 0x22}" by (auto simp: ws_def is_digit_def)
  show ?case
  proof (rule reads_step)
    fix f r assume "stops r"
    with scan_number_append [OF n] c t(2) show "parse_value (Suc f) d (print_json (JNum t) @ r) = Some (JNum t, r)"
      by (simp add: t(1) skip_ws_Cons)
  qed
next
  case (JStr s)
  then show ?case
    by (intro reads_step) (simp add: print_string_def skip_ws_Cons scan_quoted unquote_quoted)
next
  case (JArr vs)
  then obtain e where d: "d = Suc e" by (cases d) auto
  show ?case
  proof (cases "vs = []")
    case True
    then show ?thesis by (intro reads_step) (simp add: d skip_ws_Cons)
  next
    case False
    have "\<forall>v \<in> set vs. reads e (print_json v) v"
      using JArr d by (auto simp: fold_max_le list_all_iff)
    note r = elements_read [OF False this]
    obtain v ws' where vs: "vs = v # ws'" using False by (cases vs) auto
    obtain c u where c: "print_json v = c # u" "\<not> ws c" "c \<notin> {CHR '']'', CHR ''}'', CHR '',''}"
      using print_hd [of v] JArr.prems(1) vs by auto
    have j: "\<exists>u'. joined (map print_json vs) @ x = c # u'" for x using c(1) vs by (cases ws') auto
    show ?thesis unfolding reads_def
    proof (intro allI impI)
      fix x assume "stops x"
      obtain k where k: "\<forall>f \<ge> k. parse_elements f e (joined (map print_json vs) @ CHR '']'' # x) = Some (vs, x)" using r by blast
      obtain u' where u': "joined (map print_json vs) @ CHR '']'' # x = c # u'" using j by blast
      have "parse_value f d (print_json (JArr vs) @ x) = Some (JArr vs, x)" if "Suc k \<le> f" for f
        using that k c u' by (cases f) (auto simp: d skip_ws_Cons)
      then show "\<exists>k. \<forall>f \<ge> k. parse_value f d (print_json (JArr vs) @ x) = Some (JArr vs, x)" by blast
    qed
  qed
next
  case (JObj ms)
  then obtain e where d: "d = Suc e" by (cases d) auto
  show ?case
  proof (cases "ms = []")
    case True
    then show ?thesis by (intro reads_step) (simp add: d skip_ws_Cons)
  next
    case False
    have "utf8 (fst m) \<and> reads e (print_json (snd m)) (snd m)" if "m \<in> set ms" for m
    proof -
      have "snd m \<in> Basic_BNFs.snds m" by (cases m) simp
      then show ?thesis using JObj.prems JObj.IH [of m "snd m" e] d that by (auto simp: fold_max_le list_all_iff)
    qed
    then have "\<forall>m \<in> set ms. utf8 (fst m) \<and> reads e (print_json (snd m)) (snd m)" by blast
    note r = members_read [OF False this]
    have j: "\<exists>u'. joined (map print_member ms) @ x = CHR 0x22 # u'" for x
      using False by (cases ms; cases "tl ms") (auto simp: print_string_def)
    show ?thesis unfolding reads_def
    proof (intro allI impI)
      fix x assume "stops x"
      obtain k where k: "\<forall>f \<ge> k. parse_members f e (joined (map print_member ms) @ CHR ''}'' # x) = Some (ms, x)" using r by blast
      obtain u' where u': "joined (map print_member ms) @ CHR ''}'' # x = CHR 0x22 # u'" using j by blast
      have "parse_value f d (print_json (JObj ms) @ x) = Some (JObj ms, x)" if "Suc k \<le> f" for f
        using that k u' by (cases f) (auto simp: d skip_ws_Cons)
      then show "\<exists>k. \<forall>f \<ge> k. parse_value f d (print_json (JObj ms) @ x) = Some (JObj ms, x)" by blast
    qed
  qed
next
  case (JBoo b)
  show ?case by (cases b) (auto intro!: reads_step simp: skip_ws_Cons ws_def is_digit_def)
next
  case JNul
  show ?case by (auto intro!: reads_step simp: skip_ws_Cons ws_def is_digit_def)
qed

lemma json_parse_print:
  assumes "printable v" "depth v \<le> maxNestingDepth"
  shows "json_parse (print_json v) = Some v"
proof -
  obtain k where k: "\<And>f. k \<le> f \<Longrightarrow> parse_value f maxNestingDepth (print_json v) = Some (v, [])"
    using print_reads [OF assms] unfolding reads_def by (metis append_Nil2 stop_bytes(4))
  let ?f = "max k (Suc (2 * length (print_json v)))"
  have "parse_value (json_fuel (print_json v)) maxNestingDepth (print_json v) = parse_value ?f maxNestingDepth (print_json v)"
    by (rule json_fuel_enough [symmetric]) simp
  also have "\<dots> = Some (v, [])" using k [of ?f] by simp
  finally show ?thesis by (simp add: json_parse_def skip_ws_def)
qed


section \<open>The reply to an instant query\<close>

declare utf8.simps [simp del]

text \<open>A vector as Prometheus writes it: of every sample the labels, the time and the value.\<close>

definition sample_json :: "json \<times> string \<times> string \<Rightarrow> json" where
  "sample_json x = (case x of (metric, t, v) \<Rightarrow> JObj [(''metric'', metric), (''value'', JArr [JNum t, JStr v])])"

definition vector_reply :: "(json \<times> string \<times> string) list \<Rightarrow> json" where
  "vector_reply xs =
     JObj [(''status'', JStr ''success''),
           (''data'', JObj [(''resultType'', JStr ''vector''), (''result'', JArr (map sample_json xs))])]"

definition sample_ok :: "json \<times> string \<times> string \<Rightarrow> bool" where
  "sample_ok x = (case x of (metric, t, v) \<Rightarrow>
     printable metric \<and> depth metric + 4 \<le> maxNestingDepth \<and> is_number t \<and> ParseFloat t \<noteq> None \<and> utf8 v)"

lemma utf8_names: "utf8 ''status''" "utf8 ''success''" "utf8 ''data''" "utf8 ''resultType''" "utf8 ''vector''"
    "utf8 ''result''" "utf8 ''metric''" "utf8 ''value''"
  by (simp_all add: utf8.simps rune_len_def rune_lead_def)

lemma fold_names: "fold_name ''status'' = ''status''" "fold_name ''data'' = ''data''"
    "fold_name ''resultType'' = ''resulttype''" "fold_name ''result'' = ''result''"
    "fold_name ''metric'' = ''metric''" "fold_name ''value'' = ''value''"
  by code_simp+

lemma sample_printable: "sample_ok x \<Longrightarrow> printable (sample_json x) \<and> depth (sample_json x) + 3 \<le> maxNestingDepth"
  by (auto simp: sample_ok_def sample_json_def utf8_names maxNestingDepth_def split: prod.splits)

lemma reply_printable:
  assumes "list_all sample_ok xs"
  shows "printable (vector_reply xs)" "depth (vector_reply xs) \<le> maxNestingDepth"
proof -
  have "\<forall>x \<in> set xs. printable (sample_json x) \<and> depth (sample_json x) + 3 \<le> maxNestingDepth"
    using assms sample_printable by (auto simp: list_all_iff)
  then show "printable (vector_reply xs)" "depth (vector_reply xs) \<le> maxNestingDepth"
    by (auto simp: vector_reply_def utf8_names list_all_iff fold_max_le maxNestingDepth_def)
qed

lemma sample_decodes: "sample_ok x \<Longrightarrow> decode_sample (sample_json x) y = Some (JString (snd (snd x)))"
  by (auto simp: sample_ok_def sample_json_def decode_sample_def decode_struct_def fold_names decode_value_def
      any_value_def split: prod.splits)

lemma samples_decode: "list_all sample_ok xs \<Longrightarrow>
    decode_elements (map sample_json xs) ys = Some (map (\<lambda>x. JString (snd (snd x))) xs @ drop (length xs) ys)"
  by (induction xs arbitrary: ys) (auto simp: sample_decodes drop_Suc)

lemma reply_decodes:
  assumes "list_all sample_ok xs"
  shows "json_Unmarshal (print_json (vector_reply xs)) =
    Inr \<lparr>pl_Status = ''success'', pl_ResultType = ''vector'', pl_Result = map (\<lambda>x. JString (snd (snd x))) xs\<rparr>"
proof -
  have "decode_result (JArr (map sample_json xs)) ([], 0) = Some (map (\<lambda>x. JString (snd (snd x))) xs, length xs)"
    using samples_decode [OF assms, of "[]"] by (simp add: decode_result_def)
  then have "decode_payload_json (vector_reply xs) =
      Some (''success'', ''vector'', map (\<lambda>x. JString (snd (snd x))) xs, length xs)"
    by (simp add: vector_reply_def decode_payload_json_def decode_struct_def fold_names decode_string_def)
  then show ?thesis using json_parse_print [OF reply_printable [OF assms]] by (simp add: json_Unmarshal_def)
qed

end
