(* ===== verification/Measurement_Properties.thy ===== *)
theory Measurement_Properties
  imports Example_Cluster Json_Printing
begin

text \<open>
  Properties of the Prometheus client and of the conversion of its samples, with the backend
  of their witnesses, which answers every query with one fixed reply.
\<close>

section \<open>A backend with a fixed reply\<close>

definition example_backend :: "(json \<times> string \<times> string) list \<Rightarrow> unit backend" where
  "example_backend xs = \<lparr>be_do = (\<lambda>u w. (Response 200 (print_json (vector_reply xs)), w))\<rparr>"

text \<open>A sample with the value zero, without labels, at time one.\<close>

definition zero_sample :: "json \<times> string \<times> string" where
  "zero_sample = (JObj [], ''1'', ''0'')"

definition example_client :: client where
  "example_client =
     \<lparr>cl_baseURL = \<lparr>u_Scheme = ''http'', u_Opaque = [], u_User = None, u_Host = ''p'', u_Path = [],
                    u_RawQuery = [], u_Fragment = []\<rparr>, cl_Timeout = 10000000000\<rparr>"

lemma parseSample_zero: "parseSample ''0'' = Inr (FFin 0)"
proof -
  have "readFloat ''0'' = Some 0" "float_special ''0'' = None" by code_simp+
  then show ?thesis using f64_of_int [of 0] by (simp add: parseSample_def prometheusNaN_def ParseFloat_def)
qed

lemma zero_sample: "sample_ok zero_sample"
proof -
  have "readFloat ''1'' = Some 1" "float_special ''1'' = None" "is_number ''1''" by code_simp+
  moreover have "utf8 ''0''" by (simp add: utf8.simps rune_len_def rune_lead_def)
  ultimately show ?thesis using f64_of_int [of 1]
    by (simp add: sample_ok_def zero_sample_def maxNestingDepth_def ParseFloat_def)
qed

lemma example_body:
  "length (print_json (vector_reply [])) \<le> 200" "length (print_json (vector_reply [zero_sample])) \<le> 200"
  "length (print_json (vector_reply [zero_sample, zero_sample])) \<le> 200"
  by code_simp+

lemma example_reply:
  assumes "xs \<in> {[], [zero_sample], [zero_sample, zero_sample]}"
  shows "Query (example_backend xs) c e w =
    (decode_payload \<lparr>pl_Status = ''success'', pl_ResultType = ''vector'', pl_Result = map (\<lambda>x. JString ''0'') xs\<rparr>, ())"
proof -
  have ok: "length (print_json (vector_reply xs)) \<le> 200" "list_all sample_ok xs"
    and m: "map (\<lambda>x. JString (snd (snd x))) xs = map (\<lambda>x. JString ''0'') xs"
    using assms example_body zero_sample by (auto simp: zero_sample_def)
  show ?thesis using reply_decodes [OF ok(2)] ok(1) unfolding m
    by (simp add: Query_def example_backend_def bodyLimit_def)
qed

lemma example_Query:
  "Query (example_backend []) c e w = (Inr (FFin 0, False), ())"
  "Query (example_backend [zero_sample]) c e w = (Inr (FFin 0, True), ())"
  "Query (example_backend [zero_sample, zero_sample]) c e w =
     (Inl (QWrap ''prometheus query returned %d samples; aggregate to one'' (QSentinel ErrMultiSample)), ())"
  by (simp_all add: example_reply decode_payload_def f_isNaN_def parseSample_zero)

lemma example_QueryPair:
  "QueryPair (example_backend [zero_sample]) c q w = (Inr (FFin 0, FFin 0, True), ())"
  "q_TargetHealth q = [] \<Longrightarrow> QueryPair (example_backend []) c q w = (Inr (FFin 0, FFin 0, False), ())"
  by (simp_all add: QueryPair_def example_Query validCPU_iff validMemory_iff maxCPU_value maxInt64Float_value)

section \<open>Properties\<close>

text \<open>C25: a pair returned by the Prometheus client converts without leaving
  the int64 range, and the quantities are the samples up to half a unit and one rounding of
  the product.\<close>

theorem measured_pair_converts_exactly:
  assumes "QueryPair be c q w = (Inr (cpu, mem, found), w')" "quantity_laws L val"
  shows "\<exists>x m. cpu = FFin x \<and> mem = FFin m \<and> 0 \<le> x \<and> 0 \<le> m \<and>
    PairOf L cpu mem = PairOf (L\<lparr>go_int64_ovf := ovf\<rparr>) cpu mem \<and>
    MeasurementPairOf L cpu mem = MeasurementPairOf (L\<lparr>go_int64_ovf := ovf\<rparr>) cpu mem \<and>
    \<bar>val (rp_CPU (PairOf L cpu mem)) - x\<bar> \<le> 1 / 2000 + x / 2 ^ 53 \<and>
    \<bar>val (rp_Memory (PairOf L cpu mem)) - m\<bar> \<le> 1 / 2 \<and>
    \<bar>val (rp_CPU (MeasurementPairOf L cpu mem)) - x\<bar> \<le> 1 / 2000000000 + x / 2 ^ 53"
proof (rule prom.converted [OF assms])
  fix x m
  assume a: "cpu = FFin x" "mem = FFin m" "0 \<le> x" "0 \<le> m"
    and b: "\<bar>val (rp_CPU (PairOf L cpu mem)) - x\<bar> \<le> 1 / 2000 + x / 2 ^ 53"
      "\<bar>val (rp_Memory (PairOf L cpu mem)) - m\<bar> \<le> 1 / 2"
      "\<bar>val (rp_CPU (MeasurementPairOf L cpu mem)) - x\<bar> \<le> 1 / 2000000000 + x / 2 ^ 53"
  have r: "x \<le> maxCPU" "m \<le> maxInt64Float"
    using prom.result_valid [OF assms(1)] a by (simp_all add: validCPU_iff validMemory_iff)
  have "PairOf L cpu mem = PairOf (L\<lparr>go_int64_ovf := ovf\<rparr>) cpu mem"
    "MeasurementPairOf L cpu mem = MeasurementPairOf (L\<lparr>go_int64_ovf := ovf\<rparr>) cpu mem"
    using a(3,4) r by (simp_all add: a(1,2) PairOf_finite MeasurementPairOf_finite)
  with a b show ?thesis by blast
qed

theorem measured_pair_converts_exactly_witness:
  "\<bar>rp_CPU (PairOf rat_lib (FFin 0) (FFin 0)) - 0\<bar> \<le> 1 / 2000"
  using measured_pair_converts_exactly [OF example_QueryPair(1) rat_lib_quantity_laws]
  by simp

text \<open>C26: a pair is reported absent only when both resource queries came
  back empty and, for a typed source, the health query of the pinned target then answered
  exactly one.\<close>

theorem absent_pair_needs_a_healthy_target:
  assumes "QueryPair be c q w = (Inr (cpu, mem, False), w')"
  shows "\<exists>w1 w2. Query be c (q_CPUCores q) w = (Inr (FFin 0, False), w1) \<and>
    Query be c (q_MemoryBytes q) w1 = (Inr (FFin 0, False), w2) \<and> cpu = FFin 0 \<and> mem = FFin 0 \<and>
    (if q_TargetHealth q = [] then w' = w2
     else Query be c (q_TargetHealth q) w2 = (Inr (FFin 1, True), w'))"
  by (rule QueryPair_absent_health [OF assms]) (use QueryPair_absent [OF assms] in blast)

theorem absent_pair_needs_a_healthy_target_witness:
  "Query (example_backend []) example_client ''cpu'' () = (Inr (FFin 0, False), ())"
  using absent_pair_needs_a_healthy_target [OF example_QueryPair(2) [of example_query]]
  by (simp add: example_query_def)

text \<open>C27: a query with more than one sample is a multi-sample error, a pair with
  one dimension missing is a partial-sample error, a found pair with a negative, non-finite or
  too large value is an invalid-sample error, and an error of either query is the error of the
  pair, with its sentinel.\<close>

theorem incoherent_replies_are_errors:
  "(be_do be (query_url c expr) w = (Response 200 body, w1) \<and>
      json_Unmarshal (take bodyLimit body) = Inr p \<and> pl_Status p = ''success'' \<and>
      pl_ResultType p = ''vector'' \<and> 1 < length (pl_Result p) \<longrightarrow>
      (\<exists>e. Query be c expr w = (Inl e, w1) \<and> errors_Is e ErrMultiSample)) \<and>
    (Query be c (q_CPUCores q) w = (Inl e, w1) \<longrightarrow>
      (\<exists>e'. QueryPair be c q w = (Inl e', w1) \<and> (\<forall>s. errors_Is e' s = errors_Is e s))) \<and>
    (Query be c (q_CPUCores q) w = (Inr (x, a), w1) \<and> Query be c (q_MemoryBytes q) w1 = (Inl e, w2) \<longrightarrow>
      (\<exists>e'. QueryPair be c q w = (Inl e', w2) \<and> (\<forall>s. errors_Is e' s = errors_Is e s))) \<and>
    (Query be c (q_CPUCores q) w = (Inr (x, a), w1) \<and> Query be c (q_MemoryBytes q) w1 = (Inr (y, b), w2) \<and>
      (a \<noteq> b \<or> a \<and> (\<nexists>r. x = FFin r \<and> 0 \<le> r \<and> r \<le> maxCPU) \<or>
       a \<and> (\<nexists>m. y = FFin m \<and> 0 \<le> m \<and> m \<le> maxInt64Float)) \<longrightarrow>
      (\<exists>e. QueryPair be c q w = (Inl e, w2) \<and>
         errors_Is e (if a \<noteq> b then ErrPartialSample else ErrInvalidSample)))"
proof (intro conjI impI)
  assume "be_do be (query_url c expr) w = (Response 200 body, w1) \<and>
      json_Unmarshal (take bodyLimit body) = Inr p \<and> pl_Status p = ''success'' \<and>
      pl_ResultType p = ''vector'' \<and> 1 < length (pl_Result p)"
  then show "\<exists>e. Query be c expr w = (Inl e, w1) \<and> errors_Is e ErrMultiSample"
    using Query_many_samples [of be c expr w body w1 p] by auto
next
  assume "Query be c (q_CPUCores q) w = (Inr (x, a), w1) \<and> Query be c (q_MemoryBytes q) w1 = (Inr (y, b), w2) \<and>
      (a \<noteq> b \<or> a \<and> (\<nexists>r. x = FFin r \<and> 0 \<le> r \<and> r \<le> maxCPU) \<or>
       a \<and> (\<nexists>m. y = FFin m \<and> 0 \<le> m \<and> m \<le> maxInt64Float))"
  then show "\<exists>e. QueryPair be c q w = (Inl e, w2) \<and>
         errors_Is e (if a \<noteq> b then ErrPartialSample else ErrInvalidSample)"
    using QueryPair_partial [of be c q w x a w1 y b w2] QueryPair_invalid [of be c q w x w1 y w2]
    by (cases "a = b") (auto simp: validCPU_iff validMemory_iff)
qed (auto simp: QueryPair_cpu_error QueryPair_memory_error)

theorem incoherent_replies_are_errors_witness:
  "\<exists>e. Query (example_backend [zero_sample, zero_sample]) example_client ''e'' () = (Inl e, ()) \<and>
       errors_Is e ErrMultiSample"
proof -
  let ?body = "print_json (vector_reply [zero_sample, zero_sample])"
  have "be_do (example_backend [zero_sample, zero_sample]) (query_url example_client ''e'') () = (Response 200 ?body, ())"
    by (simp add: example_backend_def)
  moreover have "json_Unmarshal (take bodyLimit ?body) =
      Inr \<lparr>pl_Status = ''success'', pl_ResultType = ''vector'', pl_Result = [JString ''0'', JString ''0'']\<rparr>"
    using reply_decodes [of "[zero_sample, zero_sample]"] zero_sample example_body(3)
    by (simp add: bodyLimit_def) (simp add: zero_sample_def)
  ultimately show ?thesis
    using conjunct1 [OF incoherent_replies_are_errors [of "example_backend [zero_sample, zero_sample]" example_client "''e''" "()" ?body "()"
      "\<lparr>pl_Status = ''success'', pl_ResultType = ''vector'', pl_Result = [JString ''0'', JString ''0'']\<rparr>"]]
    by simp
qed

text \<open>C28: a query is one request to the API path under the base path,
  with the expression as the only query parameter; unescaping that parameter gives the
  expression back, whatever bytes it has, and scheme, host and user are the client's.\<close>

theorem request_url_carries_the_expression:
  assumes "u_RawQuery (cl_baseURL c) = []"
  shows "\<exists>v. u_RawQuery (query_url c expr) = ''query='' @ v \<and> QueryUnescape v = Some expr \<and>
      CHR ''&'' \<notin> set v \<and> CHR '';'' \<notin> set v \<and>
      u_Scheme (query_url c expr) = u_Scheme (cl_baseURL c) \<and> u_Host (query_url c expr) = u_Host (cl_baseURL c) \<and>
      u_User (query_url c expr) = u_User (cl_baseURL c) \<and>
      u_Path (query_url c expr) = trim_right (u_Path (cl_baseURL c)) (CHR ''/'') @ ''/api/v1/query''"
  using assms QueryEscape_bytes [of "CHR ''&''" expr] QueryEscape_bytes [of "CHR '';''" expr]
  by (intro exI [of _ "QueryEscape expr"])
    (simp add: query_url_RawQuery QueryUnescape_QueryEscape query_unreserved_def is_alnum_def query_url_simps)

theorem request_url_carries_the_expression_witness:
  "\<exists>v. u_RawQuery (query_url example_client ''a&b=c'') = ''query='' @ v \<and> QueryUnescape v = Some ''a&b=c''"
  using request_url_carries_the_expression [of example_client "''a&b=c''"]
  by (auto simp: example_client_def)


text \<open>C38: a reply as the server prints it, whatever the labels of its samples, reads as the vector it
  is: no sample is an absent workload, one sample is its value, several are a multi-sample
  error.\<close>

theorem vector_reply_is_its_samples:
  assumes "be_do be (query_url c e) w = (Response 200 (print_json (vector_reply xs)), w')"
    and "list_all sample_ok xs" "length (print_json (vector_reply xs)) \<le> bodyLimit"
  shows "(xs = [] \<longrightarrow> Query be c e w = (Inr (FFin 0, False), w')) \<and>
    (\<forall>metric t v x. xs = [(metric, t, v)] \<and> parseSample v = Inr x \<and> x \<noteq> FNaN \<longrightarrow>
       Query be c e w = (Inr (x, True), w')) \<and>
    (1 < length xs \<longrightarrow> (\<exists>err. Query be c e w = (Inl err, w') \<and> errors_Is err ErrMultiSample))"
proof -
  have q: "Query be c e w = (decode_payload \<lparr>pl_Status = ''success'', pl_ResultType = ''vector'',
      pl_Result = map (\<lambda>x. JString (snd (snd x))) xs\<rparr>, w')"
    using assms(1,3) reply_decodes [OF assms(2)] by (simp add: Query_def)
  have "1 < length xs \<Longrightarrow> xs \<noteq> [] \<and> length xs \<noteq> Suc 0" by auto
  moreover have "x \<noteq> FNaN \<Longrightarrow> \<not> f_isNaN x" for x by (cases x) (simp_all add: f_isNaN_def)
  ultimately show ?thesis unfolding q by (auto simp: decode_payload_def)
qed

theorem vector_reply_is_its_samples_witness:
  "Query (example_backend [zero_sample]) example_client ''cpu'' () = (Inr (FFin 0, True), ())"
proof -
  have "be_do (example_backend [zero_sample]) (query_url example_client ''cpu'') () =
      (Response 200 (print_json (vector_reply [zero_sample])), ())"
    by (simp add: example_backend_def)
  moreover have "list_all sample_ok [zero_sample]" using zero_sample by simp
  moreover have "length (print_json (vector_reply [zero_sample])) \<le> bodyLimit"
    using example_body(2) by (simp add: bodyLimit_def)
  ultimately show ?thesis
    using vector_reply_is_its_samples [of "example_backend [zero_sample]" example_client "''cpu''" "()" "[zero_sample]" "()"]
      parseSample_zero by (auto simp: zero_sample_def)
qed

text \<open>A successful vector reply whose result is null or left out is no vector, and is read like an
  empty one: the workload counts as absent.\<close>

lemma missing_result_is_read_as_absent:
  assumes "rest \<in> {[], [(''result'', JNul)]}"
    and "be_do be (query_url c e) w = (Response 200 (print_json (JObj [(''status'', JStr ''success''),
           (''data'', JObj ((''resultType'', JStr ''vector'') # rest))])), w')"
  shows "Query be c e w = (Inr (FFin 0, False), w')"
proof -
  let ?v = "JObj [(''status'', JStr ''success''), (''data'', JObj ((''resultType'', JStr ''vector'') # rest))]"
  have "printable ?v" "depth ?v \<le> maxNestingDepth" using assms(1) by (auto simp: utf8_names maxNestingDepth_def)
  then have "json_parse (print_json ?v) = Some ?v" by (rule json_parse_print)
  moreover have "decode_payload_json ?v = Some (''success'', ''vector'', [], 0)"
  proof -
    consider "rest = []" | "rest = [(''result'', JNul)]" using assms(1) by blast
    then show ?thesis
      by cases (simp_all add: decode_payload_json_def decode_struct_def fold_names decode_string_def decode_result_def)
  qed
  ultimately have "json_Unmarshal (print_json ?v) = Inr \<lparr>pl_Status = ''success'', pl_ResultType = ''vector'', pl_Result = []\<rparr>"
    by (simp add: json_Unmarshal_def del: print_json.simps)
  moreover have "length (print_json ?v) \<le> 200"
  proof -
    have "\<forall>rest \<in> set [[], [(''result'', JNul)]]. length (print_json (JObj [(''status'', JStr ''success''),
        (''data'', JObj ((''resultType'', JStr ''vector'') # rest))])) \<le> 200" by code_simp
    then show ?thesis using assms(1) by auto
  qed
  ultimately show ?thesis using assms(2)
    by (simp add: Query_def bodyLimit_def decode_payload_def del: print_json.simps)
qed

end
