(* ===== verification/Setup_Properties.thy ===== *)
theory Setup_Properties
  imports Destination_Properties Measurement_Properties
begin

text \<open>
  Properties that span the setup of the controller, the destination policy, the client and a pass: what
  the installed querier reaches, what a second recorder leaves on a registry, and which hosts an
  allowlist lets through, within ASCII and outside it.
\<close>

section \<open>A pass with the default querier\<close>

definition any_policy :: DestinationPolicy where
  "any_policy = \<lparr>dp_allowAny = True, dp_allowed = {}\<rparr>"

definition default_cluster :: "(rat, unit) cluster" where
  "default_cluster = (create_cluster example_pair)
     \<lparr>QuerierFor := default_QuerierFor example_dns (example_backend [zero_sample]) any_policy\<rparr>"

lemma example_url:
  "parsePrometheusURL example_dns ''http://p'' =
     Inr (no_url\<lparr>u_Scheme := ''http'', u_Host := ''p''\<rparr>, origin_text ''http'' ''p'' ''80'')"
  by (simp add: parsePrometheusURL_def is_trimmed_def space_runes_def url_eval trim_right_def example_hosts
      canonical_port_def)

lemma default_querier_run:
  "default_QuerierFor example_dns (example_backend [zero_sample]) any_policy ''http://p'' =
     Inr (QueryPair (example_backend [zero_sample])
       \<lparr>cl_baseURL = no_url\<lparr>u_Scheme := ''http'', u_Host := ''p''\<rparr>, cl_Timeout = queryTimeout\<rparr>)"
  by (simp add: default_QuerierFor_def NewClient_def Validate_def any_policy_def example_url queryTimeout_def)

lemma default_run:
  "\<exists>rc t s. Reconcile rat_lib map_vec_lib default_cluster ''ns'' ''db'' None () = (Inr s, rc, t, ()) \<and>
     CQueryPair example_query (Inr (FFin 0, FFin 0, True)) \<in> set t"
proof -
  have u: "mc_PrometheusURL (spec_Metrics example_spec) = ''http://p''" by (simp add: example_spec_def)
  show ?thesis
    by (simp add: Reconcile_def default_cluster_def create_cluster_def example_eval example_query_def
        u default_querier_run example_QueryPair example_floor example_Build example_poll)
qed

section \<open>Hosts outside ASCII\<close>

text \<open>The two runes outside ASCII whose lower case is an ASCII letter, beside that letter.\<close>

definition folded_runes :: "(string \<times> string) set" where
  "folded_runes = {(''i'', [CHR 0xC4, CHR 0xB0]), (''k'', [CHR 0xE2, CHR 0x84, CHR 0xAA])}"

definition ascii :: "string \<Rightarrow> bool" where
  "ascii s \<longleftrightarrow> list_all (\<lambda>c. (of_char c :: nat) < 128) s"

lemma lower_text_append: "ascii a \<Longrightarrow> lower_text (a @ s) = map to_lower_byte a @ lower_text s"
proof (induction a)
  case (Cons c a)
  have "c \<noteq> CHR 0xC4" "c \<noteq> CHR 0xE2" using Cons.prems by (auto simp: ascii_def)
  then show ?case using Cons by (simp add: ascii_def)
qed simp

lemma lower_text_folded:
  assumes "ascii a" "ascii b" "(x, y) \<in> folded_runes"
  shows "lower_text (a @ y @ b) = lower_text (a @ x @ b)"
proof -
  have "lower_text (y @ b) = lower_text (x @ b)"
    using assms(3) by (auto simp: folded_runes_def to_lower_byte_def)
  then show ?thesis using lower_text_append [OF assms(1)] by simp
qed

text \<open>A byte that stands for itself in the host of a URL.\<close>

definition plain_byte :: "char \<Rightarrow> bool" where
  "plain_byte c \<longleftrightarrow> dns_byte c \<or> 128 \<le> (of_char c :: nat)"

lemma plain_byteD:
  assumes "plain_byte c"
  shows "c \<notin> set ''/?#@:[]%''" "\<not> ctl_byte c" "128 \<le> (of_char c :: nat) \<or> host_byte c"
  using assms by (auto simp: plain_byte_def dns_byte_def host_byte_def ctl_byte_def is_alnum_def Let_def)

lemma plain_unescape: "list_all plain_byte h \<Longrightarrow> url_unescape MHost h = Some h"
proof (induction h)
  case (Cons c h)
  have "c \<noteq> CHR ''%''" "128 \<le> (of_char c :: nat) \<or> host_byte c" using plain_byteD [of c] Cons.prems by auto
  then show ?case using Cons by auto
qed simp

lemma plain_cuts:
  assumes "list_all plain_byte h" "c \<in> set ''/?#@:[]%''"
  shows "c \<notin> set h" "takeWhile (\<lambda>x. x \<noteq> c) h = h" "dropWhile (\<lambda>x. x \<noteq> c) h = []"
proof -
  show "c \<notin> set h" using assms plain_byteD(1) by (auto simp: list_all_iff)
  then have "\<forall>x \<in> set h. x \<noteq> c" by auto
  then show "takeWhile (\<lambda>x. x \<noteq> c) h = h" "dropWhile (\<lambda>x. x \<noteq> c) h = []"
    by (simp_all add: takeWhile_eq_all_conv dropWhile_eq_Nil_conv)
qed

lemma plain_authority:
  assumes "list_all plain_byte h"
  shows "parseAuthority h = Some (None, h)"
proof -
  note c = plain_cuts [OF assms]
  have "CHR ''@'' \<notin> set h" "CHR ''['' \<notin> set h" "dropWhile (\<lambda>x. x \<noteq> CHR '':'') h = []" by (rule c, simp)+
  then show ?thesis
    using plain_unescape [OF assms] by (simp add: parseAuthority_def cut_last_def parseHost_def validOptionalPort_def)
qed

lemma scheme_read:
  assumes "scheme \<in> {''http'', ''https''}"
  shows "getScheme [] (scheme @ ''://'' @ h) = Some (scheme, ''//'' @ h)" "map to_lower_byte scheme = scheme"
    "\<not> list_ex ctl_byte scheme" "CHR ''#'' \<notin> set scheme"
  using assms by (auto simp: is_letter_def is_alnum_def is_digit_def to_lower_byte_def ctl_byte_def Let_def)

lemma plain_hierarchy:
  assumes "list_all plain_byte h" "scheme \<in> {''http'', ''https''}"
  shows "parse_hierarchy scheme [] (''//'' @ h) = Some (no_url\<lparr>u_Scheme := scheme, u_Host := h\<rparr>)"
proof -
  have h: "takeWhile (\<lambda>x. x \<noteq> CHR ''/'') h = h" "dropWhile (\<lambda>x. x \<noteq> CHR ''/'') h = []"
    by (rule plain_cuts [OF assms(1)], simp)+
  have "scheme \<noteq> []" using assms(2) by auto
  then show ?thesis by (simp add: parse_hierarchy_def h plain_authority [OF assms(1)] no_url_def)
qed

lemma cut_absent: "q \<notin> set s \<Longrightarrow> cut_byte q s = (s, [])"
  by (induction s) (auto simp: cut_byte_def)

lemma plain_parse:
  assumes "list_all plain_byte h" "scheme \<in> {''http'', ''https''}"
  shows "url_Parse (scheme @ ''://'' @ h) = Some (no_url\<lparr>u_Scheme := scheme, u_Host := h\<rparr>)"
proof -
  define s where "s = scheme @ ''://'' @ h"
  define r where "r = ''//'' @ h"
  have n: "CHR ''#'' \<notin> set h" "CHR ''?'' \<notin> set h" by (rule plain_cuts [OF assms(1)], simp)+
  have cuts: "cut_byte (CHR ''#'') s = (s, [])" "cut_byte (CHR ''?'') r = (r, [])"
    using n scheme_read(4) [OF assms(2)] by (auto simp: s_def r_def intro!: cut_absent)
  have "\<not> list_ex ctl_byte s"
    using plain_byteD(2) assms(1) scheme_read(3) [OF assms(2)] by (auto simp: s_def list_ex_iff list_all_iff ctl_byte_def)
  moreover have "s \<noteq> ''*''" "scheme \<noteq> []" "take 1 r = ''/''" using assms(2) by (auto simp: s_def r_def)
  moreover have "getScheme [] s = Some (scheme, r)" using scheme_read(1) [OF assms(2)] by (simp add: s_def r_def)
  moreover have "parse_hierarchy scheme [] r = Some (no_url\<lparr>u_Scheme := scheme, u_Host := h\<rparr>)"
    unfolding r_def by (rule plain_hierarchy [OF assms])
  ultimately show ?thesis
    using cuts scheme_read(2) [OF assms(2)] unfolding s_def [symmetric] by (simp add: url_Parse_def parse_url_def)
qed

lemma trimmed_ends:
  assumes "s \<noteq> []" "hd s \<notin> hd ` set space_runes" "last s \<notin> last ` set space_runes"
  shows "is_trimmed s"
proof -
  have ne: "r \<noteq> []" if "r \<in> set space_runes" for r using that by (auto simp: space_runes_def)
  have "take (length r) s \<noteq> r" if r: "r \<in> set space_runes" for r
  proof
    assume "take (length r) s = r"
    then have "hd r = hd s" using ne [OF r] assms(1) by (metis hd_take length_greater_0_conv)
    then show False using r assms(2) by (metis imageI)
  qed
  moreover have "drop (length s - length r) s \<noteq> r" if r: "r \<in> set space_runes" for r
  proof
    assume d: "drop (length s - length r) s = r"
    then have "length s - length r < length s" using ne [OF r] by (metis drop_all not_le_imp_less)
    then have "last r = last s" using d last_drop by metis
    then show False using r assms(3) by (metis imageI)
  qed
  ultimately show ?thesis by (auto simp: is_trimmed_def list_all_iff)
qed

lemma plain_origin:
  assumes "list_all plain_byte h" "h \<noteq> []" "last h \<notin> last ` set space_runes" "scheme \<in> {''http'', ''https''}"
  shows "parsePrometheusURL dns (scheme @ ''://'' @ h) =
    (case canonicalHostname dns h of
       Inl e \<Rightarrow> Inl (''invalid prometheusURL: host is not canonicalizable'', [])
     | Inr g \<Rightarrow> Inr (no_url\<lparr>u_Scheme := scheme, u_Host := h\<rparr>,
         origin_text scheme g (if scheme = ''http'' then ''80'' else ''443'')))"
proof -
  let ?s = "scheme @ ''://'' @ h" and ?u = "no_url\<lparr>u_Scheme := scheme, u_Host := h\<rparr>"
  have ne: "CHR ''/'' \<notin> set h" "CHR '':'' \<notin> set h" "CHR ''['' \<notin> set h" by (rule plain_cuts [OF assms(1)], simp)+
  have t: "is_trimmed ?s" by (rule trimmed_ends) (use assms(2,3,4) in \<open>auto simp: space_runes_def\<close>)
  have r: "trim_right ?s (CHR ''/'') = ?s"
    using ne(1) assms(2) by (cases h rule: rev_cases) (auto simp: trim_right_def)
  have "splitHostPort h = (h, [])"
    using ne hd_in_set [OF assms(2)] by (auto simp: splitHostPort_def cut_last_def)
  then have p: "url_Hostname ?u = h" "url_Port ?u = []" by (simp_all add: url_Hostname_def url_Port_def)
  have f: "u_Scheme ?u = scheme" "u_Host ?u = h" "u_Opaque ?u = []" "u_User ?u = None" "u_RawQuery ?u = []"
    "u_Fragment ?u = []" "?u\<lparr>u_Scheme := scheme\<rparr> = ?u"
    by (simp_all add: no_url_def)
  have port: "canonical_port scheme [] = Inr (if scheme = ''http'' then ''80'' else ''443'')"
    by (simp add: canonical_port_def)
  have c: "(rawURL = [] \<or> \<not> is_trimmed rawURL) = False" if "rawURL = ?s" for rawURL using that t by auto
  have d: "(scheme \<noteq> ''http'' \<and> scheme \<noteq> ''https'' \<or> h = [] \<or> ([] :: string) \<noteq> []) = False" using assms(2,4) by auto
  show ?thesis
    unfolding parsePrometheusURL_def c [OF refl] r plain_parse [OF assms(1,4)] option.case Let_def f scheme_read(2) [OF assms(4)]
      p port d
    by (simp split: sum.split)
qed

section \<open>Properties\<close>

text \<open>C29: with the querier that the setup installs, every query pair of a pass went to
  a client for the URL of the workload, which the manager's policy admits; that URL is http or
  https with a host and without credentials, and a measured pair that comes back is valid.\<close>

theorem default_querier_keeps_to_the_policy:
  assumes "Reconcile L V E ns n rc w = (res, rc', t, w')" "api_GetShadowWorkload E ns n w = (Inr sw, w0)"
    and "QuerierFor E = default_QuerierFor dns be policy" "CQueryPair q a \<in> set t"
  shows "(\<exists>u. Validate dns policy (mc_PrometheusURL (spec_Metrics (sw_Spec sw))) = Inr u \<and>
      u_Scheme u \<in> {''http'', ''https''} \<and> u_Host u \<noteq> [] \<and> u_User u = None) \<and>
    (\<forall>cpu mem found. a = Inr (cpu, mem, found) \<longrightarrow> validCPUResourceSample cpu \<and> validMemoryResourceSample mem)"
proof -
  note q = default_querier.queried [OF assms]
  obtain u where u: "Validate dns policy (mc_PrometheusURL (spec_Metrics (sw_Spec sw))) = Inr u" using q(1) by blast
  then obtain o1 where "parsePrometheusURL dns (mc_PrometheusURL (spec_Metrics (sw_Spec sw))) = Inr (u, o1)"
    by (auto simp: Validate_def split: sum.splits if_splits)
  then have "u_Scheme u \<in> {''http'', ''https''} \<and> u_Host u \<noteq> [] \<and> u_User u = None"
    by (rule parsePrometheusURL_ok) simp
  then show ?thesis using u q(2) by blast
qed

theorem default_querier_keeps_to_the_policy_witness:
  "\<exists>u. Validate example_dns any_policy ''http://p'' = Inr u \<and> u_User u = None"
proof -
  obtain rc t s where r: "Reconcile rat_lib map_vec_lib default_cluster ''ns'' ''db'' None () = (Inr s, rc, t, ())"
      "CQueryPair example_query (Inr (FFin 0, FFin 0, True)) \<in> set t"
    using default_run by blast
  have c: "api_GetShadowWorkload default_cluster ''ns'' ''db'' () = (Inr example_sw, ())"
      "QuerierFor default_cluster = default_QuerierFor example_dns (example_backend [zero_sample]) any_policy"
      "mc_PrometheusURL (spec_Metrics (sw_Spec example_sw)) = ''http://p''"
    by (simp_all add: default_cluster_def create_cluster_def example_spec_def)
  from default_querier_keeps_to_the_policy [OF r(1) c(1,2) r(2)] c(3) show ?thesis by auto
qed

text \<open>The setup keeps what the configuration has, installs the event recorder, the
  policy-checking querier and a fresh recorder where they are missing, registers the recorder
  before the watches, and fails exactly when one of the two fails.\<close>

lemma setup_fills_in_the_defaults:
  assumes "SetupWithManager dns be V reg watches c s = (e, c', s')"
  shows "rc_hasRecorder c' \<and> rc_policy c' = rc_policy c \<and>
    rc_QuerierFor c' = Some (case rc_QuerierFor c of Some f \<Rightarrow> f | None \<Rightarrow> default_QuerierFor dns be (rc_policy c)) \<and>
    rc_Metrics c' = (case rc_Metrics c of Some rc \<Rightarrow> Some rc | None \<Rightarrow> New V) \<and>
    (e = None \<longleftrightarrow> (\<exists>s1. Register reg (rc_Metrics c') s = (None, s1) \<and> watches s1 = (None, s')))"
proof -
  obtain e1 s1 where r: "Register reg (rc_Metrics (setup_defaults dns be V c)) s = (e1, s1)"
    by (cases "Register reg (rc_Metrics (setup_defaults dns be V c)) s")
  obtain e2 s2 where w: "watches s1 = (e2, s2)" by (cases "watches s1")
  have c: "c' = setup_defaults dns be V c" "e = None \<longleftrightarrow> e1 = None \<and> e2 = None" "e = None \<longrightarrow> s' = s2"
    using assms r w by (auto simp: SetupWithManager_def Let_def split: option.splits)
  have "(e = None) = (\<exists>s1. Register reg (rc_Metrics c') s = (None, s1) \<and> watches s1 = (None, s'))"
    using r w c by auto
  then show ?thesis using c(1) by (simp add: setup_defaults_def Let_def split: option.splits)
qed

section \<open>Registration\<close>

definition metric_names :: "string list" where
  "metric_names =
     [MetricMeasuredCPU, MetricMeasuredMemory, MetricReservedCPU, MetricReservedMemory, MetricLastSuccess,
      MetricUpdates, MetricFailures]"

lemma metric_names_distinct: "distinct metric_names"
  by code_simp

text \<open>
  What is documented of a registry: it takes a collector whose name is free, answers that a
  collector is registered already when the name is taken by one of an agreeing description, and
  refuses any other.  \<open>served\<close> is what it exposes under a name, \<open>name_of\<close> the name of a collector and
  \<open>agrees\<close> the agreement of descriptions.
\<close>

definition registry_laws ::
  "('v \<Rightarrow> 'r \<Rightarrow> register_error option \<times> 'r) \<Rightarrow> ('r \<Rightarrow> string \<rightharpoonup> 'v) \<Rightarrow> ('v \<Rightarrow> string) \<Rightarrow> ('v \<Rightarrow> 'v \<Rightarrow> bool) \<Rightarrow> bool" where
  "registry_laws reg served name_of agrees \<longleftrightarrow>
     (\<forall>v s. (case served s (name_of v) of
               None \<Rightarrow> fst (reg v s) = None \<and> served (snd (reg v s)) = (served s)(name_of v \<mapsto> v)
             | Some y \<Rightarrow> served (snd (reg v s)) = served s \<and>
                 (if agrees y v then fst (reg v s) = Some AlreadyRegistered
                  else \<exists>msg. fst (reg v s) = Some (RegisterFailed msg))))"

lemma registered_one:
  assumes "registry_laws reg served name_of agrees" "registerToleratingDuplicates reg v s = (e, s')"
  obtains (taken) "served s (name_of v) = None" "e = None" "served s' = (served s)(name_of v \<mapsto> v)"
  | (kept) y where "served s (name_of v) = Some y" "agrees y v" "e = None" "served s' = served s"
  | (refused) y where "served s (name_of v) = Some y" "\<not> agrees y v" "e \<noteq> None" "served s' = served s"
proof -
  have "case served s (name_of v) of
      None \<Rightarrow> fst (reg v s) = None \<and> served (snd (reg v s)) = (served s)(name_of v \<mapsto> v)
    | Some y \<Rightarrow> served (snd (reg v s)) = served s \<and>
        (if agrees y v then fst (reg v s) = Some AlreadyRegistered else \<exists>msg. fst (reg v s) = Some (RegisterFailed msg))"
    using assms(1) unfolding registry_laws_def by blast
  then show thesis
    using that assms(2) by (cases "reg v s") (auto simp: registerToleratingDuplicates_def split: option.splits if_splits)
qed

text \<open>The collectors of a list, registered in turn.\<close>

definition by_name :: "('v \<Rightarrow> string) \<Rightarrow> 'v list \<Rightarrow> string \<rightharpoonup> 'v" where
  "by_name name_of vs = map_of (map (\<lambda>v. (name_of v, v)) vs)"

lemma register_all_served:
  assumes "registry_laws reg served name_of agrees" "distinct (map name_of vs)"
  shows "(fst (register_all reg vs s) = None \<longleftrightarrow>
      (\<forall>v \<in> set vs. \<forall>y. served s (name_of v) = Some y \<longrightarrow> agrees y v)) \<and>
    served s \<subseteq>\<^sub>m served (snd (register_all reg vs s)) \<and>
    (fst (register_all reg vs s) = None \<longrightarrow> served (snd (register_all reg vs s)) = by_name name_of vs ++ served s)"
  using assms(2)
proof (induction vs arbitrary: s)
  case (Cons v vs)
  obtain e s' where r: "registerToleratingDuplicates reg v s = (e, s')" by (cases "registerToleratingDuplicates reg v s")
  have fresh: "name_of v \<notin> name_of ` set vs" using Cons.prems by simp
  have absent: "by_name name_of vs (name_of v) = None"
    using fresh by (auto simp: by_name_def map_of_eq_None_iff)
  note IH = Cons.IH [of s']
  from assms(1) r show ?case
  proof (cases rule: registered_one)
    case taken
    have "served s' (name_of u) = served s (name_of u)" if "u \<in> set vs" for u
      using taken(3) fresh that by (metis fun_upd_apply imageI)
    moreover have "by_name name_of vs ++ served s' = by_name name_of (v # vs) ++ served s"
      using taken(1,3) absent by (auto simp: by_name_def map_add_def fun_eq_iff split: option.split)
    moreover have "served s \<subseteq>\<^sub>m served s'" using taken(1,3) by (auto simp: map_le_def)
    ultimately show ?thesis using IH taken(1,2) r Cons.prems by (auto intro: map_le_trans)
  next
    case (kept y)
    have "by_name name_of vs ++ served s = by_name name_of (v # vs) ++ served s"
      using kept(1) by (auto simp: by_name_def map_add_def fun_eq_iff split: option.split)
    then show ?thesis using IH kept r Cons.prems by auto
  next
    case (refused y)
    then show ?thesis using r by auto
  qed
qed (simp add: by_name_def)

lemma register_all_append:
  "register_all reg (vs @ us) s =
     (case register_all reg vs s of (Some e, s') \<Rightarrow> (Some e, s') | (None, s') \<Rightarrow> register_all reg us s')"
  by (induction vs arbitrary: s) (auto split: prod.splits option.splits)

lemma Register_collected: "Register reg (Some rc) s = register_all reg (collected_vecs rc) s"
  by (simp add: Register_def collected_vecs_def register_all_append)

text \<open>C35: a new recorder on a registry that may serve collectors of another recorder already: the
  registration succeeds exactly when each of the recorder's metric names is free or taken by a
  collector of an agreeing description.  Whatever happens, what the registry serves stays.  After
  a success each of the names is served, but by the collector that was there before wherever there
  was one: only the free names serve the new recorder.\<close>

theorem duplicate_registration_serves_the_old_series:
  assumes "New V = Some rc" "registry_laws reg served name_of agrees" "\<And>n ks. name_of (v_new V n ks) = n"
  shows "(fst (Register reg (Some rc) s) = None \<longleftrightarrow>
      (\<forall>v \<in> set (collected_vecs rc). \<forall>y. served s (name_of v) = Some y \<longrightarrow> agrees y v)) \<and>
    served s \<subseteq>\<^sub>m served (snd (Register reg (Some rc) s)) \<and>
    (fst (Register reg (Some rc) s) = None \<longrightarrow>
       served (snd (Register reg (Some rc) s)) = by_name name_of (collected_vecs rc) ++ served s)"
proof -
  have "map name_of (collected_vecs rc) = metric_names"
    using assms(1,3) by (auto simp: New_def Let_def collected_vecs_def gaugeVecs_def counterVecs_def metric_names_def)
  then have "distinct (map name_of (collected_vecs rc))" by (simp add: metric_names_distinct)
  from register_all_served [OF assms(2) this] show ?thesis by (simp add: Register_collected)
qed

text \<open>Vectors with their names, in a registry that keeps one collector for each name.\<close>

definition named_vec_lib :: "(string \<times> map_vec) vec_lib" where
  "named_vec_lib =
     \<lparr>v_new = (\<lambda>n ks. (n, v_new map_vec_lib n ks)),
      v_keys = (\<lambda>v. mv_keys (snd v)),
      v_series = (\<lambda>v. mv_series (snd v)),
      v_Set = (\<lambda>v ls x. (fst v, v_Set map_vec_lib (snd v) ls x)),
      v_Inc = (\<lambda>v ls. (fst v, v_Inc map_vec_lib (snd v) ls)),
      v_DeletePartialMatch = (\<lambda>v m. (fst v, v_DeletePartialMatch map_vec_lib (snd v) m))\<rparr>"

definition named_registry ::
  "string \<times> map_vec \<Rightarrow> (string \<rightharpoonup> string \<times> map_vec) \<Rightarrow> register_error option \<times> (string \<rightharpoonup> string \<times> map_vec)" where
  "named_registry v s =
     (case s (fst v) of
        None \<Rightarrow> (None, s(fst v \<mapsto> v))
      | Some y \<Rightarrow> (Some (if mv_keys (snd y) = mv_keys (snd v) then AlreadyRegistered else RegisterFailed ''labels''), s))"

lemma named_registry_laws: "registry_laws named_registry id fst (\<lambda>y v. mv_keys (snd y) = mv_keys (snd v))"
  by (auto simp: registry_laws_def named_registry_def split: option.split)

text \<open>The counter of an earlier recorder stays, and the rest of the new recorder is served.\<close>

theorem duplicate_registration_serves_the_old_series_witness:
  "\<exists>rc old s'. New named_vec_lib = Some rc \<and> old \<noteq> reservationUpdate rc \<and>
     Register named_registry (Some rc) [MetricUpdates \<mapsto> old] = (None, s') \<and>
     s' MetricUpdates = Some old \<and> s' MetricMeasuredCPU = Some (measuredCPU rc)"
proof -
  define common where "common = [LabelNamespace, LabelName]"
  obtain rc where rc: "New named_vec_lib = Some rc" by (simp add: New_def Let_def)
  have v: "collected_vecs rc =
      map (\<lambda>n. (n, \<lparr>mv_keys = if n = MetricFailures then common @ [LabelReason] else common, mv_series = Map.empty\<rparr>)) metric_names"
    "measuredCPU rc = hd (collected_vecs rc)" "reservationUpdate rc = (MetricUpdates, \<lparr>mv_keys = common, mv_series = Map.empty\<rparr>)"
    using rc metric_names_distinct unfolding New_def Let_def common_def metric_names_def collected_vecs_def gaugeVecs_def counterVecs_def
    by (force simp: named_vec_lib_def map_vec_lib_def)+
  define old where "old = (MetricUpdates, \<lparr>mv_keys = common, mv_series = [[''ns'', ''db''] \<mapsto> FFin 1]\<rparr>)"
  obtain e s' where r: "Register named_registry (Some rc) [MetricUpdates \<mapsto> old] = (e, s')"
    by (cases "Register named_registry (Some rc) [MetricUpdates \<mapsto> old]")
  have n: "fst (v_new named_vec_lib n ks) = n" for n ks by (simp add: named_vec_lib_def)
  have ne: "MetricMeasuredCPU \<noteq> MetricUpdates" "MetricFailures \<noteq> MetricUpdates"
    using metric_names_distinct by (auto simp: metric_names_def)
  have k: "\<forall>v \<in> set (collected_vecs rc). \<forall>y. [MetricUpdates \<mapsto> old] (fst v) = Some y \<longrightarrow> mv_keys (snd y) = mv_keys (snd v)"
    using ne(2) by (simp add: v(1) old_def)
  note t = duplicate_registration_serves_the_old_series [OF rc named_registry_laws n, of "[MetricUpdates \<mapsto> old]", unfolded r fst_conv snd_conv id_apply]
  have e: "e = None" by (rule t [THEN conjunct1, THEN iffD2, OF k])
  have s: "s' = by_name fst (collected_vecs rc) ++ [MetricUpdates \<mapsto> old]" by (rule t [THEN conjunct2, THEN conjunct2, THEN mp, OF e])
  have "by_name fst (collected_vecs rc) MetricMeasuredCPU = Some (measuredCPU rc)"
    by (simp add: v(1,2) by_name_def metric_names_def)
  then have "s' MetricMeasuredCPU = Some (measuredCPU rc)" "s' MetricUpdates = Some old" using s ne(1) by simp_all
  moreover have "old \<noteq> reservationUpdate rc" by (simp add: old_def v(3))
  ultimately show ?thesis using rc r e by blast
qed

section \<open>The host that is dialled\<close>

text \<open>The host without case and without the dot of a rooted name.\<close>

definition host_text :: "string \<Rightarrow> string" where
  "host_text s = trim_suffix_byte (map to_lower_byte s) (CHR ''.'')"

lemma canonical_ascii:
  assumes "canonicalHostname dns raw = Inr h" "ascii raw"
  shows "ParseIP (host_text raw) = None \<Longrightarrow> h = host_text raw" "ParseIP (host_text raw) = Some ip \<Longrightarrow> h = IP_String ip"
  using assms lower_text_ascii [of raw]
  by (auto simp: canonicalHostname_def host_text_def ascii_def Let_def split: if_splits)

lemma same_canonical_ascii:
  assumes "canonicalHostname dns a = Inr h" "canonicalHostname dns b = Inr h" "ascii a" "ascii b"
  shows "host_text a = host_text b \<or>
    (\<exists>ip. ParseIP (host_text a) = Some ip \<and> ParseIP (host_text b) = Some ip)"
proof -
  note ca = canonical_ascii [OF assms(1,3)] and cb = canonical_ascii [OF assms(2,4)]
  have print: "ParseIP (IP_String ip) = Some ip" if "ParseIP s = Some ip" for s ip
    by (rule ParseIP_IP_String [OF ParseIP_bound [OF that]])
  show ?thesis
    by (cases "ParseIP (host_text a)"; cases "ParseIP (host_text b)") (use ca cb print in \<open>metis option.distinct(1)\<close>)+
qed

text \<open>C33: when the hosts of the rules are ASCII, a URL with an ASCII
  host is admitted only for a rule with its scheme and effective port whose host is the same text up
  to the case of letters and a dot at the end, or writes the same IP address: no other ASCII host
  gets through.\<close>

theorem ascii_hosts_are_admitted_as_listed:
  assumes "NewDestinationPolicy dns rules False = Inr p" "dns_laws dns" "Validate dns p raw = Inr u" "ascii (url_Hostname u)"
    and "\<And>rule r o1. rule \<in> set rules \<Longrightarrow> parsePrometheusURL dns rule = Inr (r, o1) \<Longrightarrow> ascii (url_Hostname r)"
  shows "\<exists>rule r o1. rule \<in> set rules \<and> parsePrometheusURL dns rule = Inr (r, o1) \<and>
    u_Scheme r = u_Scheme u \<and> effective_port r = effective_port u \<and>
    (host_text (url_Hostname r) = host_text (url_Hostname u) \<or>
     (\<exists>ip. ParseIP (host_text (url_Hostname r)) = Some ip \<and> ParseIP (host_text (url_Hostname u)) = Some ip))"
proof -
  have p: "\<not> dp_allowAny p"
    "dp_allowed p = {o'. \<exists>rule \<in> set rules. \<exists>r. parsePrometheusURL dns rule = Inr (r, o')}"
    using add_rules_ok [of dns rules _ p] assms(1) by (auto simp: NewDestinationPolicy_def zero_policy_def split: if_splits)
  obtain o1 where u: "parsePrometheusURL dns raw = Inr (u, o1)" "o1 \<in> dp_allowed p"
    using assms(3) p(1) by (auto simp: Validate_def split: sum.splits if_splits)
  then obtain rule r where r: "rule \<in> set rules" "parsePrometheusURL dns rule = Inr (r, o1)" using p(2) by auto
  note o = same_origin_iff [OF u(1) r(2) assms(2), THEN iffD1, OF refl]
  obtain h where h: "canonicalHostname dns (url_Hostname u) = Inr h" by (rule parsePrometheusURL_ok [OF u(1)]) simp
  have "canonicalHostname dns (url_Hostname r) = Inr h" using o h by simp
  from same_canonical_ascii [OF this h assms(5) [OF r] assms(4)] show ?thesis using o r by auto
qed

theorem ascii_hosts_are_admitted_as_listed_witness:
  "\<exists>p u. NewDestinationPolicy example_dns [''http://p:09''] False = Inr p \<and> Validate example_dns p ''http://P:9/x'' = Inr u \<and>
     host_text (url_Hostname u) = ''p''"
proof -
  let ?u = "no_url\<lparr>u_Scheme := ''http'', u_Host := ''P:9'', u_Path := ''/x''\<rparr>"
  have v: "Validate example_dns \<lparr>dp_allowAny = False, dp_allowed = {origin_text ''http'' ''p'' ''9''}\<rparr> ''http://P:9/x'' = Inr ?u"
    by (simp add: Validate_def example_parse)
  have n: "url_Hostname (no_url\<lparr>u_Scheme := ''http'', u_Host := ''p:09''\<rparr>) = ''p''" "url_Hostname ?u = ''P''"
    "ParseIP ''p'' = None" "host_text ''p'' = ''p''" "ascii ''p''" "ascii ''P''"
    by code_simp+
  have a: "ascii (url_Hostname r)" if "rule \<in> set [''http://p:09'']" "parsePrometheusURL example_dns rule = Inr (r, o1)" for rule r o1
    using that n by (auto simp: example_parse)
  from ascii_hosts_are_admitted_as_listed [OF example_policy example_dns_laws v _ a]
  have "host_text (url_Hostname ?u) = ''p''" using n by (auto simp: example_parse)
  then show ?thesis using example_policy v by blast
qed

text \<open>C34: in a listed host name each letter i may be replaced by the capital I with a dot above, and
  each letter k by the Kelvin sign: the URL with the host outside ASCII is admitted, and the URL
  that the policy returns for the request keeps that host.\<close>

theorem allowlist_admits_a_host_it_does_not_list:
  assumes "NewDestinationPolicy dns rules False = Inr p" "dns_laws dns" "dns (a @ x @ b)" "(x, y) \<in> folded_runes"
    and "scheme \<in> {''http'', ''https''}" "scheme @ ''://'' @ a @ x @ b \<in> set rules"
  shows "\<exists>u. Validate dns p (scheme @ ''://'' @ a @ y @ b) = Inr u \<and> u_Host u = a @ y @ b \<and> \<not> ascii (u_Host u)"
proof -
  have d: "list_all dns_byte (a @ x @ b)" "is_alnum (last (a @ x @ b))" "a @ x @ b \<noteq> []"
    using assms(2,3) unfolding dns_laws_def by blast+
  have "dns_byte c \<Longrightarrow> (of_char c :: nat) < 128" for c using canonical_byte_facts [of c] by (simp add: canonical_byte_def)
  then have asc: "ascii a" "ascii b" using d(1) by (auto simp: ascii_def list_all_iff)
  have plain: "list_all plain_byte (a @ x @ b)" "list_all plain_byte (a @ y @ b)"
    using d(1) assms(4) by (auto simp: plain_byte_def folded_runes_def list_all_iff)
  have last: "last (a @ x @ b) \<notin> last ` set space_runes" "last (a @ y @ b) \<notin> last ` set space_runes"
    using d(2) assms(4) by (auto simp: space_runes_def folded_runes_def is_alnum_def split: if_splits)
  have e: "canonicalHostname dns (a @ y @ b) = canonicalHostname dns (a @ x @ b)"
    by (simp only: canonicalHostname_def lower_text_folded [OF asc assms(4)])
  let ?port = "if scheme = ''http'' then ''80'' else ''443''"
  have rule: "\<exists>r o1. parsePrometheusURL dns (scheme @ ''://'' @ a @ x @ b) = Inr (r, o1)"
  proof (rule ccontr)
    assume "\<not> ?thesis"
    then have "\<exists>e. add_rules dns rules (zero_policy\<lparr>dp_allowAny := False\<rparr>) = Inl e" by (intro add_rules_error [OF assms(6)]) blast
    then show False using assms(1) by (auto simp: NewDestinationPolicy_def split: if_splits)
  qed
  have ne: "a @ y @ b \<noteq> []" using assms(4) by (auto simp: folded_runes_def)
  obtain g where g: "canonicalHostname dns (a @ x @ b) = Inr g"
    "parsePrometheusURL dns (scheme @ ''://'' @ a @ x @ b) =
       Inr (no_url\<lparr>u_Scheme := scheme, u_Host := a @ x @ b\<rparr>, origin_text scheme g ?port)"
    using rule unfolding plain_origin [OF plain(1) d(3) last(1) assms(5)] by (auto split: sum.splits)
  have q: "parsePrometheusURL dns (scheme @ ''://'' @ a @ y @ b) =
       Inr (no_url\<lparr>u_Scheme := scheme, u_Host := a @ y @ b\<rparr>, origin_text scheme g ?port)"
    unfolding plain_origin [OF plain(2) ne last(2) assms(5)] e g(1) by simp
  have "origin_text scheme g ?port \<in> dp_allowed p"
    using add_rules_ok [of dns rules _ p] assms(1,6) g(2) by (fastforce simp: NewDestinationPolicy_def split: if_splits)
  moreover have "\<not> ascii (a @ y @ b)" using assms(4) by (auto simp: ascii_def folded_runes_def)
  ultimately show ?thesis using q by (auto simp: Validate_def no_url_def)
qed

theorem allowlist_admits_a_host_it_does_not_list_witness:
  "\<exists>p u. NewDestinationPolicy example_dns [''http://prom.io''] False = Inr p \<and>
     Validate example_dns p (''http://prom.'' @ [CHR 0xC4, CHR 0xB0] @ ''o'') = Inr u \<and>
     u_Host u = ''prom.'' @ [CHR 0xC4, CHR 0xB0] @ ''o''"
proof -
  have d: "example_dns (''prom.'' @ ''i'' @ ''o'')"
    by (simp add: example_dns_def dns_byte_def text_eval)
  have p: "list_all plain_byte ''prom.io''" "last ''prom.io'' \<notin> last ` set space_runes"
    by (simp_all add: plain_byte_def dns_byte_def text_eval space_runes_def)
  have "canonicalHostname example_dns ''prom.io'' = Inr ''prom.io''"
    by (simp add: host_eval)
  then have "parsePrometheusURL example_dns ''http://prom.io'' =
     Inr (no_url\<lparr>u_Scheme := ''http'', u_Host := ''prom.io''\<rparr>, origin_text ''http'' ''prom.io'' ''80'')"
    using plain_origin [OF p(1) _ p(2), of "''http''" example_dns] by simp
  then obtain p where "NewDestinationPolicy example_dns [''http://prom.io''] False = Inr p"
    by (simp add: NewDestinationPolicy_def zero_policy_def no_url_def)
  from this allowlist_admits_a_host_it_does_not_list [OF this example_dns_laws d, of "[CHR 0xC4, CHR 0xB0]" "''http''"]
  show ?thesis by (auto simp: folded_runes_def)
qed

end
