(* ===== verification/Recorder_Account.thy ===== *)
theory Recorder_Account
  imports Recorder_Pass
begin

text \<open>
  What the recorder counts in a pass, as a function of the trace: the measured gauges hold the
  pair of the last successful query, and the update counter grows by one for every pod that the
  API server accepted, created or resized.
\<close>

type_synonym 'v counted = "'v \<times> 'v \<times> 'v"

fun account_call :: "'v vec_lib \<Rightarrow> string \<Rightarrow> string \<Rightarrow> 'q api_call \<Rightarrow> 'v counted \<Rightarrow> 'v counted" where
  "account_call V ns n (CQueryPair q (Inr (cpu, mem, found))) (vc, vm, vu) =
     (v_Set V vc [ns, n] cpu, v_Set V vm [ns, n] mem, vu)"
| "account_call V ns n (CCreatePod pod (Inr created)) (vc, vm, vu) = (vc, vm, v_Inc V vu [ns, n])"
| "account_call V ns n (CPatchResize base new (Inr patched)) (vc, vm, vu) = (vc, vm, v_Inc V vu [ns, n])"
| "account_call V ns n c vs = vs"

definition counted_vecs :: "'v Recorder \<Rightarrow> 'v counted" where
  "counted_vecs rc = (measuredCPU rc, measuredMemory rc, reservationUpdate rc)"

definition accounts ::
  "'v vec_lib \<Rightarrow> string \<Rightarrow> string \<Rightarrow> 'v Recorder option \<Rightarrow> ('q, 'v, 'w) pass \<Rightarrow> bool" where
  "accounts V ns n rc p \<longleftrightarrow> sw_Namespace (ps_sw p) = ns \<and> sw_Name (ps_sw p) = n \<and>
     map_option counted_vecs (ps_metrics p) =
       map_option (\<lambda>rc. foldr (account_call V ns n) (ps_trace p) (counted_vecs rc)) rc"

lemma other_counters [simp]:
  "map_option counted_vecs (MeasurementFailed V r ns n fr) = map_option counted_vecs r"
  "map_option counted_vecs (SetReserved V r ns n c m) = map_option counted_vecs r"
  "map_option counted_vecs (MeasurementSucceeded V r ns n t) = map_option counted_vecs r"
  by (cases r; simp add: MeasurementFailed_def SetReserved_def MeasurementSucceeded_def counted_vecs_def Let_def)+

lemma counters [simp]:
  "map_option counted_vecs (ObservedMeasurement V r ns n c m) =
     map_option (\<lambda>(vc, vm, vu). (v_Set V vc [ns, n] c, v_Set V vm [ns, n] m, vu)) (map_option counted_vecs r)"
  "map_option counted_vecs (ReservationUpdated V r ns n) =
     map_option (\<lambda>(vc, vm, vu). (vc, vm, v_Inc V vu [ns, n])) (map_option counted_vecs r)"
  by (cases r; simp add: ObservedMeasurement_def ReservationUpdated_def counted_vecs_def Let_def)+

lemma accounts_frame [simp]:
  "accounts V ns n rc (setDegraded r m p) = accounts V ns n rc p"
  "accounts V ns n rc (setReady r p) = accounts V ns n rc p"
  "accounts V ns n rc (Eventf E' ty r m p) = accounts V ns n rc p"
  "accounts V ns n rc (with_status f p) = accounts V ns n rc p"
  "accounts V ns n rc (measure_failed V fr r m p) = accounts V ns n rc p"
  "accounts V ns n rc (p\<lparr>ps_world := w\<rparr>) = accounts V ns n rc p"
  "accounts V ns n rc (report_conditions L p) = accounts V ns n rc p"
  "accounts V ns n rc (report_currents L V obs p) = accounts V ns n rc p"
  by (simp_all add: accounts_def report_conditions_def report_currents_def measure_failed_def Let_def split: option.split)

lemma accounts_warn [simp]:
  "accounts V ns n rc (warnOnDegradedTransition L E r m p) = accounts V ns n rc p"
  by (simp add: warnOnDegradedTransition_def Let_def split: option.split)

lemma accounts_request [simp]:
  "accounts V ns n rc (p\<lparr>ps_world := w, ps_trace := c # ps_trace p\<rparr>) = accounts V ns n rc p"
  if "\<And>vs. account_call V ns n c vs = vs"
  using that by (simp add: accounts_def)

lemma accounts_requests [simp]:
  "accounts V ns n rc (p\<lparr>ps_world := w, ps_trace := c # d # ps_trace p\<rparr>) = accounts V ns n rc p"
  if "\<And>vs. account_call V ns n c vs = vs" "\<And>vs. account_call V ns n d vs = vs"
  using that by (simp add: accounts_def)

lemma gate_accounts:
  "gate_node L E p = (res, q) \<Longrightarrow> accounts V ns n rc p \<Longrightarrow> accounts V ns n rc q"
  "gate_priority_class L E ok p = (res', q) \<Longrightarrow> accounts V ns n rc p \<Longrightarrow> accounts V ns n rc q"
  by (auto simp: gate_node_def gate_priority_class_def request_eq Let_def
      split: sum.splits if_splits prod.splits)

lemma measure_accounts:
  assumes "measure L V E p = (pair, q)" "accounts V ns n rc p"
  shows "accounts V ns n rc q"
  using assms(1)
proof (cases rule: measure_cases)
  case (measured queries cpu mem found querier now)
  then show ?thesis using assms(2)
    by (cases "ps_metrics p"; cases rc) (auto simp: accounts_def option.map_comp split: prod.splits)
qed (use assms(2) in \<open>auto simp: request_eq\<close>)

lemma resize_accounts:
  assumes "resizeIfDrifting L V E pod name d h p = (pod', q)" "accounts V ns n rc p"
  shows "accounts V ns n rc q"
  using assms(1)
proof (cases rule: resizeIfDrifting_cases)
  case (accepted m now)
  then show ?thesis using assms(2)
    by (cases "ps_metrics p"; cases rc) (auto simp: accounts_def split: prod.splits)
qed (use assms(2) in \<open>auto simp: accounts_def\<close>)

lemma resolve_accounts:
  "resolveCreateConflict L E name poll p = (res, q) \<Longrightarrow> accounts V ns n rc p \<Longrightarrow> accounts V ns n rc q"
  by (auto simp: resolveCreateConflict_def request_eq Let_def split: sum.splits if_splits prod.splits)

lemma created_accounts:
  assumes "accounts V ns n rc p"
  shows "accounts V ns n rc (with_metrics (\<lambda>r. ReservationUpdated V r (sw_Namespace (ps_sw p)) (sw_Name (ps_sw p)))
    (Eventf E ty r m (p\<lparr>ps_world := w, ps_trace := CCreatePod pod (Inr created) # ps_trace p\<rparr>)))"
  using assms by (cases "ps_metrics p"; cases rc) (auto simp: accounts_def split: prod.splits)

lemma create_accounts:
  assumes "createOrRecoverPhantom L V E name d poll p = (res, q)" "accounts V ns n rc p"
  shows "accounts V ns n rc q"
  using assms resolve_accounts created_accounts [OF assms(2)]
  by (fastforce simp: createOrRecoverPhantom_def request_eq Let_def split: sum.splits if_splits prod.splits)

lemma manage_accounts:
  assumes "manage_phantom L V E d poll p = (res, q)" "accounts V ns n rc p"
  shows "accounts V ns n rc q"
  using assms
  by (auto simp: manage_phantom_def request_eq Let_def
      split: sum.splits if_splits prod.splits dest: create_accounts resize_accounts)

lemma suffix_accounts:
  assumes "pass_suffix L V E b obs imm p = (res, q)" "accounts V ns n rc p"
  shows "accounts V ns n rc q"
  using assms by (auto simp: pass_suffix_def request_eq Let_def split: option.splits)

interpretation account: pass_invariant L V E sw "accounts V ns n rc" for L V E sw ns n rc
  by (rule pass_invariant.intro)
    (erule (1) gate_accounts measure_accounts manage_accounts suffix_accounts)+

lemma Reconcile_accounts:
  assumes "Reconcile L V E ns n rc w = (res, rc', t, w')" "api_GetShadowWorkload E ns n w = (Inr sw, w0)"
  shows "map_option counted_vecs rc' =
    map_option (\<lambda>rc. foldr (account_call V (sw_Namespace sw) (sw_Name sw)) t (counted_vecs rc)) rc"
proof -
  obtain res' q where r: "reconcile_workload L V E (initial_pass sw rc w0) = (res', q)"
      and q: "ps_metrics q = rc'" "ps_trace q = t"
    by (rule Reconcile_run [OF assms])
  have "accounts V (sw_Namespace sw) (sw_Name sw) rc q"
    by (rule account.workload [OF r]) (simp_all add: accounts_def option.map_ident)
  then show ?thesis using q by (simp add: accounts_def)
qed

end
