(* ===== verification/Recorder_Properties.thy ===== *)
theory Recorder_Properties
  imports Recorder_Account Example_Cluster
begin

text \<open>
  Properties of the recorder across passes: the labels stay bounded, the counters agree with what
  the pass did, and a workload that is gone takes its series with it.
\<close>

section \<open>The trace and the counters\<close>

fun accepted_write :: "'q api_call \<Rightarrow> bool" where
  "accepted_write (CCreatePod pod (Inr created)) = True"
| "accepted_write (CPatchResize base new (Inr patched)) = True"
| "accepted_write c = False"

lemma account_updates:
  "snd (snd (foldr (account_call V ns n) t (vc, vm, vu))) =
     ((\<lambda>v. v_Inc V v [ns, n]) ^^ length (filter accepted_write t)) vu"
proof (induction t)
  case (Cons c t)
  obtain a b u where f: "foldr (account_call V ns n) t (vc, vm, vu) = (a, b, u)" by (metis prod.collapse)
  show ?case using Cons f
    by (cases "(V, ns, n, c, a, b, u)" rule: account_call.cases) auto
qed simp

lemma account_other:
  assumes "\<And>q cpu mem f. c \<noteq> CQueryPair q (Inr (cpu, mem, f))"
  shows "\<exists>u'. account_call V ns n c (a, b, u) = (a, b, u')"
  using assms by (cases "(V, ns, n, c, a, b, u)" rule: account_call.cases) auto

lemma account_gauges:
  assumes "vec_laws V" "length (v_keys V vc) = 2" "length (v_keys V vm) = 2"
    "foldr (account_call V ns n) t (vc, vm, vu) = (vc', vm', vu')"
  shows "length (v_keys V vc') = 2 \<and> length (v_keys V vm') = 2 \<and>
    ((\<forall>q cpu mem f. CQueryPair q (Inr (cpu, mem, f)) \<notin> set t) \<and> vc' = vc \<and> vm' = vm \<or>
     (\<exists>q cpu mem f. CQueryPair q (Inr (cpu, mem, f)) \<in> set t \<and>
        v_series V vc' = (v_series V vc)([ns, n] \<mapsto> cpu) \<and> v_series V vm' = (v_series V vm)([ns, n] \<mapsto> mem)))"
  using assms(4)
proof (induction t arbitrary: vc' vm' vu')
  case (Cons c t)
  obtain a b u where f: "foldr (account_call V ns n) t (vc, vm, vu) = (a, b, u)" by (metis prod.collapse)
  note IH = Cons.IH [OF f]
  show ?case
  proof (cases "\<exists>q cpu mem f. c = CQueryPair q (Inr (cpu, mem, f))")
    case True
    then obtain q cpu mem f where c: "c = CQueryPair q (Inr (cpu, mem, f))" by blast
    have "length [ns, n] = length (v_keys V a)" "length [ns, n] = length (v_keys V b)" using IH by simp_all
    note laws = this [THEN vec_lawsD(3) [OF assms(1)]] this [THEN vec_lawsD(4) [OF assms(1)]]
    have "vc' = v_Set V a [ns, n] cpu" "vm' = v_Set V b [ns, n] mem" using Cons.prems f c by simp_all
    then have "v_series V vc' = (v_series V vc)([ns, n] \<mapsto> cpu)" "v_series V vm' = (v_series V vm)([ns, n] \<mapsto> mem)"
      "length (v_keys V vc') = 2" "length (v_keys V vm') = 2"
      using IH laws by auto
    moreover have "CQueryPair q (Inr (cpu, mem, f)) \<in> set (c # t)" using c by simp
    ultimately show ?thesis by blast
  next
    case False
    then obtain u' where "account_call V ns n c (a, b, u) = (a, b, u')" using account_other by metis
    then have "vc' = a" "vm' = b" using Cons.prems f by simp_all
    moreover have "CQueryPair q (Inr (cpu, mem, f)) \<in> set (c # t) \<longleftrightarrow> CQueryPair q (Inr (cpu, mem, f)) \<in> set t"
      for q cpu mem f using False by auto
    ultimately show ?thesis using IH by (simp only:)
  qed
qed (use assms(2,3) in simp)

section \<open>A run with a recorder\<close>

definition example_recorder :: "map_vec Recorder" where
  "example_recorder = the (New map_vec_lib)"

lemma example_recorder: "New map_vec_lib = Some example_recorder" "recorder_ok map_vec_lib example_recorder"
proof -
  show n: "New map_vec_lib = Some example_recorder" by (simp add: example_recorder_def New_def Let_def)
  show "recorder_ok map_vec_lib example_recorder" by (rule New_ok [OF map_vec_laws n])
qed

lemma recorded_run:
  "\<exists>s m rc. Reconcile rat_lib map_vec_lib (create_cluster example_pair) ''ns'' ''db'' (Some example_recorder) () =
     (Inr 30000000000, rc,
      [CPatchStatus example_sw s None, CEvent EventTypeNormal reasonPhantomCreated m] @
      CCreatePod (example_fresh \<lparr>rp_CPU = 1, rp_Memory = 5000\<rparr>)
         (Inr (example_fresh \<lparr>rp_CPU = 1, rp_Memory = 5000\<rparr>)) #
      example_earlier (Inl NotFound) example_pair, ())"
  by (simp add: Reconcile_def create_cluster_def example_eval example_trace_defs example_desired
      example_Build example_poll)


section \<open>Properties\<close>

text \<open>C15: after a pass over a workload, the update counter has grown by one for each pod creation
  or resize that the API server accepted, and the measured gauges of the workload hold the pair
  of a successful query of this pass, or nothing changed when there was none.\<close>

theorem recorder_counts_what_the_trace_shows:
  assumes "Reconcile L V E ns n (Some rc) w = (res, Some rc', t, w')" "api_GetShadowWorkload E ns n w = (Inr sw, w0)"
    and "vec_laws V" "recorder_ok V rc"
  shows "reservationUpdate rc' =
      ((\<lambda>v. v_Inc V v [sw_Namespace sw, sw_Name sw]) ^^ length (filter accepted_write t)) (reservationUpdate rc) \<and>
    ((\<forall>q cpu mem f. CQueryPair q (Inr (cpu, mem, f)) \<notin> set t) \<and>
       measuredCPU rc' = measuredCPU rc \<and> measuredMemory rc' = measuredMemory rc \<or>
     (\<exists>q cpu mem f. CQueryPair q (Inr (cpu, mem, f)) \<in> set t \<and>
       v_series V (measuredCPU rc') = (v_series V (measuredCPU rc))([sw_Namespace sw, sw_Name sw] \<mapsto> cpu) \<and>
       v_series V (measuredMemory rc') = (v_series V (measuredMemory rc))([sw_Namespace sw, sw_Name sw] \<mapsto> mem)))"
proof -
  have f: "foldr (account_call V (sw_Namespace sw) (sw_Name sw)) t
      (measuredCPU rc, measuredMemory rc, reservationUpdate rc) =
      (measuredCPU rc', measuredMemory rc', reservationUpdate rc')"
    using Reconcile_accounts [OF assms(1,2)] by (simp add: counted_vecs_def)
  have "length (v_keys V (measuredCPU rc)) = 2" "length (v_keys V (measuredMemory rc)) = 2"
    using assms(4) by (simp_all add: recorder_ok_defs vec_ok_def)
  from account_gauges [OF assms(3) this f]
  show ?thesis
    using arg_cong [OF f, of "\<lambda>x. snd (snd x)"] unfolding account_updates by simp
qed

theorem recorder_counts_what_the_trace_shows_witness:
  "\<exists>res rc' t. Reconcile rat_lib map_vec_lib (create_cluster example_pair) ''ns'' ''db'' (Some example_recorder) () =
      (res, Some rc', t, ()) \<and>
     mv_series (reservationUpdate rc') [''ns'', ''db''] = Some (f_add (FFin 0) (FFin 1)) \<and>
     mv_series (measuredCPU rc') [''ns'', ''db''] = Some (FFin 1)"
proof -
  obtain s m rc where r: "Reconcile rat_lib map_vec_lib (create_cluster example_pair) ''ns'' ''db'' (Some example_recorder) () =
     (Inr 30000000000, rc,
      [CPatchStatus example_sw s None, CEvent EventTypeNormal reasonPhantomCreated m] @
      CCreatePod (example_fresh \<lparr>rp_CPU = 1, rp_Memory = 5000\<rparr>)
         (Inr (example_fresh \<lparr>rp_CPU = 1, rp_Memory = 5000\<rparr>)) #
      example_earlier (Inl NotFound) example_pair, ())"
    using recorded_run by blast
  have sw: "api_GetShadowWorkload (create_cluster example_pair) ''ns'' ''db'' () = (Inr example_sw, ())"
    by (simp add: create_cluster_def)
  obtain rc' where rc: "rc = Some rc'" using Reconcile_accounts [OF r sw] by (cases rc) auto
  have "mv_series (reservationUpdate example_recorder) = Map.empty"
    by (simp add: example_recorder_def New_def map_vec_lib_def Let_def)
  then show ?thesis
    using recorder_counts_what_the_trace_shows [OF r [unfolded rc] sw map_vec_laws example_recorder(2)] r rc
    by (auto simp: example_trace_defs map_vec_lib_def inc_value_def)
qed

text \<open>C36: whatever the cluster answers, a pass keeps the recorder well-formed: every series of a gauge
  and of the update counter is labelled by namespace and name, every failure series by these and
  a reason, and the reason is one of the seven known ones.\<close>

theorem recorder_labels_stay_bounded:
  assumes "Reconcile L V E ns n (Some rc) w = (res, Some rc', t, w')" "vec_laws V" "recorder_ok V rc"
  shows "recorder_ok V rc' \<and>
    (\<forall>ls. v_series V (measurementFail rc') ls \<noteq> None \<longrightarrow>
       (\<exists>a b reason. ls = [a, b, reason] \<and> valid_reason reason)) \<and>
    (\<forall>v ls. v \<in> set (gaugeVecs rc' @ [reservationUpdate rc']) \<longrightarrow> v_series V v ls \<noteq> None \<longrightarrow> length ls = 2)"
proof -
  have ok: "recorder_ok V rc'" using Reconcile_recorder_ok [OF assms(1,2)] assms(3) by simp
  have "\<exists>a b reason. ls = [a, b, reason] \<and> valid_reason reason" if "v_series V (measurementFail rc') ls \<noteq> None" for ls
  proof -
    have "length ls = 3" using ok that by (auto simp: recorder_ok_def vec_ok_def)
    then obtain a b reason where "ls = [a, b, reason]"
      by (cases ls; cases "tl ls"; cases "tl (tl ls)") auto
    then show ?thesis using ok that unfolding recorder_ok_def by blast
  qed
  moreover have "length ls = 2" if "v \<in> set (gaugeVecs rc' @ [reservationUpdate rc'])" "v_series V v ls \<noteq> None" for v ls
    using ok that by (auto simp: recorder_ok_def vec_ok_def)
  ultimately show ?thesis using ok by blast
qed

theorem recorder_labels_stay_bounded_witness:
  "\<exists>res rc' t. Reconcile rat_lib map_vec_lib (create_cluster example_pair) ''ns'' ''db'' (Some example_recorder) () =
      (res, Some rc', t, ()) \<and> recorder_ok map_vec_lib rc'"
proof -
  obtain res rc t where r: "Reconcile rat_lib map_vec_lib (create_cluster example_pair) ''ns'' ''db'' (Some example_recorder) () =
      (res, rc, t, ())"
    using recorded_run by blast
  have "api_GetShadowWorkload (create_cluster example_pair) ''ns'' ''db'' () = (Inr example_sw, ())"
    by (simp add: create_cluster_def)
  then obtain rc' where rc: "rc = Some rc'" using Reconcile_accounts [OF r] by (cases rc) auto
  show ?thesis using r recorder_labels_stay_bounded [OF r [unfolded rc] map_vec_laws example_recorder(2)] rc by blast
qed

text \<open>A pass over a workload that no longer exists issues no request, asks for no requeue, and
  removes from every vector exactly the series labelled with its namespace and name.\<close>

lemma gone_workload_drops_only_its_series:
  assumes "Reconcile L V E ns n (Some rc) w = (res, rc', t, w')" "api_GetShadowWorkload E ns n w = (Inl NotFound, w0)"
    and "vec_laws V" "recorder_ok V rc"
  shows "res = Inr 0 \<and> t = [] \<and> w' = w0 \<and>
    map_option (\<lambda>rc. map (v_series V) (collected_vecs rc)) rc' =
      Some (map (\<lambda>v ls. if take 2 ls = [ns, n] then None else v_series V v ls) (collected_vecs rc))"
  using assms(1,2) RemoveShadowWorkload_series [OF assms(3,4), of ns n] by (auto simp: Reconcile_def)

end
