(* ===== verification/Deep_Copy.thy ===== *)
theory Deep_Copy
  imports Api_Types
begin

text \<open>
  Model of \<open>api/v1alpha1/zz_generated.deepcopy.go\<close> on an explicit heap.  An object is a struct whose
  pointer fields are addresses; \<open>*out = *in\<close> copies the addresses, and the generated code then
  replaces each by the address of a copy.  The heap has one memory per pointed-to type and one
  counter of fresh addresses.  Quantities, times, conditions and object metadata are copied by
  the API machinery: their deep copies are equal values here.
\<close>

type_synonym addr = nat

section \<open>Objects with pointers\<close>

record SourceSpec_obj =
  so_Type :: string
  so_Docker :: "addr option"
  so_PromQL :: "addr option"
  so_Cgroup :: "addr option"
  so_Systemd :: "addr option"

record 'q ShadowWorkloadSpec_obj =
  spo_Node :: string
  spo_Source :: SourceSpec_obj
  spo_Metrics :: MetricsConfig
  spo_Update :: "'q UpdatePolicy"

text \<open>A nil slice is \<open>None\<close>, any other slice the address of its array.\<close>

record 'q ShadowWorkloadStatus_obj =
  sto_PhantomPod :: string
  sto_CurrentCPU :: 'q
  sto_CurrentMemory :: 'q
  sto_LastResize :: gotime
  sto_LastMeasurement :: "addr option"
  sto_ResolvedSource :: "addr option"
  sto_Conditions :: "addr option"

record 'q ShadowWorkload_obj =
  swo_Name :: string
  swo_Namespace :: string
  swo_UID :: string
  swo_Generation :: int64
  swo_Spec :: "'q ShadowWorkloadSpec_obj"
  swo_Status :: "'q ShadowWorkloadStatus_obj"

record ShadowWorkloadList_obj =
  slo_ResourceVersion :: string
  slo_Items :: "addr option"

record 'q heap =
  hp_next :: addr
  hp_CgroupSource :: "addr \<Rightarrow> CgroupSource"
  hp_DockerSource :: "addr \<Rightarrow> DockerSource"
  hp_MeasurementStatus :: "addr \<Rightarrow> 'q MeasurementStatus"
  hp_MetricsConfig :: "addr \<Rightarrow> MetricsConfig"
  hp_PromQLSource :: "addr \<Rightarrow> PromQLSource"
  hp_ResolvedSource :: "addr \<Rightarrow> ResolvedSourceStatus"
  hp_ResourcePair :: "addr \<Rightarrow> 'q ResourcePair"
  hp_Workload :: "addr \<Rightarrow> 'q ShadowWorkload_obj"
  hp_List :: "addr \<Rightarrow> ShadowWorkloadList_obj"
  hp_Spec :: "addr \<Rightarrow> 'q ShadowWorkloadSpec_obj"
  hp_Status :: "addr \<Rightarrow> 'q ShadowWorkloadStatus_obj"
  hp_SourceSpec :: "addr \<Rightarrow> SourceSpec_obj"
  hp_SystemdSource :: "addr \<Rightarrow> SystemdSource"
  hp_UpdatePolicy :: "addr \<Rightarrow> 'q UpdatePolicy"
  hp_Conditions :: "addr \<Rightarrow> 'q condition list"
  hp_Items :: "addr \<Rightarrow> 'q ShadowWorkload_obj list"

section \<open>Allocation\<close>

type_synonym ('q, 'a) cell_update = "((addr \<Rightarrow> 'a) \<Rightarrow> addr \<Rightarrow> 'a) \<Rightarrow> 'q heap \<Rightarrow> 'q heap"

text \<open>\<open>new(T)\<close> followed by a store of a value.\<close>

definition new_cell :: "('q, 'a) cell_update \<Rightarrow> 'a \<Rightarrow> 'q heap \<Rightarrow> addr \<times> 'q heap" where
  "new_cell upd x h = (let a = hp_next h in (a, upd (\<lambda>m. m(a := x)) (h\<lparr>hp_next := Suc a\<rparr>)))"

text \<open>The block \<open>if in.F != nil { *out = new(T); **out = **in }\<close> of a pointer field.\<close>

definition copy_field ::
  "('q heap \<Rightarrow> addr \<Rightarrow> 'a) \<Rightarrow> ('q, 'a) cell_update \<Rightarrow> addr option \<Rightarrow> 'q heap \<Rightarrow> addr option \<times> 'q heap" where
  "copy_field get upd p h =
     (case p of
        None \<Rightarrow> (None, h)
      | Some a \<Rightarrow> (let (b, h) = new_cell upd (get h a) h in (Some b, h)))"

text \<open>\<open>DeepCopy\<close> of any of the types, from its \<open>DeepCopyInto\<close>.\<close>

definition deep_copy ::
  "('q heap \<Rightarrow> addr \<Rightarrow> 'a) \<Rightarrow> ('q, 'a) cell_update \<Rightarrow> ('a \<Rightarrow> 'q heap \<Rightarrow> 'a \<times> 'q heap) \<Rightarrow>
   addr option \<Rightarrow> 'q heap \<Rightarrow> addr option \<times> 'q heap" where
  "deep_copy get upd into p h =
     (case p of
        None \<Rightarrow> (None, h)
      | Some a \<Rightarrow>
          (let (out, h) = new_cell upd (get h a) h;
               (x, h) = into (get h a) h
           in (Some out, upd (\<lambda>m. m(out := x)) h)))"

section \<open>The generated functions\<close>

definition CgroupSource_DeepCopyInto :: "CgroupSource \<Rightarrow> 'q heap \<Rightarrow> CgroupSource \<times> 'q heap" where
  "CgroupSource_DeepCopyInto x h = (x, h)"

definition DockerSource_DeepCopyInto :: "DockerSource \<Rightarrow> 'q heap \<Rightarrow> DockerSource \<times> 'q heap" where
  "DockerSource_DeepCopyInto x h = (x, h)"

definition MeasurementStatus_DeepCopyInto ::
  "'q MeasurementStatus \<Rightarrow> 'q heap \<Rightarrow> 'q MeasurementStatus \<times> 'q heap" where
  "MeasurementStatus_DeepCopyInto x h =
     (x\<lparr>ms_Time := ms_Time x, ms_CPU := ms_CPU x, ms_Memory := ms_Memory x\<rparr>, h)"

definition MetricsConfig_DeepCopyInto :: "MetricsConfig \<Rightarrow> 'q heap \<Rightarrow> MetricsConfig \<times> 'q heap" where
  "MetricsConfig_DeepCopyInto x h = (x, h)"

definition PromQLSource_DeepCopyInto :: "PromQLSource \<Rightarrow> 'q heap \<Rightarrow> PromQLSource \<times> 'q heap" where
  "PromQLSource_DeepCopyInto x h = (x, h)"

definition ResolvedSourceStatus_DeepCopyInto ::
  "ResolvedSourceStatus \<Rightarrow> 'q heap \<Rightarrow> ResolvedSourceStatus \<times> 'q heap" where
  "ResolvedSourceStatus_DeepCopyInto x h = (x, h)"

definition ResourcePair_DeepCopyInto :: "'q ResourcePair \<Rightarrow> 'q heap \<Rightarrow> 'q ResourcePair \<times> 'q heap" where
  "ResourcePair_DeepCopyInto x h = (x\<lparr>rp_CPU := rp_CPU x, rp_Memory := rp_Memory x\<rparr>, h)"

definition SystemdSource_DeepCopyInto :: "SystemdSource \<Rightarrow> 'q heap \<Rightarrow> SystemdSource \<times> 'q heap" where
  "SystemdSource_DeepCopyInto x h = (x, h)"

definition UpdatePolicy_DeepCopyInto :: "'q UpdatePolicy \<Rightarrow> 'q heap \<Rightarrow> 'q UpdatePolicy \<times> 'q heap" where
  "UpdatePolicy_DeepCopyInto x h =
     (let (f, h) = ResourcePair_DeepCopyInto (up_Floor x) h;
          (c, h) = ResourcePair_DeepCopyInto (up_Ceiling x) h
      in (x\<lparr>up_Floor := f, up_Ceiling := c\<rparr>, h))"

definition SourceSpec_DeepCopyInto :: "SourceSpec_obj \<Rightarrow> 'q heap \<Rightarrow> SourceSpec_obj \<times> 'q heap" where
  "SourceSpec_DeepCopyInto x h =
     (let (d, h) = copy_field hp_DockerSource hp_DockerSource_update (so_Docker x) h;
          (p, h) = copy_field hp_PromQLSource hp_PromQLSource_update (so_PromQL x) h;
          (c, h) = copy_field hp_CgroupSource hp_CgroupSource_update (so_Cgroup x) h;
          (s, h) = copy_field hp_SystemdSource hp_SystemdSource_update (so_Systemd x) h
      in (x\<lparr>so_Docker := d, so_PromQL := p, so_Cgroup := c, so_Systemd := s\<rparr>, h))"

definition ShadowWorkloadSpec_DeepCopyInto ::
  "'q ShadowWorkloadSpec_obj \<Rightarrow> 'q heap \<Rightarrow> 'q ShadowWorkloadSpec_obj \<times> 'q heap" where
  "ShadowWorkloadSpec_DeepCopyInto x h =
     (let (s, h) = SourceSpec_DeepCopyInto (spo_Source x) h;
          (u, h) = UpdatePolicy_DeepCopyInto (spo_Update x) h
      in (x\<lparr>spo_Source := s, spo_Metrics := spo_Metrics x, spo_Update := u\<rparr>, h))"

definition ShadowWorkloadStatus_DeepCopyInto ::
  "'q ShadowWorkloadStatus_obj \<Rightarrow> 'q heap \<Rightarrow> 'q ShadowWorkloadStatus_obj \<times> 'q heap" where
  "ShadowWorkloadStatus_DeepCopyInto x h =
     (let (m, h) = deep_copy hp_MeasurementStatus hp_MeasurementStatus_update MeasurementStatus_DeepCopyInto
                     (sto_LastMeasurement x) h;
          (r, h) = copy_field hp_ResolvedSource hp_ResolvedSource_update (sto_ResolvedSource x) h;
          (c, h) = copy_field hp_Conditions hp_Conditions_update (sto_Conditions x) h
      in (x\<lparr>sto_CurrentCPU := sto_CurrentCPU x, sto_CurrentMemory := sto_CurrentMemory x,
            sto_LastResize := sto_LastResize x, sto_LastMeasurement := m, sto_ResolvedSource := r,
            sto_Conditions := c\<rparr>, h))"

definition ShadowWorkload_DeepCopyInto ::
  "'q ShadowWorkload_obj \<Rightarrow> 'q heap \<Rightarrow> 'q ShadowWorkload_obj \<times> 'q heap" where
  "ShadowWorkload_DeepCopyInto x h =
     (let (sp, h) = ShadowWorkloadSpec_DeepCopyInto (swo_Spec x) h;
          (st, h) = ShadowWorkloadStatus_DeepCopyInto (swo_Status x) h
      in (x\<lparr>swo_Spec := sp, swo_Status := st\<rparr>, h))"

text \<open>The loop over the items of a list.\<close>

fun copy_items :: "'q ShadowWorkload_obj list \<Rightarrow> 'q heap \<Rightarrow> 'q ShadowWorkload_obj list \<times> 'q heap" where
  "copy_items [] h = ([], h)"
| "copy_items (w # ws) h =
     (let (w', h) = ShadowWorkload_DeepCopyInto w h; (ws', h) = copy_items ws h in (w' # ws', h))"

definition ShadowWorkloadList_DeepCopyInto ::
  "ShadowWorkloadList_obj \<Rightarrow> 'q heap \<Rightarrow> ShadowWorkloadList_obj \<times> 'q heap" where
  "ShadowWorkloadList_DeepCopyInto x h =
     (case slo_Items x of
        None \<Rightarrow> (x, h)
      | Some a \<Rightarrow>
          (let (b, h) = new_cell hp_Items_update [] h;
               (ws, h) = copy_items (hp_Items h a) h
           in (x\<lparr>slo_Items := Some b\<rparr>, hp_Items_update (\<lambda>m. m(b := ws)) h)))"

text \<open>The \<open>DeepCopy\<close> methods, on pointers that may be nil.\<close>

definition CgroupSource_DeepCopy :: "addr option \<Rightarrow> 'q heap \<Rightarrow> addr option \<times> 'q heap" where
  "CgroupSource_DeepCopy = deep_copy hp_CgroupSource hp_CgroupSource_update CgroupSource_DeepCopyInto"

definition DockerSource_DeepCopy :: "addr option \<Rightarrow> 'q heap \<Rightarrow> addr option \<times> 'q heap" where
  "DockerSource_DeepCopy = deep_copy hp_DockerSource hp_DockerSource_update DockerSource_DeepCopyInto"

definition MeasurementStatus_DeepCopy :: "addr option \<Rightarrow> 'q heap \<Rightarrow> addr option \<times> 'q heap" where
  "MeasurementStatus_DeepCopy = deep_copy hp_MeasurementStatus hp_MeasurementStatus_update MeasurementStatus_DeepCopyInto"

definition MetricsConfig_DeepCopy :: "addr option \<Rightarrow> 'q heap \<Rightarrow> addr option \<times> 'q heap" where
  "MetricsConfig_DeepCopy = deep_copy hp_MetricsConfig hp_MetricsConfig_update MetricsConfig_DeepCopyInto"

definition PromQLSource_DeepCopy :: "addr option \<Rightarrow> 'q heap \<Rightarrow> addr option \<times> 'q heap" where
  "PromQLSource_DeepCopy = deep_copy hp_PromQLSource hp_PromQLSource_update PromQLSource_DeepCopyInto"

definition ResolvedSourceStatus_DeepCopy :: "addr option \<Rightarrow> 'q heap \<Rightarrow> addr option \<times> 'q heap" where
  "ResolvedSourceStatus_DeepCopy = deep_copy hp_ResolvedSource hp_ResolvedSource_update ResolvedSourceStatus_DeepCopyInto"

definition ResourcePair_DeepCopy :: "addr option \<Rightarrow> 'q heap \<Rightarrow> addr option \<times> 'q heap" where
  "ResourcePair_DeepCopy = deep_copy hp_ResourcePair hp_ResourcePair_update ResourcePair_DeepCopyInto"

definition ShadowWorkload_DeepCopy :: "addr option \<Rightarrow> 'q heap \<Rightarrow> addr option \<times> 'q heap" where
  "ShadowWorkload_DeepCopy = deep_copy hp_Workload hp_Workload_update ShadowWorkload_DeepCopyInto"

definition ShadowWorkloadList_DeepCopy :: "addr option \<Rightarrow> 'q heap \<Rightarrow> addr option \<times> 'q heap" where
  "ShadowWorkloadList_DeepCopy = deep_copy hp_List hp_List_update ShadowWorkloadList_DeepCopyInto"

definition ShadowWorkloadSpec_DeepCopy :: "addr option \<Rightarrow> 'q heap \<Rightarrow> addr option \<times> 'q heap" where
  "ShadowWorkloadSpec_DeepCopy = deep_copy hp_Spec hp_Spec_update ShadowWorkloadSpec_DeepCopyInto"

definition ShadowWorkloadStatus_DeepCopy :: "addr option \<Rightarrow> 'q heap \<Rightarrow> addr option \<times> 'q heap" where
  "ShadowWorkloadStatus_DeepCopy = deep_copy hp_Status hp_Status_update ShadowWorkloadStatus_DeepCopyInto"

definition SourceSpec_DeepCopy :: "addr option \<Rightarrow> 'q heap \<Rightarrow> addr option \<times> 'q heap" where
  "SourceSpec_DeepCopy = deep_copy hp_SourceSpec hp_SourceSpec_update SourceSpec_DeepCopyInto"

definition SystemdSource_DeepCopy :: "addr option \<Rightarrow> 'q heap \<Rightarrow> addr option \<times> 'q heap" where
  "SystemdSource_DeepCopy = deep_copy hp_SystemdSource hp_SystemdSource_update SystemdSource_DeepCopyInto"

definition UpdatePolicy_DeepCopy :: "addr option \<Rightarrow> 'q heap \<Rightarrow> addr option \<times> 'q heap" where
  "UpdatePolicy_DeepCopy = deep_copy hp_UpdatePolicy hp_UpdatePolicy_update UpdatePolicy_DeepCopyInto"

text \<open>\<open>runtime.Object\<close>: an interface value, nil when the copy is nil.\<close>

datatype runtime_object = WorkloadObject addr | ListObject addr

definition ShadowWorkload_DeepCopyObject ::
  "addr option \<Rightarrow> 'q heap \<Rightarrow> runtime_object option \<times> 'q heap" where
  "ShadowWorkload_DeepCopyObject p h =
     (case ShadowWorkload_DeepCopy p h of
        (Some c, h) \<Rightarrow> (Some (WorkloadObject c), h)
      | (None, h) \<Rightarrow> (None, h))"

definition ShadowWorkloadList_DeepCopyObject ::
  "addr option \<Rightarrow> 'q heap \<Rightarrow> runtime_object option \<times> 'q heap" where
  "ShadowWorkloadList_DeepCopyObject p h =
     (case ShadowWorkloadList_DeepCopy p h of
        (Some c, h) \<Rightarrow> (Some (ListObject c), h)
      | (None, h) \<Rightarrow> (None, h))"

section \<open>What an object stands for\<close>

text \<open>The value of an object in a heap, as the rest of the model has it.\<close>

definition source_value :: "'q heap \<Rightarrow> SourceSpec_obj \<Rightarrow> SourceSpec" where
  "source_value h x =
     \<lparr>src_Type = so_Type x, src_Docker = map_option (hp_DockerSource h) (so_Docker x),
      src_PromQL = map_option (hp_PromQLSource h) (so_PromQL x),
      src_Cgroup = map_option (hp_CgroupSource h) (so_Cgroup x),
      src_Systemd = map_option (hp_SystemdSource h) (so_Systemd x)\<rparr>"

definition spec_value :: "'q heap \<Rightarrow> 'q ShadowWorkloadSpec_obj \<Rightarrow> 'q ShadowWorkloadSpec" where
  "spec_value h x =
     \<lparr>spec_Node = spo_Node x, spec_Source = source_value h (spo_Source x),
      spec_Metrics = spo_Metrics x, spec_Update = spo_Update x\<rparr>"

definition status_value :: "'q heap \<Rightarrow> 'q ShadowWorkloadStatus_obj \<Rightarrow> 'q ShadowWorkloadStatus" where
  "status_value h x =
     \<lparr>st_PhantomPod = sto_PhantomPod x, st_CurrentCPU = sto_CurrentCPU x,
      st_CurrentMemory = sto_CurrentMemory x, st_LastResize = sto_LastResize x,
      st_LastMeasurement = map_option (hp_MeasurementStatus h) (sto_LastMeasurement x),
      st_ResolvedSource = map_option (hp_ResolvedSource h) (sto_ResolvedSource x),
      st_Conditions = (case sto_Conditions x of None \<Rightarrow> [] | Some a \<Rightarrow> hp_Conditions h a)\<rparr>"

definition workload_value :: "'q heap \<Rightarrow> 'q ShadowWorkload_obj \<Rightarrow> 'q ShadowWorkload" where
  "workload_value h x =
     \<lparr>sw_Name = swo_Name x, sw_Namespace = swo_Namespace x, sw_UID = swo_UID x,
      sw_Generation = swo_Generation x, sw_Spec = spec_value h (swo_Spec x),
      sw_Status = status_value h (swo_Status x)\<rparr>"

text \<open>The addresses of an object.\<close>

definition source_refs :: "SourceSpec_obj \<Rightarrow> addr set" where
  "source_refs x =
     set_option (so_Docker x) \<union> set_option (so_PromQL x) \<union> set_option (so_Cgroup x) \<union> set_option (so_Systemd x)"

definition status_refs :: "'q ShadowWorkloadStatus_obj \<Rightarrow> addr set" where
  "status_refs x =
     set_option (sto_LastMeasurement x) \<union> set_option (sto_ResolvedSource x) \<union> set_option (sto_Conditions x)"

definition workload_refs :: "'q ShadowWorkload_obj \<Rightarrow> addr set" where
  "workload_refs x = source_refs (spo_Source (swo_Spec x)) \<union> status_refs (swo_Status x)"

text \<open>Two heaps with the same memory at some addresses.\<close>

definition same_at :: "addr set \<Rightarrow> 'q heap \<Rightarrow> 'q heap \<Rightarrow> bool" where
  "same_at A h h' \<longleftrightarrow>
     (\<forall>a \<in> A. hp_DockerSource h' a = hp_DockerSource h a \<and> hp_PromQLSource h' a = hp_PromQLSource h a \<and>
        hp_CgroupSource h' a = hp_CgroupSource h a \<and> hp_SystemdSource h' a = hp_SystemdSource h a \<and>
        hp_MeasurementStatus h' a = hp_MeasurementStatus h a \<and> hp_ResolvedSource h' a = hp_ResolvedSource h a \<and>
        hp_Conditions h' a = hp_Conditions h a \<and> hp_Items h' a = hp_Items h a \<and>
        hp_Workload h' a = hp_Workload h a)"

definition extends :: "'q heap \<Rightarrow> 'q heap \<Rightarrow> bool" where
  "extends h h' \<longleftrightarrow> hp_next h \<le> hp_next h' \<and> same_at {..<hp_next h} h h'"

lemma same_at_subset: "same_at A h h' \<Longrightarrow> B \<subseteq> A \<Longrightarrow> same_at B h h'"
  unfolding same_at_def by blast

lemma extends_refl [simp]: "extends h h"
  by (simp add: extends_def same_at_def)

lemma extends_trans [trans]: "extends h h1 \<Longrightarrow> extends h1 h2 \<Longrightarrow> extends h h2"
  by (auto simp: extends_def same_at_def)

lemma source_frame: "same_at A h h' \<Longrightarrow> source_refs x \<subseteq> A \<Longrightarrow> source_value h' x = source_value h x"
  by (auto simp: source_value_def source_refs_def same_at_def intro!: option.map_cong0)

lemma status_frame: "same_at A h h' \<Longrightarrow> status_refs x \<subseteq> A \<Longrightarrow> status_value h' x = status_value h x"
  by (auto simp: status_value_def status_refs_def same_at_def intro!: option.map_cong0 split: option.split)

lemma workload_frame: "same_at A h h' \<Longrightarrow> workload_refs x \<subseteq> A \<Longrightarrow> workload_value h' x = workload_value h x"
  using source_frame [of A h h' "spo_Source (swo_Spec x)"] status_frame [of A h h' "swo_Status x"]
  by (simp add: workload_value_def spec_value_def workload_refs_def)

section \<open>Cells\<close>

text \<open>One memory of the heap: what is read is what was written, at fresh addresses nothing else changes.\<close>

locale cell =
  fixes get :: "'q heap \<Rightarrow> addr \<Rightarrow> 'a" and upd :: "('q, 'a) cell_update"
  assumes get_upd: "get (upd f h) = f (get h)"
    and next_upd: "hp_next (upd f h) = hp_next h"
    and upd_upd: "upd f (upd g h) = upd (\<lambda>m. f (g m)) h"
    and get_next: "get (h\<lparr>hp_next := n\<rparr>) = get h"
    and same_upd: "a \<notin> A \<Longrightarrow> same_at A h (upd (\<lambda>m. m(a := x)) (h\<lparr>hp_next := n\<rparr>))"
begin

lemma copied:
  assumes "copy_field get upd p h = (q, h')" "set_option p \<subseteq> {..<hp_next h}"
  shows "extends h h' \<and> set_option q \<subseteq> {hp_next h..<hp_next h'} \<and> map_option (get h') q = map_option (get h) p"
proof (cases p)
  case (Some a)
  then show ?thesis
    using assms same_upd [of "hp_next h" "{..<hp_next h}" h "get h a" "Suc (hp_next h)"]
    by (auto simp: copy_field_def new_cell_def Let_def extends_def get_upd next_upd get_next)
qed (use assms in \<open>simp add: copy_field_def\<close>)

lemma pure_copy: "deep_copy get upd (\<lambda>x h. (x, h)) = copy_field get upd"
  by (auto simp: fun_eq_iff deep_copy_def copy_field_def new_cell_def Let_def upd_upd get_upd get_next
      split: option.split)

end

interpretation docker: cell hp_DockerSource hp_DockerSource_update by unfold_locales (auto simp: same_at_def)
interpretation promql: cell hp_PromQLSource hp_PromQLSource_update by unfold_locales (auto simp: same_at_def)
interpretation cgroup: cell hp_CgroupSource hp_CgroupSource_update by unfold_locales (auto simp: same_at_def)
interpretation systemd: cell hp_SystemdSource hp_SystemdSource_update by unfold_locales (auto simp: same_at_def)
interpretation measurement: cell hp_MeasurementStatus hp_MeasurementStatus_update by unfold_locales (auto simp: same_at_def)
interpretation resolved: cell hp_ResolvedSource hp_ResolvedSource_update by unfold_locales (auto simp: same_at_def)
interpretation conditions: cell hp_Conditions hp_Conditions_update by unfold_locales (auto simp: same_at_def)


section \<open>Copiers\<close>

text \<open>
  A deep copy of objects whose value depends on the memory at their addresses only: the copy has
  the value of the original and its addresses are fresh, so neither is seen through the other.
\<close>

locale copier =
  fixes into :: "'o \<Rightarrow> 'q heap \<Rightarrow> 'o \<times> 'q heap" and refs :: "'o \<Rightarrow> addr set" and "value" :: "'q heap \<Rightarrow> 'o \<Rightarrow> 'v"
  assumes frame: "same_at A h h' \<Longrightarrow> refs x \<subseteq> A \<Longrightarrow> value h' x = value h x"
    and copies: "into x h = (x', h') \<Longrightarrow> refs x \<subseteq> {..<hp_next h} \<Longrightarrow>
      extends h h' \<and> refs x' \<subseteq> {hp_next h..<hp_next h'} \<and> value h' x' = value h x"
begin

lemma kept:
  assumes "extends h h'" "refs x \<subseteq> {..<hp_next h}"
  shows "value h' x = value h x" "refs x \<subseteq> {..<hp_next h'}"
  using frame [of "{..<hp_next h}" h h' x] assms by (auto simp: extends_def)

lemma independent:
  assumes "into x h = (x', h')" "refs x \<subseteq> {..<hp_next h}"
  shows "value h' x' = value h x" "value h' x = value h x" "refs x' \<inter> {..<hp_next h} = {}"
    and "same_at {hp_next h..} h' h2 \<Longrightarrow> value h2 x' = value h x"
    and "same_at {..<hp_next h} h' h2 \<Longrightarrow> value h2 x = value h x"
proof -
  note c = copies [OF assms]
  show v: "value h' x' = value h x" and "refs x' \<inter> {..<hp_next h} = {}" using c by auto
  show o: "value h' x = value h x" using kept [OF _ assms(2)] c by blast
  show "same_at {hp_next h..} h' h2 \<Longrightarrow> value h2 x' = value h x"
    using frame [of "{hp_next h..}" h' h2 x'] c v by fastforce
  show "same_at {..<hp_next h} h' h2 \<Longrightarrow> value h2 x = value h x"
    using frame [of "{..<hp_next h}" h' h2 x] assms(2) o by simp
qed

end

lemma copied_kept:
  assumes "same_at {..<n} h h'" "set_option p \<subseteq> {..<n}"
  shows "map_option (hp_DockerSource h') p = map_option (hp_DockerSource h) p"
    "map_option (hp_PromQLSource h') p = map_option (hp_PromQLSource h) p"
    "map_option (hp_CgroupSource h') p = map_option (hp_CgroupSource h) p"
    "map_option (hp_SystemdSource h') p = map_option (hp_SystemdSource h) p"
    "map_option (hp_MeasurementStatus h') p = map_option (hp_MeasurementStatus h) p"
    "map_option (hp_ResolvedSource h') p = map_option (hp_ResolvedSource h) p"
    "map_option (hp_Conditions h') p = map_option (hp_Conditions h) p"
  using assms by (cases p; simp add: same_at_def)+

lemma source_copies:
  assumes "SourceSpec_DeepCopyInto x h = (x', h')" "source_refs x \<subseteq> {..<hp_next h}"
  shows "extends h h' \<and> source_refs x' \<subseteq> {hp_next h..<hp_next h'} \<and> source_value h' x' = source_value h x"
proof -
  have r: "set_option (so_Docker x) \<subseteq> {..<hp_next h}" "set_option (so_PromQL x) \<subseteq> {..<hp_next h}"
    "set_option (so_Cgroup x) \<subseteq> {..<hp_next h}" "set_option (so_Systemd x) \<subseteq> {..<hp_next h}"
    using assms(2) by (auto simp: source_refs_def)
  obtain d h1 where d: "copy_field hp_DockerSource hp_DockerSource_update (so_Docker x) h = (d, h1)" by fastforce
  obtain p h2 where p: "copy_field hp_PromQLSource hp_PromQLSource_update (so_PromQL x) h1 = (p, h2)" by fastforce
  obtain c h3 where c: "copy_field hp_CgroupSource hp_CgroupSource_update (so_Cgroup x) h2 = (c, h3)" by fastforce
  obtain s h4 where s: "copy_field hp_SystemdSource hp_SystemdSource_update (so_Systemd x) h3 = (s, h4)" by fastforce
  have x': "h' = h4" "x' = x\<lparr>so_Docker := d, so_PromQL := p, so_Cgroup := c, so_Systemd := s\<rparr>"
    using assms(1) d p c s by (auto simp: SourceSpec_DeepCopyInto_def Let_def)
  note 1 = docker.copied [OF d r(1)]
  have 2: "extends h1 h2 \<and> set_option p \<subseteq> {hp_next h1..<hp_next h2} \<and> map_option (hp_PromQLSource h2) p = map_option (hp_PromQLSource h1) (so_PromQL x)"
    by (rule promql.copied [OF p]) (use 1 r(2) in \<open>auto simp: extends_def\<close>)
  have 3: "extends h2 h3 \<and> set_option c \<subseteq> {hp_next h2..<hp_next h3} \<and> map_option (hp_CgroupSource h3) c = map_option (hp_CgroupSource h2) (so_Cgroup x)"
    by (rule cgroup.copied [OF c]) (use 1 2 r(3) in \<open>auto simp: extends_def\<close>)
  have 4: "extends h3 h4 \<and> set_option s \<subseteq> {hp_next h3..<hp_next h4} \<and> map_option (hp_SystemdSource h4) s = map_option (hp_SystemdSource h3) (so_Systemd x)"
    by (rule systemd.copied [OF s]) (use 1 2 3 r(4) in \<open>auto simp: extends_def\<close>)
  have e: "extends h1 h4" "extends h2 h4" "extends h h4" "extends h h2" "extends h h3"
    using 1 2 3 4 extends_trans by metis+
  have k: "map_option (hp_DockerSource h4) d = map_option (hp_DockerSource h1) d"
    "map_option (hp_PromQLSource h4) p = map_option (hp_PromQLSource h2) p"
    "map_option (hp_CgroupSource h4) c = map_option (hp_CgroupSource h3) c"
    "map_option (hp_PromQLSource h1) (so_PromQL x) = map_option (hp_PromQLSource h) (so_PromQL x)"
    "map_option (hp_CgroupSource h2) (so_Cgroup x) = map_option (hp_CgroupSource h) (so_Cgroup x)"
    "map_option (hp_SystemdSource h3) (so_Systemd x) = map_option (hp_SystemdSource h) (so_Systemd x)"
    by (rule copied_kept; use 1 2 3 4 e r in \<open>fastforce simp: extends_def\<close>)+
  have "source_refs x' \<subseteq> {hp_next h..<hp_next h4}"
    using 1 2 3 4 by (fastforce simp: x' source_refs_def extends_def)
  then show ?thesis using 1 2 3 4 e k by (simp add: x' source_value_def)
qed


lemma status_copies:
  assumes "ShadowWorkloadStatus_DeepCopyInto x h = (x', h')" "status_refs x \<subseteq> {..<hp_next h}"
  shows "extends h h' \<and> status_refs x' \<subseteq> {hp_next h..<hp_next h'} \<and> status_value h' x' = status_value h x"
proof -
  have r: "set_option (sto_LastMeasurement x) \<subseteq> {..<hp_next h}" "set_option (sto_ResolvedSource x) \<subseteq> {..<hp_next h}"
    "set_option (sto_Conditions x) \<subseteq> {..<hp_next h}"
    using assms(2) by (auto simp: status_refs_def)
  have pure: "MeasurementStatus_DeepCopyInto = (\<lambda>x h. (x, h))"
    by (simp add: fun_eq_iff MeasurementStatus_DeepCopyInto_def)
  obtain m h1 where m: "copy_field hp_MeasurementStatus hp_MeasurementStatus_update (sto_LastMeasurement x) h = (m, h1)" by fastforce
  obtain q h2 where q: "copy_field hp_ResolvedSource hp_ResolvedSource_update (sto_ResolvedSource x) h1 = (q, h2)" by fastforce
  obtain c h3 where c: "copy_field hp_Conditions hp_Conditions_update (sto_Conditions x) h2 = (c, h3)" by fastforce
  have x': "h' = h3" "x' = x\<lparr>sto_LastMeasurement := m, sto_ResolvedSource := q, sto_Conditions := c\<rparr>"
    using assms(1) m q c by (auto simp: ShadowWorkloadStatus_DeepCopyInto_def Let_def pure measurement.pure_copy)
  note 1 = measurement.copied [OF m r(1)]
  have 2: "extends h1 h2 \<and> set_option q \<subseteq> {hp_next h1..<hp_next h2} \<and>
      map_option (hp_ResolvedSource h2) q = map_option (hp_ResolvedSource h1) (sto_ResolvedSource x)"
    by (rule resolved.copied [OF q]) (use 1 r(2) in \<open>auto simp: extends_def\<close>)
  have 3: "extends h2 h3 \<and> set_option c \<subseteq> {hp_next h2..<hp_next h3} \<and>
      map_option (hp_Conditions h3) c = map_option (hp_Conditions h2) (sto_Conditions x)"
    by (rule conditions.copied [OF c]) (use 1 2 r(3) in \<open>auto simp: extends_def\<close>)
  have e: "extends h1 h3" "extends h h3" "extends h h2" using 1 2 3 extends_trans by metis+
  have k: "map_option (hp_MeasurementStatus h3) m = map_option (hp_MeasurementStatus h1) m"
    "map_option (hp_ResolvedSource h3) q = map_option (hp_ResolvedSource h2) q"
    "map_option (hp_ResolvedSource h1) (sto_ResolvedSource x) = map_option (hp_ResolvedSource h) (sto_ResolvedSource x)"
    "map_option (hp_Conditions h2) (sto_Conditions x) = map_option (hp_Conditions h) (sto_Conditions x)"
    by (rule copied_kept; use 1 2 3 e r in \<open>fastforce simp: extends_def\<close>)+
  have "map_option (hp_Conditions h3) c = map_option (hp_Conditions h) (sto_Conditions x)" using 3 k by simp
  then have "(case c of None \<Rightarrow> [] | Some a \<Rightarrow> hp_Conditions h3 a) =
      (case sto_Conditions x of None \<Rightarrow> [] | Some a \<Rightarrow> hp_Conditions h a)"
    by (cases c; cases "sto_Conditions x") simp_all
  moreover have "status_refs x' \<subseteq> {hp_next h..<hp_next h3}"
    using 1 2 3 by (fastforce simp: x' status_refs_def extends_def)
  ultimately show ?thesis using 1 2 3 e k by (simp add: x' status_value_def)
qed

interpretation source: copier SourceSpec_DeepCopyInto source_refs source_value
  by (rule copier.intro) (fact source_frame source_copies)+

interpretation status: copier ShadowWorkloadStatus_DeepCopyInto status_refs status_value
  by (rule copier.intro) (fact status_frame status_copies)+

lemma UpdatePolicy_pure: "UpdatePolicy_DeepCopyInto u h = (u, h)"
  by (simp add: UpdatePolicy_DeepCopyInto_def ResourcePair_DeepCopyInto_def Let_def)

lemma workload_copies:
  assumes "ShadowWorkload_DeepCopyInto x h = (x', h')" "workload_refs x \<subseteq> {..<hp_next h}"
  shows "extends h h' \<and> workload_refs x' \<subseteq> {hp_next h..<hp_next h'} \<and> workload_value h' x' = workload_value h x"
proof -
  obtain s h1 where s: "SourceSpec_DeepCopyInto (spo_Source (swo_Spec x)) h = (s, h1)" by fastforce
  obtain t h2 where t: "ShadowWorkloadStatus_DeepCopyInto (swo_Status x) h1 = (t, h2)" by fastforce
  have x': "h' = h2" "x' = x\<lparr>swo_Spec := (swo_Spec x)\<lparr>spo_Source := s\<rparr>, swo_Status := t\<rparr>"
    using assms(1) s t by (auto simp: ShadowWorkload_DeepCopyInto_def ShadowWorkloadSpec_DeepCopyInto_def
        UpdatePolicy_pure Let_def)
  have r: "source_refs (spo_Source (swo_Spec x)) \<subseteq> {..<hp_next h}" "status_refs (swo_Status x) \<subseteq> {..<hp_next h}"
    using assms(2) by (auto simp: workload_refs_def)
  note 1 = source.copies [OF s r(1)]
  note k = status.kept [OF conjunct1 [OF 1] r(2)]
  note 2 = status.copies [OF t k(2)]
  have "source_refs s \<subseteq> {..<hp_next h1}" using 1 by auto
  note l = source.kept [OF conjunct1 [OF 2] this]
  have "workload_refs x' \<subseteq> {hp_next h..<hp_next h2}"
    using 1 2 by (fastforce simp: x' workload_refs_def extends_def)
  moreover have "extends h h2" using 1 2 extends_trans by blast
  ultimately show ?thesis using 1 2 k l by (simp add: x' workload_value_def spec_value_def)
qed

interpretation workload: copier ShadowWorkload_DeepCopyInto workload_refs workload_value
  by (rule copier.intro) (fact workload_frame workload_copies)+

lemma items_copies:
  assumes "copy_items ws h = (ws', h')" "\<Union> (workload_refs ` set ws) \<subseteq> {..<hp_next h}"
  shows "extends h h' \<and> \<Union> (workload_refs ` set ws') \<subseteq> {hp_next h..<hp_next h'} \<and>
    map (workload_value h') ws' = map (workload_value h) ws"
  using assms
proof (induction ws arbitrary: h ws' h')
  case (Cons w ws)
  obtain w1 h1 where w: "ShadowWorkload_DeepCopyInto w h = (w1, h1)" by fastforce
  obtain ws1 h2 where ws: "copy_items ws h1 = (ws1, h2)" by fastforce
  have r: "workload_refs w \<subseteq> {..<hp_next h}" "\<Union> (workload_refs ` set ws) \<subseteq> {..<hp_next h}"
    using Cons.prems(2) by auto
  note 1 = workload.copies [OF w r(1)]
  have "\<Union> (workload_refs ` set ws) \<subseteq> {..<hp_next h1}" using r(2) 1 by (fastforce simp: extends_def)
  note 2 = Cons.IH [OF ws this]
  have k: "map (workload_value h1) ws = map (workload_value h) ws"
    using workload.kept(1) [OF conjunct1 [OF 1]] r(2) by auto
  have "workload_refs w1 \<subseteq> {..<hp_next h1}" using 1 by auto
  note l = workload.kept(1) [OF conjunct1 [OF 2] this]
  have e: "h' = h2" "ws' = w1 # ws1" using Cons.prems(1) w ws by auto
  have "\<Union> (workload_refs ` set ws') \<subseteq> {hp_next h..<hp_next h2}" using 1 2 by (fastforce simp: e extends_def)
  moreover have "extends h h2" using 1 2 extends_trans by blast
  ultimately show ?case using 1 2 k l by (simp add: e)
qed simp

text \<open>A list of objects, with the array its slice points to.\<close>

definition list_refs :: "'q heap \<Rightarrow> ShadowWorkloadList_obj \<Rightarrow> addr set" where
  "list_refs h x =
     (case slo_Items x of None \<Rightarrow> {} | Some a \<Rightarrow> insert a (\<Union> (workload_refs ` set (hp_Items h a))))"

definition list_value :: "'q heap \<Rightarrow> ShadowWorkloadList_obj \<Rightarrow> string \<times> 'q ShadowWorkload list" where
  "list_value h x =
     (slo_ResourceVersion x,
      case slo_Items x of None \<Rightarrow> [] | Some a \<Rightarrow> map (workload_value h) (hp_Items h a))"

lemma list_copies:
  assumes "ShadowWorkloadList_DeepCopyInto x h = (x', h')" "list_refs h x \<subseteq> {..<hp_next h}"
  shows "extends h h' \<and> list_refs h' x' \<subseteq> {hp_next h..<hp_next h'} \<and> list_value h' x' = list_value h x"
proof (cases "slo_Items x")
  case (Some a)
  let ?h1 = "hp_Items_update (\<lambda>m. m(hp_next h := [])) (h\<lparr>hp_next := Suc (hp_next h)\<rparr>)"
  obtain ws h2 where ws: "copy_items (hp_Items h a) ?h1 = (ws, h2)" by fastforce
  have a: "a \<noteq> hp_next h" and r: "\<Union> (workload_refs ` set (hp_Items h a)) \<subseteq> {..<hp_next h}"
    using assms(2) Some by (auto simp: list_refs_def)
  have e: "h' = hp_Items_update (\<lambda>m. m(hp_next h := ws)) h2" "x' = x\<lparr>slo_Items := Some (hp_next h)\<rparr>"
    using assms(1) Some ws a by (auto simp: ShadowWorkloadList_DeepCopyInto_def new_cell_def Let_def)
  have "\<Union> (workload_refs ` set (hp_Items h a)) \<subseteq> {..<hp_next ?h1}" using r by fastforce
  note 1 = items_copies [OF ws this]
  have "extends h ?h1" by (simp add: extends_def same_at_def)
  then have v: "map (workload_value ?h1) (hp_Items h a) = map (workload_value h) (hp_Items h a)"
    using workload.kept(1) [of h ?h1] r by auto
  have same: "workload_value h' = workload_value h2"
    by (simp add: fun_eq_iff e workload_value_def spec_value_def source_value_def status_value_def cong: option.case_cong)
  have "map (workload_value h') ws = map (workload_value h) (hp_Items h a)"
    unfolding same using conjunct2 [OF conjunct2 [OF 1]] v by (rule trans)
  then have "list_value h' x' = list_value h x" by (simp add: list_value_def Some e)
  moreover have "extends h h'" using 1 by (auto simp: extends_def same_at_def e)
  moreover have "list_refs h' x' \<subseteq> {hp_next h..<hp_next h'}"
    using 1 by (fastforce simp: list_refs_def e extends_def)
  ultimately show ?thesis by blast
qed (use assms in \<open>auto simp: ShadowWorkloadList_DeepCopyInto_def list_refs_def list_value_def\<close>)


section \<open>The copy a pass starts from\<close>

lemma workload_pointer_copies:
  assumes "ShadowWorkload_DeepCopy (Some a) h = (r, h')" "a < hp_next h" "workload_refs (hp_Workload h a) \<subseteq> {..<hp_next h}"
  shows "r = Some (hp_next h) \<and> extends h h' \<and> hp_next h < hp_next h' \<and>
    workload_refs (hp_Workload h' (hp_next h)) \<subseteq> {hp_next h..<hp_next h'} \<and>
    workload_value h' (hp_Workload h' (hp_next h)) = workload_value h (hp_Workload h a)"
proof -
  let ?w = "hp_Workload h a" and ?c = "hp_next h"
  let ?h1 = "hp_Workload_update (\<lambda>m. m(?c := ?w)) (h\<lparr>hp_next := Suc ?c\<rparr>)"
  obtain x h2 where x: "ShadowWorkload_DeepCopyInto ?w ?h1 = (x, h2)" by fastforce
  have e: "r = Some ?c" "h' = hp_Workload_update (\<lambda>m. m(?c := x)) h2"
    using assms(1,2) x by (auto simp: ShadowWorkload_DeepCopy_def deep_copy_def new_cell_def Let_def)
  have 0: "extends h ?h1" by (simp add: extends_def same_at_def)
  note k = workload.kept [OF 0 assms(3)]
  note 1 = workload.copies [OF x k(2)]
  have "workload_value h' x = workload_value h2 x"
    by (rule workload_frame [of "{Suc ?c..}"]) (use 1 in \<open>auto simp: e same_at_def\<close>)
  then have "workload_value h' x = workload_value h ?w" using 1 k(1) by simp
  moreover have "extends h h'" using 1 by (auto simp: extends_def same_at_def e)
  ultimately show ?thesis using 1 by (fastforce simp: e extends_def)
qed

end
