(* ===== verification/Copy_Properties.thy ===== *)
theory Copy_Properties
  imports Deep_Copy
begin

text \<open>The property of the generated deep copies that a pass relies on.\<close>

text \<open>C37: the deep copy of a workload is a new object with the same value.  Whatever is written later at
  the addresses that existed before the copy (the original, which the pass changes in place), the
  copy keeps that value; and whatever is written at the fresh addresses, the original keeps it.\<close>

theorem status_base_is_independent:
  assumes "ShadowWorkload_DeepCopy (Some a) h = (r, h')" "a < hp_next h" "workload_refs (hp_Workload h a) \<subseteq> {..<hp_next h}"
  shows "\<exists>c. r = Some c \<and> c \<noteq> a \<and> workload_value h' (hp_Workload h' c) = workload_value h (hp_Workload h a) \<and>
    (\<forall>h2. same_at {hp_next h..} h' h2 \<longrightarrow> workload_value h2 (hp_Workload h2 c) = workload_value h (hp_Workload h a)) \<and>
    (\<forall>h2. same_at {..<hp_next h} h' h2 \<longrightarrow> workload_value h2 (hp_Workload h2 a) = workload_value h (hp_Workload h a))"
proof -
  let ?c = "hp_next h"
  note w = workload_pointer_copies [OF assms]
  have "workload_value h2 (hp_Workload h2 ?c) = workload_value h (hp_Workload h a)" if "same_at {?c..} h' h2" for h2
  proof -
    have "hp_Workload h2 ?c = hp_Workload h' ?c" using that by (simp add: same_at_def)
    moreover have "workload_value h2 (hp_Workload h' ?c) = workload_value h' (hp_Workload h' ?c)"
      by (rule workload_frame [OF that]) (use w in auto)
    ultimately show ?thesis using w by simp
  qed
  moreover have "workload_value h2 (hp_Workload h2 a) = workload_value h (hp_Workload h a)" if "same_at {..<?c} h' h2" for h2
  proof -
    have "same_at {..<?c} h h2" using that w by (auto simp: extends_def same_at_def)
    then have "hp_Workload h2 a = hp_Workload h a" "workload_value h2 (hp_Workload h a) = workload_value h (hp_Workload h a)"
      using assms(2,3) workload_frame by (auto simp: same_at_def)
    then show ?thesis by simp
  qed
  ultimately show ?thesis using w assms(2) by (metis less_irrefl)
qed

definition example_heap :: "nat heap" where
  "example_heap =
     (let src = \<lparr>so_Type = ''promql'', so_Docker = None, so_PromQL = Some 1, so_Cgroup = None, so_Systemd = None\<rparr>;
          pr = \<lparr>rp_CPU = 1, rp_Memory = 2\<rparr>;
          spec = \<lparr>spo_Node = ''n'', spo_Source = src, spo_Metrics = \<lparr>mc_PrometheusURL = ''http://p'', mc_Window = ''5m''\<rparr>,
                  spo_Update = \<lparr>up_DeltaThresholdPercent = 10, up_PollInterval = ''30s'', up_Floor = pr, up_Ceiling = pr\<rparr>\<rparr>;
          st = \<lparr>sto_PhantomPod = [], sto_CurrentCPU = 0, sto_CurrentMemory = 0, sto_LastResize = ZeroTime,
                sto_LastMeasurement = None, sto_ResolvedSource = None, sto_Conditions = Some 2\<rparr>;
          w = \<lparr>swo_Name = ''db'', swo_Namespace = ''ns'', swo_UID = ''u'', swo_Generation = 1, swo_Spec = spec, swo_Status = st\<rparr>;
          c = \<lparr>cd_Type = ''Ready'', cd_Status = ''True'', cd_ObservedGeneration = 1, cd_Reason = ''r'', cd_Message = ([], [])\<rparr>
      in \<lparr>hp_next = 3, hp_CgroupSource = undefined, hp_DockerSource = undefined, hp_MeasurementStatus = undefined,
          hp_MetricsConfig = undefined, hp_PromQLSource = (\<lambda>_. \<lparr>pq_CPUCores = ''c'', pq_MemoryBytes = ''m''\<rparr>),
          hp_ResolvedSource = undefined, hp_ResourcePair = undefined, hp_Workload = (\<lambda>_. w), hp_List = undefined,
          hp_Spec = undefined, hp_Status = undefined, hp_SourceSpec = undefined, hp_SystemdSource = undefined,
          hp_UpdatePolicy = undefined, hp_Conditions = (\<lambda>_. [c]), hp_Items = undefined\<rparr>)"

text \<open>The conditions of the original change in place; those of the copy do not.\<close>

theorem status_base_is_independent_witness:
  "\<exists>c h'. ShadowWorkload_DeepCopy (Some 0) example_heap = (Some c, h') \<and>
     (let h2 = hp_Conditions_update (\<lambda>m. m(2 := [])) h'
      in st_Conditions (sw_Status (workload_value h2 (hp_Workload h2 c))) =
           st_Conditions (sw_Status (workload_value example_heap (hp_Workload example_heap 0))) \<and>
         st_Conditions (sw_Status (workload_value h2 (hp_Workload h2 0))) = [])"
proof -
  obtain r h' where d: "ShadowWorkload_DeepCopy (Some 0) example_heap = (r, h')" by fastforce
  have ok: "0 < hp_next example_heap" "workload_refs (hp_Workload example_heap 0) \<subseteq> {..<hp_next example_heap}"
    by (simp_all add: example_heap_def workload_refs_def source_refs_def status_refs_def Let_def)
  let ?h2 = "hp_Conditions_update (\<lambda>m. m(2 := [])) h'"
  have "same_at {hp_next example_heap..} h' ?h2" by (auto simp: same_at_def example_heap_def Let_def)
  moreover obtain c where "r = Some c" "workload_value ?h2 (hp_Workload ?h2 c) = workload_value example_heap (hp_Workload example_heap 0)"
    using status_base_is_independent [OF d ok] calculation by blast
  moreover have "hp_Workload h' 0 = hp_Workload example_heap 0"
    using workload_pointer_copies [OF d ok] ok(1) by (auto simp: extends_def same_at_def)
  ultimately show ?thesis
    using d by (auto simp: workload_value_def status_value_def example_heap_def Let_def)
qed

end
