(* ===== verification/Manager_Main.thy ===== *)
theory Manager_Main
  imports Controller_Setup
begin

text \<open>
  Model of \<open>cmd/main.go\<close>: the flags, the options of the manager and the start-up.  The flag set is
  that of the package flag; the flags that other packages register on it (zap, kubeconfig), the
  creation and the run of the manager are parameters.
\<close>

section \<open>Flags\<close>

type_synonym repeatedStrings = "string list"

definition repeatedStrings_Set :: "repeatedStrings \<Rightarrow> string \<Rightarrow> repeatedStrings" where
  "repeatedStrings_Set vs v = vs @ [v]"

text \<open>\<open>fmt.Sprintf("%v", values)\<close>.\<close>

definition repeatedStrings_String :: "repeatedStrings \<Rightarrow> string" where
  "repeatedStrings_String vs = ''['' @ join_byte (CHR '' '') vs @ '']''"

record manager_flags =
  mf_metricsAddr :: string
  mf_metricsCertPath :: string
  mf_metricsCertName :: string
  mf_metricsCertKey :: string
  mf_webhookCertPath :: string
  mf_webhookCertName :: string
  mf_webhookCertKey :: string
  mf_enableLeaderElection :: bool
  mf_probeAddr :: string
  mf_secureMetrics :: bool
  mf_enableHTTP2 :: bool
  mf_showVersion :: bool
  mf_allowAny :: bool
  mf_allowed :: repeatedStrings

definition default_flags :: manager_flags where
  "default_flags =
     \<lparr>mf_metricsAddr = ''0'', mf_metricsCertPath = [], mf_metricsCertName = ''tls.crt'', mf_metricsCertKey = ''tls.key'',
      mf_webhookCertPath = [], mf_webhookCertName = ''tls.crt'', mf_webhookCertKey = ''tls.key'',
      mf_enableLeaderElection = False, mf_probeAddr = '':8081'', mf_secureMetrics = True, mf_enableHTTP2 = False,
      mf_showVersion = False, mf_allowAny = False, mf_allowed = []\<rparr>"

text \<open>\<open>strconv.ParseBool\<close>.\<close>

definition ParseBool :: "string \<Rightarrow> bool option" where
  "ParseBool s =
     (if s \<in> {''1'', ''t'', ''T'', ''true'', ''TRUE'', ''True''} then Some True
      else if s \<in> {''0'', ''f'', ''F'', ''false'', ''FALSE'', ''False''} then Some False
      else None)"

text \<open>A flag: a boolean one, which needs no value, or another; and the effect of a value.\<close>

datatype flag = BoolFlag "bool \<Rightarrow> manager_flags \<Rightarrow> manager_flags" | ValueFlag "string \<Rightarrow> manager_flags \<Rightarrow> manager_flags"

definition main_flags :: "(string \<times> flag) list" where
  "main_flags =
     [(''metrics-bind-address'', ValueFlag (\<lambda>v. mf_metricsAddr_update (\<lambda>_. v))),
      (''health-probe-bind-address'', ValueFlag (\<lambda>v. mf_probeAddr_update (\<lambda>_. v))),
      (''leader-elect'', BoolFlag (\<lambda>b. mf_enableLeaderElection_update (\<lambda>_. b))),
      (''metrics-secure'', BoolFlag (\<lambda>b. mf_secureMetrics_update (\<lambda>_. b))),
      (''webhook-cert-path'', ValueFlag (\<lambda>v. mf_webhookCertPath_update (\<lambda>_. v))),
      (''webhook-cert-name'', ValueFlag (\<lambda>v. mf_webhookCertName_update (\<lambda>_. v))),
      (''webhook-cert-key'', ValueFlag (\<lambda>v. mf_webhookCertKey_update (\<lambda>_. v))),
      (''metrics-cert-path'', ValueFlag (\<lambda>v. mf_metricsCertPath_update (\<lambda>_. v))),
      (''metrics-cert-name'', ValueFlag (\<lambda>v. mf_metricsCertName_update (\<lambda>_. v))),
      (''metrics-cert-key'', ValueFlag (\<lambda>v. mf_metricsCertKey_update (\<lambda>_. v))),
      (''enable-http2'', BoolFlag (\<lambda>b. mf_enableHTTP2_update (\<lambda>_. b))),
      (''version'', BoolFlag (\<lambda>b. mf_showVersion_update (\<lambda>_. b))),
      (''prometheus-allowed-destination'', ValueFlag (\<lambda>v. mf_allowed_update (\<lambda>vs. repeatedStrings_Set vs v))),
      (''prometheus-allow-any-destination'', BoolFlag (\<lambda>b. mf_allowAny_update (\<lambda>_. b)))]"

text \<open>Flags of other packages: whether they are boolean, and whether they accept a value.\<close>

record other_flags =
  of_isBool :: "string \<rightharpoonup> bool"
  of_accepts :: "string \<Rightarrow> string \<Rightarrow> bool"

definition flag_is_bool :: "other_flags \<Rightarrow> string \<Rightarrow> bool option" where
  "flag_is_bool X n =
     (case map_of main_flags n of
        Some (BoolFlag _) \<Rightarrow> Some True
      | Some (ValueFlag _) \<Rightarrow> Some False
      | None \<Rightarrow> of_isBool X n)"

definition set_flag :: "other_flags \<Rightarrow> string \<Rightarrow> string \<Rightarrow> manager_flags \<Rightarrow> manager_flags option" where
  "set_flag X n v f =
     (case map_of main_flags n of
        Some (BoolFlag upd) \<Rightarrow> map_option (\<lambda>b. upd b f) (ParseBool v)
      | Some (ValueFlag upd) \<Rightarrow> Some (upd v f)
      | None \<Rightarrow> if of_accepts X n v then Some f else None)"

text \<open>
  \<open>FlagSet.Parse\<close>: one or two dashes, a value after an equals sign or as the next argument, and
  the end of the flags at the first other argument or at two dashes.  The result is the exit
  code of the program or the flags.
\<close>

definition split_flag :: "string \<Rightarrow> string \<times> string option" where
  "split_flag name =
     (let h = takeWhile (\<lambda>c. c \<noteq> CHR ''='') (tl name); r = dropWhile (\<lambda>c. c \<noteq> CHR ''='') (tl name)
      in (hd name # h, if r = [] then None else Some (tl r)))"

function parse_flags :: "other_flags \<Rightarrow> string list \<Rightarrow> manager_flags \<Rightarrow> nat + manager_flags" where
  "parse_flags X [] f = Inr f"
| "parse_flags X (s # args) f =
     (if length s < 2 \<or> hd s \<noteq> CHR ''-'' \<or> s = ''--'' then Inr f
      else
        (let name = (if s ! 1 = CHR ''-'' then drop 2 s else drop 1 s)
         in if name = [] \<or> hd name \<in> {CHR ''-'', CHR ''=''} then Inl 2
            else
              (let (n, v) = split_flag name
               in case flag_is_bool X n of
                    None \<Rightarrow> Inl (if n = ''help'' \<or> n = ''h'' then 0 else 2)
                  | Some True \<Rightarrow>
                      (case set_flag X n (case v of Some x \<Rightarrow> x | None \<Rightarrow> ''true'') f of
                         None \<Rightarrow> Inl 2
                       | Some f \<Rightarrow> parse_flags X args f)
                  | Some False \<Rightarrow>
                      (case v of
                         Some x \<Rightarrow>
                           (case set_flag X n x f of
                              None \<Rightarrow> Inl 2
                            | Some f \<Rightarrow> parse_flags X args f)
                       | None \<Rightarrow>
                           (case args of
                              [] \<Rightarrow> Inl 2
                            | x # rest \<Rightarrow>
                                (case set_flag X n x f of
                                   None \<Rightarrow> Inl 2
                                 | Some f \<Rightarrow> parse_flags X rest f))))))"
  by pat_completeness auto
termination by (relation "Wellfounded.measure (\<lambda>(X, args, f). length args)") auto

declare parse_flags.simps [simp del]

section \<open>Options of the manager\<close>

text \<open>A TLS configuration, as far as the options change it.\<close>

type_synonym tls_config = "string list"

definition disableHTTP2 :: "tls_config \<Rightarrow> tls_config" where
  "disableHTTP2 c = [''http/1.1'']"

record webhook_options =
  wo_TLSOpts :: "(tls_config \<Rightarrow> tls_config) list"
  wo_CertDir :: string
  wo_CertName :: string
  wo_KeyName :: string

record metrics_options =
  ms_BindAddress :: string
  ms_SecureServing :: bool
  ms_TLSOpts :: "(tls_config \<Rightarrow> tls_config) list"
  ms_AuthenticationAndAuthorization :: bool
  ms_CertDir :: string
  ms_CertName :: string
  ms_KeyName :: string

record manager_options =
  mo_CachePodLabels :: "(string \<times> string) list"
  mo_Metrics :: metrics_options
  mo_Webhook :: webhook_options
  mo_HealthProbeBindAddress :: string
  mo_LeaderElection :: bool
  mo_LeaderElectionID :: string

definition tlsOpts :: "manager_flags \<Rightarrow> (tls_config \<Rightarrow> tls_config) list" where
  "tlsOpts f = (if \<not> mf_enableHTTP2 f then [] @ [disableHTTP2] else [])"

definition webhookServerOptions :: "manager_flags \<Rightarrow> webhook_options" where
  "webhookServerOptions f =
     (let o1 = \<lparr>wo_TLSOpts = tlsOpts f, wo_CertDir = [], wo_CertName = [], wo_KeyName = []\<rparr>
      in if 0 < length (mf_webhookCertPath f)
         then o1\<lparr>wo_CertDir := mf_webhookCertPath f, wo_CertName := mf_webhookCertName f, wo_KeyName := mf_webhookCertKey f\<rparr>
         else o1)"

definition metricsServerOptions :: "manager_flags \<Rightarrow> metrics_options" where
  "metricsServerOptions f =
     (let o1 = \<lparr>ms_BindAddress = mf_metricsAddr f, ms_SecureServing = mf_secureMetrics f, ms_TLSOpts = tlsOpts f,
                ms_AuthenticationAndAuthorization = False, ms_CertDir = [], ms_CertName = [], ms_KeyName = []\<rparr>;
          o2 = (if mf_secureMetrics f then o1\<lparr>ms_AuthenticationAndAuthorization := True\<rparr> else o1)
      in if 0 < length (mf_metricsCertPath f)
         then o2\<lparr>ms_CertDir := mf_metricsCertPath f, ms_CertName := mf_metricsCertName f, ms_KeyName := mf_metricsCertKey f\<rparr>
         else o2)"

definition cache_labels :: "(string \<times> string) list" where
  "cache_labels = [(LabelManagedBy, ManagedByValue)]"

definition manager_options_of :: "manager_flags \<Rightarrow> manager_options" where
  "manager_options_of f =
     \<lparr>mo_CachePodLabels = cache_labels, mo_Metrics = metricsServerOptions f, mo_Webhook = webhookServerOptions f,
      mo_HealthProbeBindAddress = mf_probeAddr f, mo_LeaderElection = mf_enableLeaderElection f,
      mo_LeaderElectionID = ''88934310.tensorhost.com''\<rparr>"

text \<open>\<open>labels.SelectorFromSet\<close>: every listed label has the listed value.\<close>

definition selects :: "(string \<times> string) list \<Rightarrow> (string \<rightharpoonup> string) \<Rightarrow> bool" where
  "selects sel ls \<longleftrightarrow> list_all (\<lambda>(k, v). ls k = Some v) sel"

section \<open>Start-up\<close>

text \<open>The manager: its creation, the registry and the watches, the checks and the run.\<close>

record ('v, 's) manager_lib =
  ml_NewManager :: "manager_options \<Rightarrow> 's \<Rightarrow> string option \<times> 's"
  ml_Register :: "'v \<Rightarrow> 's \<Rightarrow> register_error option \<times> 's"
  ml_Watches :: "'s \<Rightarrow> string option \<times> 's"
  ml_AddHealthzCheck :: "'s \<Rightarrow> string option \<times> 's"
  ml_AddReadyzCheck :: "'s \<Rightarrow> string option \<times> 's"
  ml_Start :: "'s \<Rightarrow> string option \<times> 's"

text \<open>How the program ends: the version, an exit before the manager runs, or after its run.\<close>

datatype ('v, 'w) main_end =
  VersionPrinted
| ExitedEarly nat
| ManagerRan "('v, 'w) reconciler_config" nat

definition start_manager ::
  "('v, 's) manager_lib \<Rightarrow> ('v, 'w) reconciler_config \<Rightarrow> 's \<Rightarrow> ('v, 'w) main_end \<times> 's" where
  "start_manager M c s =
     (case ml_AddHealthzCheck M s of
        (Some e, s) \<Rightarrow> (ExitedEarly 1, s)
      | (None, s) \<Rightarrow>
          (case ml_AddReadyzCheck M s of
             (Some e, s) \<Rightarrow> (ExitedEarly 1, s)
           | (None, s) \<Rightarrow>
               (case ml_Start M s of
                  (Some e, s) \<Rightarrow> (ManagerRan c 1, s)
                | (None, s) \<Rightarrow> (ManagerRan c 0, s))))"

definition create_controller ::
  "(string \<Rightarrow> bool) \<Rightarrow> 'w backend \<Rightarrow> 'v vec_lib \<Rightarrow> ('v, 's) manager_lib \<Rightarrow> DestinationPolicy \<Rightarrow> 's \<Rightarrow>
   setup_error option \<times> ('v, 'w) reconciler_config \<times> 's" where
  "create_controller dns be V M policy s =
     SetupWithManager dns be V (ml_Register M) (ml_Watches M)
       \<lparr>rc_hasRecorder = False, rc_QuerierFor = None, rc_policy = policy, rc_Metrics = None\<rparr> s"

definition main ::
  "(string \<Rightarrow> bool) \<Rightarrow> 'w backend \<Rightarrow> 'v vec_lib \<Rightarrow> other_flags \<Rightarrow> ('v, 's) manager_lib \<Rightarrow> string list \<Rightarrow> 's \<Rightarrow>
   ('v, 'w) main_end \<times> 's" where
  "main dns be V X M args s =
     (case parse_flags X args default_flags of
        Inl code \<Rightarrow> (ExitedEarly code, s)
      | Inr f \<Rightarrow>
          if mf_showVersion f then (VersionPrinted, s)
          else
            (case NewDestinationPolicy dns (mf_allowed f) (mf_allowAny f) of
               Inl _ \<Rightarrow> (ExitedEarly 1, s)
             | Inr prometheusDestinationPolicy \<Rightarrow>
                 (case ml_NewManager M (manager_options_of f) s of
                    (Some e, s) \<Rightarrow> (ExitedEarly 1, s)
                  | (None, s) \<Rightarrow>
                      (case create_controller dns be V M prometheusDestinationPolicy s of
                         (Some e, c, s) \<Rightarrow> (ExitedEarly 1, s)
                       | (None, c, s) \<Rightarrow> start_manager M c s))))"

section \<open>What a run shows\<close>

lemma start_manager_ran: "start_manager M c s = (ManagerRan c' code, s') \<Longrightarrow> c' = c"
  by (auto simp: start_manager_def split: prod.splits option.splits)

lemma main_ran:
  assumes "main dns be V X M args s = (ManagerRan c code, s')"
  obtains f p where "parse_flags X args default_flags = Inr f" "\<not> mf_showVersion f"
    "NewDestinationPolicy dns (mf_allowed f) (mf_allowAny f) = Inr p"
    "rc_policy c = p" "rc_QuerierFor c = Some (default_QuerierFor dns be p)" "rc_Metrics c = New V"
    "\<exists>s1. ml_NewManager M (manager_options_of f) s = (None, s1)"
proof -
  obtain f where f: "parse_flags X args default_flags = Inr f" "\<not> mf_showVersion f"
    using assms by (auto simp: main_def split: sum.splits if_splits)
  obtain p where p: "NewDestinationPolicy dns (mf_allowed f) (mf_allowAny f) = Inr p"
    using assms f by (auto simp: main_def split: sum.splits)
  let ?c0 = "\<lparr>rc_hasRecorder = False, rc_QuerierFor = None, rc_policy = p, rc_Metrics = None\<rparr>"
  obtain s1 where m: "ml_NewManager M (manager_options_of f) s = (None, s1)"
    using assms f p by (auto simp: main_def split: prod.splits option.splits)
  obtain e c1 s2 where w: "SetupWithManager dns be V (ml_Register M) (ml_Watches M) ?c0 s1 = (e, c1, s2)"
    by (cases "SetupWithManager dns be V (ml_Register M) (ml_Watches M) ?c0 s1")
  have "e = None" "start_manager M c1 s2 = (ManagerRan c code, s')"
    using assms f p m w by (auto simp: main_def create_controller_def split: option.splits)
  then have "c = setup_defaults dns be V ?c0"
    using w start_manager_ran by (fastforce simp: SetupWithManager_def Let_def split: prod.splits option.splits)
  then show thesis using that [OF f p] m by (simp add: setup_defaults_def Let_def)
qed

text \<open>Each repetition of the flag for allowed destinations adds one, at the end.\<close>

lemma allowed_flag:
  "flag_is_bool X ''prometheus-allowed-destination'' = Some False"
  "set_flag X ''prometheus-allowed-destination'' v f = Some (f\<lparr>mf_allowed := mf_allowed f @ [v]\<rparr>)"
  by (simp_all add: flag_is_bool_def set_flag_def main_flags_def repeatedStrings_Set_def)

end
