(* ===== verification/Manager_Properties.thy ===== *)
theory Manager_Properties
  imports Manager_Main Setup_Properties Pass_Facts
begin

text \<open>Properties that span the start-up of the program and the passes of its controller.\<close>

text \<open>C30: when the manager has run, its flags parsed and made a policy, its controller builds queriers
  with that policy, and, unless any destination was allowed, a querier exists only for a URL
  with the origin of one of the flags.\<close>

theorem running_manager_queries_only_flagged_origins:
  assumes "main dns be V X M args s = (ManagerRan c code, s')"
  shows "\<exists>f p. parse_flags X args default_flags = Inr f \<and> \<not> (mf_allowAny f \<and> mf_allowed f \<noteq> []) \<and>
    rc_QuerierFor c = Some (default_QuerierFor dns be p) \<and>
    (\<forall>url k. default_QuerierFor dns be p url = Inr k \<longrightarrow>
       (\<exists>u o1. parsePrometheusURL dns url = Inr (u, o1) \<and>
          (mf_allowAny f \<or> (\<exists>rule \<in> set (mf_allowed f). \<exists>r. parsePrometheusURL dns rule = Inr (r, o1)))))"
proof -
  obtain f p where f: "parse_flags X args default_flags = Inr f"
      and p: "NewDestinationPolicy dns (mf_allowed f) (mf_allowAny f) = Inr p"
      and c: "rc_QuerierFor c = Some (default_QuerierFor dns be p)"
    by (rule main_ran [OF assms])
  have any: "\<not> (mf_allowAny f \<and> mf_allowed f \<noteq> [])" and
    q: "dp_allowAny p = mf_allowAny f"
      "dp_allowed p = {o'. \<exists>rule \<in> set (mf_allowed f). \<exists>r. parsePrometheusURL dns rule = Inr (r, o')}"
    using p add_rules_ok [of dns "mf_allowed f" _ p] by (auto simp: NewDestinationPolicy_def zero_policy_def split: if_splits)
  have "\<exists>u o1. parsePrometheusURL dns url = Inr (u, o1) \<and>
      (mf_allowAny f \<or> (\<exists>rule \<in> set (mf_allowed f). \<exists>r. parsePrometheusURL dns rule = Inr (r, o1)))"
    if k: "default_QuerierFor dns be p url = Inr k" for url k
  proof -
    obtain u where "Validate dns p url = Inr u"
      using k by (auto simp: default_QuerierFor_def NewClient_def split: sum.splits)
    then obtain o1 where "parsePrometheusURL dns url = Inr (u, o1)" "dp_allowAny p \<or> o1 \<in> dp_allowed p"
      by (auto simp: Validate_def split: sum.splits if_splits)
    then show ?thesis using q by auto
  qed
  then show ?thesis using f any c by blast
qed

definition quiet_manager :: "(map_vec, nat) manager_lib" where
  "quiet_manager =
     \<lparr>ml_NewManager = (\<lambda>opts s. (None, Suc s)), ml_Register = (\<lambda>v s. (None, s)), ml_Watches = (\<lambda>s. (None, s)),
      ml_AddHealthzCheck = (\<lambda>s. (None, s)), ml_AddReadyzCheck = (\<lambda>s. (None, s)), ml_Start = (\<lambda>s. (None, s))\<rparr>"

definition no_other_flags :: other_flags where
  "no_other_flags = \<lparr>of_isBool = Map.empty, of_accepts = (\<lambda>n v. False)\<rparr>"

lemma example_flags:
  "parse_flags no_other_flags [''--prometheus-allowed-destination'', ''http://p:09''] default_flags =
     Inr (default_flags\<lparr>mf_allowed := [''http://p:09'']\<rparr>)"
proof -
  have "split_flag ''prometheus-allowed-destination'' = (''prometheus-allowed-destination'', None)" by code_simp
  then show ?thesis by (simp add: parse_flags.simps allowed_flag default_flags_def)
qed

lemma example_main:
  "\<exists>c. main example_dns (example_backend []) map_vec_lib no_other_flags quiet_manager
     [''--prometheus-allowed-destination'', ''http://p:09''] 0 = (ManagerRan c 0, 1)"
proof -
  have "\<not> mf_showVersion default_flags" "\<not> mf_allowAny default_flags" by (simp_all add: default_flags_def)
  then show ?thesis
    by (simp add: main_def create_controller_def example_flags example_policy quiet_manager_def SetupWithManager_def
        setup_defaults_def New_def Register_def gaugeVecs_def counterVecs_def registerToleratingDuplicates_def
        start_manager_def Let_def)
qed

theorem running_manager_queries_only_flagged_origins_witness:
  "\<exists>c p. main example_dns (example_backend []) map_vec_lib no_other_flags quiet_manager
      [''--prometheus-allowed-destination'', ''http://p:09''] 0 = (ManagerRan c 0, 1) \<and>
    rc_QuerierFor c = Some (default_QuerierFor example_dns (example_backend []) p)"
proof -
  obtain c where c: "main example_dns (example_backend []) map_vec_lib no_other_flags quiet_manager
      [''--prometheus-allowed-destination'', ''http://p:09''] 0 = (ManagerRan c 0, 1)"
    using example_main by blast
  from running_manager_queries_only_flagged_origins [OF c] c show ?thesis by blast
qed

text \<open>C39: the pod cache of the manager selects every pod that a pass creates, and a pod it selects is
  still selected after a resize.\<close>

theorem managed_pods_stay_in_the_cache:
  assumes "Reconcile L V E ns n rc w = (res, rc', t, w')" "owner_laws L"
  shows "(\<forall>pod a. CCreatePod pod a \<in> set t \<longrightarrow> selects (mo_CachePodLabels (manager_options_of f)) (pod_Labels pod)) \<and>
    (\<forall>base new a. CPatchResize base new a \<in> set t \<longrightarrow>
       selects (mo_CachePodLabels (manager_options_of f)) (pod_Labels new) =
       selects (mo_CachePodLabels (manager_options_of f)) (pod_Labels base))"
proof -
  have call: "\<exists>sw u. call_ok L sw u c" if c: "c \<in> set t" "\<And>b s a. c \<noteq> CPatchStatus b s a" for c
  proof -
    obtain sw w0 where "api_GetShadowWorkload E ns n w = (Inr sw, w0)" by (rule Reconcile_read [OF assms(1) c(1)])
    from Reconcile_member [OF assms(1) this c] show ?thesis by blast
  qed
  have sel: "mo_CachePodLabels (manager_options_of f) = [(LabelManagedBy, ManagedByValue)]"
    by (simp add: manager_options_of_def cache_labels_def)
  have "selects (mo_CachePodLabels (manager_options_of f)) (pod_Labels pod)" if "CCreatePod pod a \<in> set t" for pod a
    using call [OF that] BuildPhantomPod_pod(7) [OF _ assms(2)] by (auto simp: sel selects_def)
  moreover have "pod_Labels new = pod_Labels base" if "CPatchResize base new a \<in> set t" for base new a
    using call [OF that] by (auto simp: resized_pod_def Let_def)
  ultimately show ?thesis by metis
qed

theorem managed_pods_stay_in_the_cache_witness:
  "selects (mo_CachePodLabels (manager_options_of default_flags))
     (pod_Labels (example_fresh \<lparr>rp_CPU = 1, rp_Memory = 5000\<rparr>))"
proof -
  obtain s m where "Reconcile rat_lib map_vec_lib (create_cluster example_pair) ''ns'' ''db'' None () =
     (Inr 30000000000, None,
      [CPatchStatus example_sw s None, CEvent EventTypeNormal reasonPhantomCreated m] @
      CCreatePod (example_fresh \<lparr>rp_CPU = 1, rp_Memory = 5000\<rparr>)
         (Inr (example_fresh \<lparr>rp_CPU = 1, rp_Memory = 5000\<rparr>)) #
      example_earlier (Inl NotFound) example_pair, ())"
    using create_run by blast
  from managed_pods_stay_in_the_cache [OF this rat_lib_owner_laws, of default_flags] show ?thesis by auto
qed

end
