(* ===== verification/Workload_History.thy ===== *)
theory Workload_History
  imports Pass_Facts Example_Cluster
begin

text \<open>
  The stored workload over time: passes whose status patch is accepted, and edits by users, who
  raise the generation and leave the status alone.  A pass reads the workload as it is stored.
\<close>

inductive stored_step ::
  "'q lib \<Rightarrow> 'v vec_lib \<Rightarrow> ('q, 'w) cluster \<Rightarrow> 'q ShadowWorkload \<Rightarrow> 'q ShadowWorkload \<Rightarrow> bool" for L V E where
  reconciled: "Reconcile L V E ns n rc w = (res, rc', CPatchStatus sw s None # t, w') \<Longrightarrow>
    stored_step L V E sw (sw\<lparr>sw_Status := sw_Status s\<rparr>)"
| edited: "sint (sw_Generation sw) < sint g \<Longrightarrow>
    stored_step L V E sw (sw\<lparr>sw_Generation := g, sw_Spec := spec\<rparr>)"

inductive_cases stored_stepE: "stored_step L V E sw sw'"

definition fresh_workload :: "'q lib \<Rightarrow> 'q ShadowWorkload \<Rightarrow> bool" where
  "fresh_workload L sw \<longleftrightarrow>
     st_LastMeasurement (sw_Status sw) = None \<and> st_ResolvedSource (sw_Status sw) = None \<and>
     st_PhantomPod (sw_Status sw) = [] \<and>
     k_FindStatusCondition L (st_Conditions (sw_Status sw)) conditionReady = None \<and>
     k_FindStatusCondition L (st_Conditions (sw_Status sw)) conditionDegraded = None"

text \<open>The two conditions: none yet, or complementary ones of one pass.\<close>

definition conditions_coherent :: "'q lib \<Rightarrow> 'q ShadowWorkload \<Rightarrow> bool" where
  "conditions_coherent L sw \<longleftrightarrow>
     (case (k_FindStatusCondition L (st_Conditions (sw_Status sw)) conditionReady,
            k_FindStatusCondition L (st_Conditions (sw_Status sw)) conditionDegraded) of
        (None, None) \<Rightarrow> True
      | (Some r, Some d) \<Rightarrow>
          cd_ObservedGeneration r = cd_ObservedGeneration d \<and>
          sint (cd_ObservedGeneration r) \<le> sint (sw_Generation sw) \<and>
          (if cd_Status d = ''True'' then cd_Status r = ''False'' \<and> cd_Reason r = cd_Reason d \<and> cd_Reason d \<in> set degraded_reasons
           else cd_Status d = ''False'' \<and> cd_Status r = ''True'' \<and> cd_Reason r \<in> set ready_reasons)
      | _ \<Rightarrow> False)"

definition stored_ok :: "'q lib \<Rightarrow> 'q ShadowWorkload \<Rightarrow> bool" where
  "stored_ok L sw \<longleftrightarrow>
     (st_LastMeasurement (sw_Status sw) = None \<longleftrightarrow> st_ResolvedSource (sw_Status sw) = None) \<and>
     (\<forall>m. st_LastMeasurement (sw_Status sw) = Some m \<longrightarrow> sint (ms_ObservedGeneration m) \<le> sint (sw_Generation sw)) \<and>
     st_PhantomPod (sw_Status sw) \<in> {[], PhantomName (sw_Name sw)} \<and>
     conditions_coherent L sw"

lemma fresh_ok: "fresh_workload L sw \<Longrightarrow> stored_ok L sw"
  by (simp add: fresh_workload_def stored_ok_def conditions_coherent_def)

lemma edited_ok: "stored_ok L sw \<Longrightarrow> sint (sw_Generation sw) < sint g \<Longrightarrow>
    stored_ok L (sw\<lparr>sw_Generation := g, sw_Spec := spec\<rparr>)"
  by (force simp: stored_ok_def conditions_coherent_def split: option.splits)

lemma patched_conditions:
  fixes p :: "('q, 'v, 'w) pass"
  assumes "condition_laws L" "pass_ok L b p"
  shows "conditions_coherent L (b\<lparr>sw_Status := sw_Status (ps_sw (reported L V obs p))\<rparr>)"
proof -
  obtain r where r: "k_FindStatusCondition L (st_Conditions (sw_Status (ps_sw (reported L V obs p)))) conditionReady = Some r"
      "(cd_Status r, cd_Reason r) = reported_ready p" "cd_ObservedGeneration r = sw_Generation b"
    using reported_conditions(1) [OF assms(1), of V obs p] pass_ok_objectD(5) [OF assms(2)] by auto
  obtain d where d: "k_FindStatusCondition L (st_Conditions (sw_Status (ps_sw (reported L V obs p)))) conditionDegraded = Some d"
      "(cd_Status d, cd_Reason d) = reported_degraded p" "cd_ObservedGeneration d = sw_Generation b"
    using reported_conditions(2) [OF assms(1), of V obs p] pass_ok_objectD(5) [OF assms(2)] by auto
  have "reasons_ok p" using assms(2) by (simp add: pass_ok_def)
  then show ?thesis using r d
    by (auto simp: conditions_coherent_def reported_ready_def reported_degraded_def reasons_ok_def split: if_splits)
qed

lemma reconciled_ok:
  fixes L :: "'q lib" and V :: "'v vec_lib" and E :: "('q, 'w) cluster"
  assumes "Reconcile L V E ns n rc w = (res, rc', CPatchStatus b s None # t, w')" "condition_laws L" "stored_ok L b"
  shows "stored_ok L (b\<lparr>sw_Status := sw_Status s\<rparr>)"
proof (rule Reconcile_patch_at [of L V E ns n rc w res rc' "[]" b s None t w'])
  show "Reconcile L V E ns n rc w = (res, rc', [] @ CPatchStatus b s None # t, w')" using assms(1) by simp
next
  fix w0 obs imm and p :: "('q, 'v, 'w) pass"
  assume p: "pass_ok L b p" "s = ps_sw (reported L V obs p)"
  then have ok: "snapshot_ok L b (measured_in (ps_trace p)) (sw_Status (ps_sw p))"
    "currents_ok b (resized_in (ps_trace p)) (sw_Status (ps_sw p))" by (simp_all add: pass_ok_def)
  have "st_PhantomPod (sw_Status s) \<in> {[], PhantomName (sw_Name b)}"
    using ok(2) assms(3) pass_ok_objectD(1) [OF p(1)]
    by (auto simp: p(2) reported_currents currents_ok_def stored_ok_def split: option.split)
  moreover have "(st_LastMeasurement (sw_Status s) = None \<longleftrightarrow> st_ResolvedSource (sw_Status s) = None) \<and>
     (\<forall>m. st_LastMeasurement (sw_Status s) = Some m \<longrightarrow> sint (ms_ObservedGeneration m) \<le> sint (sw_Generation b))"
    using ok(1) assms(3)
    by (auto simp: p(2) reported_snapshot snapshot_ok_def stored_ok_def measurement_of_def Let_def split: option.splits)
  ultimately show ?thesis
    using patched_conditions [OF assms(2) p(1), of V obs] by (simp add: stored_ok_def p(2))
qed

lemma step_ok:
  assumes "stored_step L V E sw sw'" "condition_laws L" "stored_ok L sw"
  shows "stored_ok L sw'"
  using assms by (elim stored_stepE) (auto intro: reconciled_ok edited_ok)

lemma history_ok:
  assumes "(stored_step L V E)\<^sup>*\<^sup>* sw0 sw" "condition_laws L" "fresh_workload L sw0"
  shows "stored_ok L sw"
  using assms(1)
proof (induction rule: rtranclp_induct)
  case base
  show ?case by (rule fresh_ok [OF assms(3)])
next
  case (step sw sw')
  then show ?case using step_ok assms(2) by blast
qed

text \<open>C11: along every history of passes and edits of a new workload, the stored status has a
  measurement exactly when it has a resolved source, both conditions or none, complementary and
  of one generation, nothing observed at a generation that is not there yet, and it names no
  pod but the phantom.\<close>

theorem stored_status_stays_coherent:
  assumes "(stored_step L V E)\<^sup>*\<^sup>* sw0 sw" "condition_laws L" "fresh_workload L sw0"
  shows "(st_LastMeasurement (sw_Status sw) = None \<longleftrightarrow> st_ResolvedSource (sw_Status sw) = None) \<and>
    (\<forall>m. st_LastMeasurement (sw_Status sw) = Some m \<longrightarrow> sint (ms_ObservedGeneration m) \<le> sint (sw_Generation sw)) \<and>
    st_PhantomPod (sw_Status sw) \<in> {[], PhantomName (sw_Name sw)} \<and> conditions_coherent L sw"
  using history_ok [OF assms] by (simp add: stored_ok_def)

theorem stored_status_stays_coherent_witness:
  "\<exists>sw. (stored_step rat_lib map_vec_lib (create_cluster example_pair))\<^sup>*\<^sup>* example_sw sw \<and>
     sint (sw_Generation sw) = 4 \<and>
     (st_LastMeasurement (sw_Status sw) = None \<longleftrightarrow> st_ResolvedSource (sw_Status sw) = None)"
proof -
  obtain s m where r: "Reconcile rat_lib map_vec_lib (create_cluster example_pair) ''ns'' ''db'' None () =
      (Inr 30000000000, None, CPatchStatus example_sw s None # CEvent EventTypeNormal reasonPhantomCreated m #
        CCreatePod (example_fresh \<lparr>rp_CPU = 1, rp_Memory = 5000\<rparr>)
         (Inr (example_fresh \<lparr>rp_CPU = 1, rp_Memory = 5000\<rparr>)) # example_earlier (Inl NotFound) example_pair, ())"
    using create_patch_run by auto
  let ?s = "stored_step rat_lib map_vec_lib (create_cluster example_pair)"
  let ?a = "example_sw\<lparr>sw_Status := sw_Status s\<rparr>" and ?b = "example_sw\<lparr>sw_Status := sw_Status s, sw_Generation := 4, sw_Spec := example_spec\<rparr>"
  have "?s example_sw ?a" by (rule stored_step.reconciled [OF r])
  moreover have "?s ?a ?b" using stored_step.edited [of ?a 4] by (simp add: example_sw_def)
  ultimately have h: "?s\<^sup>*\<^sup>* example_sw ?b" by (meson rtranclp.rtrancl_into_rtrancl rtranclp.rtrancl_refl)
  have "fresh_workload rat_lib example_sw"
    by (simp add: fresh_workload_def example_status_def rat_lib_def)
  from stored_status_stays_coherent [OF h rat_lib_condition_laws this]
  show ?thesis by (intro exI [of _ ?b] conjI h) simp_all
qed

end
