(* ===== verification/Api_Admission.thy ===== *)
theory Api_Admission
  imports Sources
begin

text \<open>
  Model of the validation markers in \<open>api/v1alpha1/shadowworkload_types.go\<close>: what the API server
  stores for a \<open>ShadowWorkload\<close> that is submitted.  Defaults fill in the fields that are left
  out, then the patterns, bounds and rules decide.  A manifest has an option for every field
  with a default; a field that is required is always there.  Quantities are parsed by the
  library, so a manifest holds their values, and \<open>parse\<close> reads the texts of the defaults.
\<close>

section \<open>Manifests\<close>

record DockerSource_manifest =
  dkm_Selector :: string
  dkm_CadvisorJob :: "string option"
  dkm_CadvisorInstance :: string

record CgroupSource_manifest =
  cgm_Path :: string
  cgm_CadvisorJob :: "string option"
  cgm_CadvisorInstance :: string

record SystemdSource_manifest =
  sdm_Unit :: string
  sdm_CadvisorJob :: "string option"
  sdm_CadvisorInstance :: string

record SourceSpec_manifest =
  srcm_Type :: string
  srcm_Docker :: "DockerSource_manifest option"
  srcm_PromQL :: "PromQLSource option"
  srcm_Cgroup :: "CgroupSource_manifest option"
  srcm_Systemd :: "SystemdSource_manifest option"

record 'q ResourcePair_manifest =
  rpm_CPU :: "'q option"
  rpm_Memory :: "'q option"

record 'q UpdatePolicy_manifest =
  upm_DeltaThresholdPercent :: "int option"
  upm_PollInterval :: "string option"
  upm_Floor :: "'q ResourcePair_manifest"
  upm_Ceiling :: "'q ResourcePair_manifest"

record 'q spec_manifest =
  specm_Node :: string
  specm_Source :: SourceSpec_manifest
  specm_Metrics :: MetricsConfig
  specm_Update :: "'q UpdatePolicy_manifest"

section \<open>Defaults\<close>

definition DefaultDeltaThresholdPercent :: int where "DefaultDeltaThresholdPercent = 10"

definition DefaultPollInterval :: string where "DefaultPollInterval = ''30s''"

definition or_default :: "'a \<Rightarrow> 'a option \<Rightarrow> 'a" where
  "or_default d v = (case v of None \<Rightarrow> d | Some x \<Rightarrow> x)"

definition default_docker :: "DockerSource_manifest \<Rightarrow> DockerSource" where
  "default_docker m =
     \<lparr>dk_Selector = dkm_Selector m, dk_CadvisorJob = or_default ''cadvisor'' (dkm_CadvisorJob m),
      dk_CadvisorInstance = dkm_CadvisorInstance m\<rparr>"

definition default_cgroup :: "CgroupSource_manifest \<Rightarrow> CgroupSource" where
  "default_cgroup m =
     \<lparr>cg_Path = cgm_Path m, cg_CadvisorJob = or_default ''cadvisor'' (cgm_CadvisorJob m),
      cg_CadvisorInstance = cgm_CadvisorInstance m\<rparr>"

definition default_systemd :: "SystemdSource_manifest \<Rightarrow> SystemdSource" where
  "default_systemd m =
     \<lparr>sd_Unit = sdm_Unit m, sd_CadvisorJob = or_default ''cadvisor'' (sdm_CadvisorJob m),
      sd_CadvisorInstance = sdm_CadvisorInstance m\<rparr>"

definition default_source :: "SourceSpec_manifest \<Rightarrow> SourceSpec" where
  "default_source m =
     \<lparr>src_Type = srcm_Type m, src_Docker = map_option default_docker (srcm_Docker m),
      src_PromQL = srcm_PromQL m, src_Cgroup = map_option default_cgroup (srcm_Cgroup m),
      src_Systemd = map_option default_systemd (srcm_Systemd m)\<rparr>"

definition default_pair :: "(string \<Rightarrow> 'q) \<Rightarrow> 'q ResourcePair_manifest \<Rightarrow> 'q ResourcePair" where
  "default_pair parse m =
     \<lparr>rp_CPU = or_default (parse ''10m'') (rpm_CPU m), rp_Memory = or_default (parse ''32Mi'') (rpm_Memory m)\<rparr>"

definition default_delta :: "'q UpdatePolicy_manifest \<Rightarrow> int" where
  "default_delta m = or_default DefaultDeltaThresholdPercent (upm_DeltaThresholdPercent m)"

definition default_update :: "(string \<Rightarrow> 'q) \<Rightarrow> 'q UpdatePolicy_manifest \<Rightarrow> 'q UpdatePolicy" where
  "default_update parse m =
     \<lparr>up_DeltaThresholdPercent = word_of_int (default_delta m),
      up_PollInterval = or_default DefaultPollInterval (upm_PollInterval m),
      up_Floor = default_pair parse (upm_Floor m), up_Ceiling = default_pair parse (upm_Ceiling m)\<rparr>"

definition default_spec :: "(string \<Rightarrow> 'q) \<Rightarrow> 'q spec_manifest \<Rightarrow> 'q ShadowWorkloadSpec" where
  "default_spec parse m =
     \<lparr>spec_Node = specm_Node m, spec_Source = default_source (specm_Source m),
      spec_Metrics = specm_Metrics m, spec_Update = default_update parse (specm_Update m)\<rparr>"

section \<open>Validation\<close>

text \<open>Lengths count characters: every byte of a UTF-8 text but the continuation bytes.\<close>

definition char_count :: "string \<Rightarrow> nat" where
  "char_count s = length (filter (\<lambda>c. \<not> (128 \<le> (of_char c :: nat) \<and> (of_char c :: nat) < 192)) s)"

definition node_valid :: "string \<Rightarrow> bool" where
  "node_valid s \<longleftrightarrow> 1 \<le> char_count s \<and> char_count s \<le> 253"

definition source_types :: "string list" where
  "source_types = [SourceTypeDocker, SourceTypePromQL, SourceTypeCgroup, SourceTypeSystemd]"

definition docker_valid :: "DockerSource \<Rightarrow> bool" where
  "docker_valid d \<longleftrightarrow> dk_Selector d = SelectorAll \<and> 1 \<le> char_count (dk_CadvisorInstance d)"

definition cgroup_valid :: "CgroupSource \<Rightarrow> bool" where
  "cgroup_valid c \<longleftrightarrow> rx_match cgroupPathPattern (cg_Path c) \<and> 2 \<le> char_count (cg_Path c) \<and>
     1 \<le> char_count (cg_CadvisorInstance c)"

definition systemd_valid :: "SystemdSource \<Rightarrow> bool" where
  "systemd_valid s \<longleftrightarrow> rx_match systemdUnitPattern (sd_Unit s) \<and> 1 \<le> char_count (sd_CadvisorInstance s)"

definition promql_valid :: "PromQLSource \<Rightarrow> bool" where
  "promql_valid p \<longleftrightarrow> 1 \<le> char_count (pq_CPUCores p) \<and> 1 \<le> char_count (pq_MemoryBytes p)"

text \<open>The two rules of a source: exactly one block, and the one its type names.\<close>

definition one_source_block :: "SourceSpec \<Rightarrow> bool" where
  "one_source_block s \<longleftrightarrow>
     length (filter (\<lambda>x. x) [src_Docker s \<noteq> None, src_PromQL s \<noteq> None, src_Cgroup s \<noteq> None, src_Systemd s \<noteq> None]) = 1"

definition block_matches_type :: "SourceSpec \<Rightarrow> bool" where
  "block_matches_type s \<longleftrightarrow>
     (src_Type s = ''docker'') = (src_Docker s \<noteq> None) \<and> (src_Type s = ''promql'') = (src_PromQL s \<noteq> None) \<and>
     (src_Type s = ''cgroup'') = (src_Cgroup s \<noteq> None) \<and> (src_Type s = ''systemd'') = (src_Systemd s \<noteq> None)"

definition source_valid :: "SourceSpec \<Rightarrow> bool" where
  "source_valid s \<longleftrightarrow>
     src_Type s \<in> set source_types \<and> pred_option docker_valid (src_Docker s) \<and>
     pred_option promql_valid (src_PromQL s) \<and> pred_option cgroup_valid (src_Cgroup s) \<and>
     pred_option systemd_valid (src_Systemd s) \<and> one_source_block s \<and> block_matches_type s"

text \<open>The pattern of the URL: a scheme and at least one byte, none of them a line feed.\<close>

definition urlPattern :: rx where
  "urlPattern =
     RSeq (RLit ''http'') (RSeq (ROpt (RLit ''s'')) (RSeq (RLit ''://'') (RPlus (RCls (\<lambda>c. c \<noteq> CHR 0x0A)))))"

definition metrics_valid :: "MetricsConfig \<Rightarrow> bool" where
  "metrics_valid m \<longleftrightarrow> rx_match urlPattern (mc_PrometheusURL m) \<and> rx_match windowPattern (mc_Window m)"

text \<open>The six rules of a policy, in terms of the comparison of quantities.\<close>

definition bounds_valid :: "'q lib \<Rightarrow> 'q UpdatePolicy \<Rightarrow> bool" where
  "bounds_valid L u \<longleftrightarrow>
     \<not> q_Cmp L (rp_CPU (up_Floor u)) (q_Zero L) < 0 \<and> \<not> q_Cmp L (rp_Memory (up_Floor u)) (q_Zero L) < 0 \<and>
     \<not> q_Cmp L (rp_CPU (up_Ceiling u)) (q_Zero L) < 0 \<and> \<not> q_Cmp L (rp_Memory (up_Ceiling u)) (q_Zero L) < 0 \<and>
     \<not> q_Cmp L (rp_CPU (up_Ceiling u)) (rp_CPU (up_Floor u)) < 0 \<and>
     \<not> q_Cmp L (rp_Memory (up_Ceiling u)) (rp_Memory (up_Floor u)) < 0"

definition update_valid :: "'q lib \<Rightarrow> int \<Rightarrow> 'q UpdatePolicy \<Rightarrow> bool" where
  "update_valid L delta u \<longleftrightarrow>
     0 \<le> delta \<and> delta \<le> 100 \<and> rx_match windowPattern (up_PollInterval u) \<and> bounds_valid L u"

text \<open>What is stored: the manifest with its defaults, when it is valid.\<close>

definition admit_spec :: "'q lib \<Rightarrow> (string \<Rightarrow> 'q) \<Rightarrow> 'q spec_manifest \<Rightarrow> 'q ShadowWorkloadSpec option" where
  "admit_spec L parse m =
     (let spec = default_spec parse m
      in if node_valid (spec_Node spec) \<and> source_valid (spec_Source spec) \<and> metrics_valid (spec_Metrics spec) \<and>
            update_valid L (default_delta (specm_Update m)) (spec_Update spec)
         then Some spec else None)"

section \<open>What an admitted declaration satisfies\<close>

lemma char_count_Nil [simp]: "char_count [] = 0"
  by (simp add: char_count_def)

lemma admittedD:
  assumes "admit_spec L parse m = Some spec"
  shows "node_valid (spec_Node spec)" "source_valid (spec_Source spec)" "metrics_valid (spec_Metrics spec)"
    "bounds_valid L (spec_Update spec)" "rx_match windowPattern (up_PollInterval (spec_Update spec))"
    "0 \<le> sint (up_DeltaThresholdPercent (spec_Update spec))"
    "sint (up_DeltaThresholdPercent (spec_Update spec)) \<le> 100"
proof -
  have s: "spec = default_spec parse m" and u: "update_valid L (default_delta (specm_Update m)) (spec_Update spec)"
    using assms by (auto simp: admit_spec_def Let_def split: if_splits)
  show "node_valid (spec_Node spec)" "source_valid (spec_Source spec)" "metrics_valid (spec_Metrics spec)"
    using assms by (auto simp: admit_spec_def Let_def split: if_splits)
  show "bounds_valid L (spec_Update spec)" "rx_match windowPattern (up_PollInterval (spec_Update spec))"
    using u by (simp_all add: update_valid_def)
  have d: "up_DeltaThresholdPercent (spec_Update spec) = word_of_int (default_delta (specm_Update m))"
    by (simp add: s default_spec_def default_update_def)
  have "sint (word_of_int x :: int32) = x" if "0 \<le> x" "x \<le> 100" for x :: int
    using that by (simp add: sint_sbintrunc' signed_take_bit_int_eq_self)
  then show "0 \<le> sint (up_DeltaThresholdPercent (spec_Update spec))"
    "sint (up_DeltaThresholdPercent (spec_Update spec)) \<le> 100"
    using u by (simp_all add: d update_valid_def)
qed

lemma source_typesE:
  assumes "t \<in> set source_types"
  obtains "t = ''docker''" | "t = ''promql''" | "t = ''cgroup''" | "t = ''systemd''"
  using assms by (auto simp: source_types_def source_type_defs)

text \<open>A valid source has the block of its type, valid, and no other.\<close>

lemma source_valid_cases:
  assumes "source_valid s"
  obtains (docker) d where "src_Type s = SourceTypeDocker" "src_Docker s = Some d" "docker_valid d" "src_Cgroup s = None"
  | (promql) p where "src_Type s = SourceTypePromQL" "src_PromQL s = Some p" "promql_valid p" "src_Cgroup s = None"
  | (cgroup) c where "src_Type s = SourceTypeCgroup" "src_Cgroup s = Some c" "cgroup_valid c"
  | (systemd) d where "src_Type s = SourceTypeSystemd" "src_Systemd s = Some d" "systemd_valid d" "src_Cgroup s = None"
  using assms
  by (auto simp: source_valid_def block_matches_type_def source_type_defs elim!: source_typesE)

lemma bounds_valid_iff:
  assumes "quantity_laws L val"
  shows "bounds_valid L u \<longleftrightarrow>
     0 \<le> val (rp_CPU (up_Floor u)) \<and> val (rp_CPU (up_Floor u)) \<le> val (rp_CPU (up_Ceiling u)) \<and>
     0 \<le> val (rp_Memory (up_Floor u)) \<and> val (rp_Memory (up_Floor u)) \<le> val (rp_Memory (up_Ceiling u))"
  using quantity_lawsD [OF assms] by (auto simp: bounds_valid_def)

end
