(* ===== verification/Duration_Reading.thy ===== *)
theory Duration_Reading
  imports Go_Number Sources
begin

text \<open>
  What a duration without fractions denotes, against \<open>time.ParseDuration\<close>: the sum of its
  elements, unless it leaves int64.  The texts are those the patterns of the API admit.
\<close>

definition dec_value :: "string \<Rightarrow> int" where
  "dec_value ds = foldl (\<lambda>x c. x * 10 + digit_val c) 0 ds"

type_synonym duration_part = "string \<times> string"

definition part_ok :: "duration_part \<Rightarrow> bool" where
  "part_ok e \<longleftrightarrow> fst e \<noteq> [] \<and> list_all is_digit (fst e) \<and> snd e \<in> set [''ms'', ''s'', ''m'', ''h'']"

definition unit_nanos :: "string \<Rightarrow> int" where
  "unit_nanos u = (if u = ''ms'' then 1000000 else if u = ''s'' then 1000000000
     else if u = ''m'' then 60000000000 else 3600000000000)"

definition duration_text :: "duration_part list \<Rightarrow> string" where
  "duration_text es = concat (map (\<lambda>(ds, u). ds @ u) es)"

definition duration_sum :: "duration_part list \<Rightarrow> int" where
  "duration_sum es = sum_list (map (\<lambda>(ds, u). dec_value ds * unit_nanos u) es)"

lemma duration_text_simps [simp]:
  "duration_text [] = []" "duration_text (e # es) = fst e @ snd e @ duration_text es"
  by (simp_all add: duration_text_def case_prod_beta)

lemma duration_sum_simps [simp]:
  "duration_sum [] = 0" "duration_sum (e # es) = dec_value (fst e) * unit_nanos (snd e) + duration_sum es"
  by (simp_all add: duration_sum_def case_prod_beta)

lemma digit_val_nonneg: "is_digit c \<Longrightarrow> 0 \<le> digit_val c"
proof -
  assume "is_digit c"
  then have "48 \<le> (of_char c :: nat)" by (simp add: is_digit_def Let_def)
  then have "48 \<le> int (of_char c)" by linarith
  then show ?thesis unfolding digit_val_def of_nat_of_char by linarith
qed

lemma dec_fold_ge: "list_all is_digit ds \<Longrightarrow> 0 \<le> x \<Longrightarrow> x \<le> foldl (\<lambda>x c. x * 10 + digit_val c) x ds"
proof (induction ds arbitrary: x)
  case (Cons c ds)
  then have "0 \<le> digit_val c" by (simp add: digit_val_nonneg)
  then show ?case using Cons.IH [of "x * 10 + digit_val c"] Cons.prems by simp
qed simp

lemma dec_value_nonneg: "list_all is_digit ds \<Longrightarrow> 0 \<le> dec_value ds"
  using dec_fold_ge [of ds 0] by (simp add: dec_value_def)

lemma unit_nanos_pos: "0 < unit_nanos u"
  by (simp add: unit_nanos_def)

lemma duration_sum_nonneg: "list_all part_ok es \<Longrightarrow> 0 \<le> duration_sum es"
  by (induction es) (auto simp: part_ok_def dec_value_nonneg unit_nanos_pos less_imp_le)

lemma leadingInt_digits:
  assumes "list_all is_digit ds" "0 \<le> x" "x \<le> 2 ^ 63" "r = [] \<or> \<not> is_digit (hd r)"
  shows "leadingInt x (ds @ r) =
    (let v = foldl (\<lambda>x c. x * 10 + digit_val c) x ds in if v \<le> 2 ^ 63 then Some (v, r) else None)"
  using assms
proof (induction ds arbitrary: x)
  case Nil
  then show ?case by (cases r) auto
next
  case (Cons c ds)
  let ?y = "x * 10 + digit_val c"
  have y: "0 \<le> digit_val c" "0 \<le> ?y" using Cons.prems digit_val_nonneg by simp_all
  have ge: "?y \<le> foldl (\<lambda>x c. x * 10 + digit_val c) ?y ds" using Cons.prems y by (intro dec_fold_ge) auto
  show ?case
  proof (cases "?y \<le> 2 ^ 63")
    case True
    then have "\<not> 2 ^ 63 div 10 < x" using y by simp
    then show ?thesis using Cons.IH [OF _ y(2) True] Cons.prems True by simp
  next
    case False
    then show ?thesis using ge Cons.prems by (auto simp: Let_def)
  qed
qed

lemma unit_cases:
  assumes "part_ok e"
  obtains "snd e = ''ms''" | "snd e = ''s''" | "snd e = ''m''" | "snd e = ''h''"
  using assms by (auto simp: part_ok_def)

lemma unit_facts:
  assumes "part_ok e"
  shows "duration_unit (snd e) = Some (unit_nanos (snd e))" "list_all unit_byte_go (snd e)" "snd e \<noteq> []"
    "hd (snd e) \<noteq> CHR ''.''" "\<not> is_digit (hd (snd e))"
  using assms
  by (cases rule: unit_cases;
      simp add: duration_unit_def unit_nanos_def unit_byte_go_def is_digit_def)+

definition stops_unit :: "string \<Rightarrow> bool" where
  "stops_unit r \<longleftrightarrow> r = [] \<or> \<not> unit_byte_go (hd r)"

lemma takeWhile_unit:
  assumes "list_all P u" "r = [] \<or> \<not> P (hd r)"
  shows "takeWhile P (u @ r) = u" "dropWhile P (u @ r) = r"
  using assms by (induction u) (cases r; auto)+

lemma div_less_mult: "0 < u \<Longrightarrow> m div u < n \<longleftrightarrow> m < n * u" for m n u :: int
proof -
  assume u: "0 < u"
  have m: "m = (m div u) * u + m mod u" "0 \<le> m mod u" "m mod u < u" using u by simp_all
  show ?thesis
  proof
    assume "m div u < n"
    then have "(m div u + 1) * u \<le> n * u" using u by (intro mult_right_mono) simp_all
    then show "m < n * u" using m unfolding distrib_right by linarith
  next
    assume "m < n * u"
    then have "(m div u) * u < n * u" using m by linarith
    then show "m div u < n" using u by (simp add: mult_less_cancel_right)
  qed
qed

lemma duration_element_part:
  assumes "part_ok e" "stops_unit r"
  shows "duration_element (fst e @ snd e @ r) =
    (let v = dec_value (fst e) * unit_nanos (snd e) in if v \<le> 2 ^ 63 then Some (v, r) else None)"
proof -
  let ?u = "unit_nanos (snd e)" and ?v = "dec_value (fst e)"
  have d: "list_all is_digit (fst e)" "fst e \<noteq> []" using assms(1) by (simp_all add: part_ok_def)
  have s1: "hd (snd e @ r) \<noteq> CHR ''.''" "snd e @ r \<noteq> []" "\<not> is_digit (hd (snd e @ r))"
    using unit_facts(3,4,5) [OF assms(1)] by simp_all
  have lead: "leadingInt 0 (fst e @ snd e @ r) = (if ?v \<le> 2 ^ 63 then Some (?v, snd e @ r) else None)"
    using leadingInt_digits [OF d(1), of 0 "snd e @ r"] s1 by (simp add: dec_value_def Let_def)
  have tw: "takeWhile unit_byte_go (snd e @ r) = snd e" "dropWhile unit_byte_go (snd e @ r) = r"
    using takeWhile_unit [OF unit_facts(2) [OF assms(1)], of r] assms(2) by (simp_all add: stops_unit_def)
  have v: "0 \<le> ?v" "0 < ?u" "1 \<le> ?u" using dec_value_nonneg [OF d(1)] unit_nanos_pos [of "snd e"] by simp_all
  have big: "2 ^ 63 < ?v * ?u" if "2 ^ 63 < ?v"
    using that mult_left_mono [OF v(3) v(1)] by linarith
  have div: "2 ^ 63 div ?u < ?v \<longleftrightarrow> 2 ^ 63 < ?v * ?u"
    using div_less_mult [OF v(2)] .
  have case_dot: "(case snd e @ r of c # cs \<Rightarrow> if c = CHR ''.'' then X cs else Y | [] \<Rightarrow> Z) = Y" for X Y Z
    using s1 by (cases "snd e @ r") auto
  have len: "length (snd e @ r) \<noteq> length (fst e @ snd e @ r)" using d(2) by simp
  have split: "(let (f, k, post, s2) = (0 :: int, 1 :: int, False, snd e @ r) in F f k post s2) = F 0 1 False (snd e @ r)" for F :: "int \<Rightarrow> int \<Rightarrow> bool \<Rightarrow> string \<Rightarrow> 'b"
    by simp
  show ?thesis
  proof (cases "?v \<le> 2 ^ 63")
    case True
    then show ?thesis
      using len unit_facts(1,3) [OF assms(1)] div
      by (simp add: duration_element_def lead case_dot tw Let_def linorder_not_less del: append_eq_conv_conj)
  next
    case False
    then show ?thesis using big by (simp add: duration_element_def lead Let_def)
  qed
qed

lemma duration_text_stops: "list_all part_ok es \<Longrightarrow> stops_unit (duration_text es)"
  by (cases es) (auto simp: stops_unit_def part_ok_def unit_byte_go_def neq_Nil_conv)

lemma duration_loop_parts:
  assumes "list_all part_ok es" "0 \<le> d" "d \<le> 2 ^ 63" "length (duration_text es) \<le> fuel"
  shows "duration_loop fuel d (duration_text es) =
    (let v = d + duration_sum es in if v \<le> 2 ^ 63 then Some v else None)"
  using assms
proof (induction es arbitrary: d fuel)
  case Nil
  then show ?case by (cases fuel) (simp_all add: Let_def)
next
  case (Cons e es)
  let ?t = "fst e @ snd e @ duration_text es" and ?v = "dec_value (fst e) * unit_nanos (snd e)"
  have e: "part_ok e" "list_all part_ok es" using Cons.prems(1) by simp_all
  obtain c cs where c: "?t = c # cs" "is_digit c"
    using e(1) by (cases "fst e") (auto simp: part_ok_def)
  obtain k where k: "fuel = Suc k" using Cons.prems(4) c(1) by (cases fuel) auto
  have len: "length (duration_text es) \<le> k" using Cons.prems(4) k unit_facts(3) [OF e(1)] e(1)
    by (cases "fst e") (auto simp: part_ok_def)
  have v: "0 \<le> ?v" using e(1) dec_value_nonneg unit_nanos_pos by (simp add: part_ok_def less_imp_le)
  have s: "0 \<le> duration_sum es" by (rule duration_sum_nonneg [OF e(2)])
  have el: "duration_element (c # cs) = (if ?v \<le> 2 ^ 63 then Some (?v, duration_text es) else None)"
    using duration_element_part [OF e(1) duration_text_stops [OF e(2)]] by (simp add: c(1) Let_def)
  have "duration_loop fuel d (duration_text (e # es)) = duration_loop (Suc k) d (c # cs)"
    by (simp add: c(1) k)
  also have "\<dots> = (let v = d + duration_sum (e # es) in if v \<le> 2 ^ 63 then Some v else None)"
  proof (cases "d + ?v \<le> 2 ^ 63")
    case True
    then have "?v \<le> 2 ^ 63" using Cons.prems(2) by simp
    then show ?thesis using True c(2) v Cons.prems(2) Cons.IH [OF e(2) _ True len] by (simp add: el add.assoc)
  next
    case False
    then show ?thesis using c(2) v s by (simp add: el Let_def)
  qed
  finally show ?case .
qed

lemma ParseDuration_parts:
  assumes "list_all part_ok es" "es \<noteq> []"
  shows "ParseDuration (duration_text es) = (if duration_sum es < 2 ^ 63 then Some (duration_sum es) else None)"
proof -
  obtain e es' where es: "es = e # es'" using assms(2) by (meson neq_Nil_conv)
  then have e: "part_ok e" using assms(1) by simp
  obtain c cs where c: "duration_text es = c # cs" "is_digit c"
    using e by (cases "fst e") (auto simp: part_ok_def es)
  have "\<not> is_digit CHR ''+''" "\<not> is_digit CHR ''-''" by (simp_all add: is_digit_def)
  with c(2) have sign: "read_sign (duration_text es) = (False, duration_text es)"
    by (auto simp: read_sign_def c(1))
  have "duration_text es \<noteq> ''0''"
  proof
    assume "duration_text es = ''0''"
    then have "length (duration_text es) = 1" by simp
    then have "length (fst e) + length (snd e) \<le> 1" by (simp add: es)
    then show False using e unit_facts(3) [OF e] by (cases "fst e"; cases "snd e") (auto simp: part_ok_def)
  qed
  then show ?thesis
    using sign c(1) duration_loop_parts [OF assms(1), of 0 "length (duration_text es)"]
    by (auto simp: ParseDuration_def Let_def)
qed

text \<open>Such a text is one that the patterns admit.\<close>

lemma part_in_pattern:
  assumes "part_ok e"
  shows "fst e @ snd e \<in> rx_lang (RSeq (RPlus (RCls is_digit))
           (RSeq (ROpt (RSeq (RLit ''.'') (RPlus (RCls is_digit))))
                 (RAlt (RLit ''ms'') (RAlt (RLit ''s'') (RAlt (RLit ''m'') (RLit ''h''))))))"
proof -
  have f: "fst e \<in> rx_lang (RPlus (RCls is_digit))"
    using assms by (simp add: rx_lang_plus_class part_ok_def list_all_iff)
  have s: "snd e \<in> rx_lang (RSeq (ROpt (RSeq (RLit ''.'') (RPlus (RCls is_digit))))
                 (RAlt (RLit ''ms'') (RAlt (RLit ''s'') (RAlt (RLit ''m'') (RLit ''h'')))))"
    using assms by (cases rule: unit_cases) (auto simp: ROpt_def)
  show ?thesis using f s by (subst rx_lang.simps) blast
qed

lemma star_concat: "list_all (\<lambda>w. w \<in> A) ws \<Longrightarrow> concat ws \<in> star_lang A"
  by (induction ws) (auto intro: star_lang.intros)

lemma duration_text_admitted:
  assumes "list_all part_ok es" "es \<noteq> []"
  shows "rx_match windowPattern (duration_text es)"
proof -
  let ?A = "RSeq (RPlus (RCls is_digit))
           (RSeq (ROpt (RSeq (RLit ''.'') (RPlus (RCls is_digit))))
                 (RAlt (RLit ''ms'') (RAlt (RLit ''s'') (RAlt (RLit ''m'') (RLit ''h'')))))"
  obtain e es' where es: "es = e # es'" using assms(2) by (meson neq_Nil_conv)
  have "concat (map (\<lambda>(ds, u). ds @ u) es') \<in> star_lang (rx_lang ?A)"
    using assms(1) part_in_pattern
    by (intro star_concat) (auto simp: list_all_iff es case_prod_beta simp del: rx_lang.simps)
  then have "duration_text es' \<in> rx_lang (RStar ?A)" by (simp only: duration_text_def rx_lang.simps)
  moreover have "fst e @ snd e \<in> rx_lang ?A" using assms(1) part_in_pattern es by simp
  ultimately have "(fst e @ snd e) @ duration_text es' \<in> rx_lang (RSeq ?A (RStar ?A))"
    by (subst rx_lang.simps) blast
  then show ?thesis by (simp add: rx_match_iff_lang windowPattern_def RPlus_def es)
qed

end
