(* ===== verification/Admission_Properties.thy ===== *)
theory Admission_Properties
  imports Api_Admission Duration_Reading Pass_Facts Example_Cluster
begin

text \<open>
  Properties of admitted workloads: what the validation of the API guarantees to the
  resolution of the source, to the bounds of every reservation and to the poll clock.
\<close>

section \<open>A manifest\<close>

definition example_manifest :: "rat spec_manifest" where
  "example_manifest =
     \<lparr>specm_Node = ''node-a'',
      specm_Source = \<lparr>srcm_Type = ''promql'', srcm_Docker = None,
        srcm_PromQL = Some \<lparr>pq_CPUCores = ''cpu'', pq_MemoryBytes = ''mem''\<rparr>,
        srcm_Cgroup = None, srcm_Systemd = None\<rparr>,
      specm_Metrics = \<lparr>mc_PrometheusURL = ''http://p'', mc_Window = ''5m''\<rparr>,
      specm_Update = \<lparr>upm_DeltaThresholdPercent = None, upm_PollInterval = None,
        upm_Floor = \<lparr>rpm_CPU = None, rpm_Memory = Some 1024\<rparr>,
        upm_Ceiling = \<lparr>rpm_CPU = Some 2, rpm_Memory = Some 8192\<rparr>\<rparr>\<rparr>"

definition example_parse_qty :: "string \<Rightarrow> rat" where
  "example_parse_qty s = (if s = ''10m'' then 1 / 100 else 33554432)"

lemma example_windows: "rx_match windowPattern ''5m''" "rx_match windowPattern ''30s''"
  using duration_text_admitted [of "[(''5'', ''m'')]"] duration_text_admitted [of "[(''30'', ''s'')]"]
  by (simp_all add: part_ok_def is_digit_def)

lemma example_admitted: "admit_spec rat_lib example_parse_qty example_manifest = Some example_spec"
proof -
  have url: "rx_match urlPattern ''http://p''" by (simp add: urlPattern_def ROpt_def RPlus_def)
  have s: "default_spec example_parse_qty example_manifest = example_spec"
    by (simp add: default_spec_def default_source_def default_update_def default_pair_def default_delta_def
        or_default_def example_manifest_def example_parse_qty_def example_spec_def DefaultDeltaThresholdPercent_def
        DefaultPollInterval_def SourceTypePromQL_def)
  have "default_delta (specm_Update example_manifest) = 10"
    by (simp add: default_delta_def or_default_def example_manifest_def DefaultDeltaThresholdPercent_def)
  then show ?thesis
    using url example_windows
    by (simp add: admit_spec_def s) (simp add: example_spec_def node_valid_def char_count_def source_valid_def
        source_types_def promql_valid_def one_source_block_def block_matches_type_def metrics_valid_def
        update_valid_def bounds_valid_def rat_lib_def sgn_cmp_def source_type_defs)
qed

section \<open>Resolution\<close>

lemma admitted_Resolve:
  assumes "admit_spec L parse m = Some spec"
  shows "is_ok (Resolve spec) \<longleftrightarrow>
    (case src_Cgroup (spec_Source spec) of
       None \<Rightarrow> True | Some cg \<Rightarrow> \<not> contains_pair (cg_Path cg) (CHR ''/'') (CHR ''/''))"
proof -
  have w: "rx_match windowPattern (mc_Window (spec_Metrics spec))"
    using admittedD(3) [OF assms] by (simp add: metrics_valid_def)
  show ?thesis
    using admittedD(2) [OF assms]
    by (cases rule: source_valid_cases)
      (use w in \<open>auto simp: Resolve_def source_type_defs resolveDocker_def resolveCgroup_def resolveSystemd_def
         resolveHostCgroup_def docker_valid_def cgroup_valid_def systemd_valid_def Let_def\<close>)
qed

text \<open>C18: an admitted spec always resolves to its queries, with one exception: a cgroup
  path with an empty segment, which the pattern of the API admits.\<close>

theorem admitted_spec_resolves:
  assumes "admit_spec L parse m = Some spec"
  shows "is_ok (Resolve spec) \<longleftrightarrow>
    (case src_Cgroup (spec_Source spec) of
       None \<Rightarrow> True | Some cg \<Rightarrow> \<not> contains_pair (cg_Path cg) (CHR ''/'') (CHR ''/''))"
  by (rule admitted_Resolve [OF assms])

theorem admitted_spec_resolves_witness:
  "admit_spec rat_lib example_parse_qty example_manifest = Some example_spec \<and> is_ok (Resolve example_spec)"
  using admitted_spec_resolves [OF example_admitted] example_admitted by (simp add: example_spec_def)

section \<open>Bounds of every reservation\<close>

text \<open>Every container asks for, and is limited to, one pair between floor and ceiling.\<close>

definition reserves_within :: "('q \<Rightarrow> rat) \<Rightarrow> 'q UpdatePolicy \<Rightarrow> 'q pod \<Rightarrow> bool" where
  "reserves_within val u pod \<longleftrightarrow>
     (\<forall>c \<in> set (pod_Containers pod). \<exists>d. ct_Requests c = resource_list d \<and> ct_Limits c = resource_list d \<and>
        0 \<le> val (rp_CPU d) \<and> val (rp_CPU (up_Floor u)) \<le> val (rp_CPU d) \<and> val (rp_CPU d) \<le> val (rp_CPU (up_Ceiling u)) \<and>
        0 \<le> val (rp_Memory d) \<and> val (rp_Memory (up_Floor u)) \<le> val (rp_Memory d) \<and>
        val (rp_Memory d) \<le> val (rp_Memory (up_Ceiling u)))"

lemma clamped_within:
  assumes "quantity_laws L val" "bounds_valid L u" "D = Clamp L pr (up_Floor u) (up_Ceiling u)"
  shows "0 \<le> val (rp_CPU D)" "val (rp_CPU (up_Floor u)) \<le> val (rp_CPU D)" "val (rp_CPU D) \<le> val (rp_CPU (up_Ceiling u))"
    "0 \<le> val (rp_Memory D)" "val (rp_Memory (up_Floor u)) \<le> val (rp_Memory D)"
    "val (rp_Memory D) \<le> val (rp_Memory (up_Ceiling u))"
  using assms(2) by (auto simp: assms(3) Clamp_def val_clampQuantity [OF assms(1)] bounds_valid_iff [OF assms(1)])

lemma desired_within:
  assumes "quantity_laws L val" "bounds_valid L (spec_Update (sw_Spec sw))"
    "\<And>c. c \<in> set (pod_Containers pod) \<Longrightarrow>
       ct_Requests c = resource_list (desired_of L sw t) \<and> ct_Limits c = resource_list (desired_of L sw t)"
  shows "reserves_within val (spec_Update (sw_Spec sw)) pod"
  using assms(3) clamped_within [OF assms(1,2) desired_of_def [of L sw t]] unfolding reserves_within_def by blast

text \<open>C9: whatever the cluster and the metrics backend answer, every pod that a pass over an
  admitted workload creates, and every pod it resizes, requests and limits a non-negative pair
  between the floor and the ceiling of the policy.\<close>

theorem admitted_reservations_stay_in_range:
  assumes "Reconcile L V E ns n rc w = (res, rc', t, w')" "api_GetShadowWorkload E ns n w = (Inr sw, w0)"
    and "admit_spec L parse m = Some (sw_Spec sw)" "quantity_laws L val" "owner_laws L"
  shows "(\<forall>pod a. CCreatePod pod a \<in> set t \<longrightarrow> reserves_within val (spec_Update (sw_Spec sw)) pod) \<and>
    (\<forall>base new a. CPatchResize base new a \<in> set t \<longrightarrow> reserves_within val (spec_Update (sw_Spec sw)) new)"
proof -
  note within = desired_within [OF assms(4) admittedD(4) [OF assms(3)]]
  note call = Reconcile_member [OF assms(1,2)]
  have "reserves_within val (spec_Update (sw_Spec sw)) pod" if c: "CCreatePod pod a \<in> set t" for pod a
  proof -
    obtain u sw' where "BuildPhantomPod L sw' (desired_of L sw u) = Inr pod" using call [OF c] by auto
    from BuildPhantomPod_pod(5) [OF this assms(5)] show ?thesis
      by (intro within [of pod u]) (simp add: phantom_container_def)
  qed
  moreover have "reserves_within val (spec_Update (sw_Spec sw)) new" if c: "CPatchResize base new a \<in> set t" for base new a
  proof -
    obtain u where "new = resized_pod base (desired_of L sw u)" using call [OF c] by auto
    then show ?thesis by (intro within [of new u]) (auto simp: resized_pod_def Let_def)
  qed
  ultimately show ?thesis by blast
qed

theorem admitted_reservations_stay_in_range_witness:
  "reserves_within id (spec_Update example_spec) (example_fresh \<lparr>rp_CPU = 1, rp_Memory = 5000\<rparr>)"
proof -
  obtain s m where r: "Reconcile rat_lib map_vec_lib (create_cluster example_pair) ''ns'' ''db'' None () =
     (Inr 30000000000, None,
      [CPatchStatus example_sw s None, CEvent EventTypeNormal reasonPhantomCreated m] @
      CCreatePod (example_fresh \<lparr>rp_CPU = 1, rp_Memory = 5000\<rparr>)
         (Inr (example_fresh \<lparr>rp_CPU = 1, rp_Memory = 5000\<rparr>)) #
      example_earlier (Inl NotFound) example_pair, ())"
    using create_run by blast
  have "api_GetShadowWorkload (create_cluster example_pair) ''ns'' ''db'' () = (Inr example_sw, ())"
    by (simp add: create_cluster_def)
  from admitted_reservations_stay_in_range [OF r this _ rat_lib_quantity_laws rat_lib_owner_laws,
      of example_parse_qty example_manifest]
  show ?thesis using example_admitted by auto
qed

section \<open>The poll clock\<close>

text \<open>C40: an interval written as digits with units, which the pattern of the API admits, is
  the sum of its parts in nanoseconds; zero and what does not fit int64 count as 30 seconds.\<close>

theorem poll_interval_is_the_written_sum:
  assumes "list_all part_ok es" "es \<noteq> []" "up_PollInterval (spec_Update (sw_Spec sw)) = duration_text es"
  shows "rx_match windowPattern (duration_text es) \<and>
    pollInterval sw = (if 0 < duration_sum es \<and> duration_sum es < 2 ^ 63 then duration_sum es else 30000000000)"
  using duration_text_admitted [OF assms(1,2)] ParseDuration_parts [OF assms(1,2)] assms(3)
  by (auto simp: pollInterval_def defaultPollInterval_def)

theorem poll_interval_is_the_written_sum_witness:
  "pollInterval (example_sw\<lparr>sw_Spec := example_spec\<lparr>spec_Update :=
     (spec_Update example_spec)\<lparr>up_PollInterval := ''1m30s''\<rparr>\<rparr>\<rparr>) = 90000000000"
  using poll_interval_is_the_written_sum [of "[(''1'', ''m''), (''30'', ''s'')]" "example_sw\<lparr>sw_Spec := example_spec\<lparr>spec_Update :=
     (spec_Update example_spec)\<lparr>up_PollInterval := ''1m30s''\<rparr>\<rparr>\<rparr>"]
  by (simp add: part_ok_def is_digit_def dec_value_def digit_val_def unit_nanos_def)

end
