(* ===== verification/Api_Server.thy ===== *)
theory Api_Server
  imports Pass_Facts
begin

text \<open>
  What is documented of the API server, in terms of a view of the world: the stored pods and
  workloads.  Reads change nothing, and the uncached reader returns what is stored; of the cached
  client nothing is said here, since its cache lags behind the store.  A creation is refused when the
  name is taken, a deletion needs the uid it names, a resize replaces the version it was computed
  from.  These are laws of a parameter of the model: a server that is reachable and accepts what is
  admissible.
\<close>

text \<open>
  What the passes rely on of the owner-reference helpers, beside \<open>owner_laws\<close>: only the
  references decide who controls a pod, and a pod without references can be bound.
\<close>

definition binding_laws :: "'q lib \<Rightarrow> bool" where
  "binding_laws L \<longleftrightarrow>
     (\<forall>p p'. pod_OwnerReferences p = pod_OwnerReferences p' \<longrightarrow> k_GetControllerOf L p = k_GetControllerOf L p') \<and>
     (\<forall>sw p. pod_OwnerReferences p = [] \<longrightarrow> is_ok (k_SetControllerReference L sw p))"

lemma controller_refs:
  "binding_laws L \<Longrightarrow> pod_OwnerReferences p = pod_OwnerReferences p' \<Longrightarrow> k_GetControllerOf L p = k_GetControllerOf L p'"
  unfolding binding_laws_def by blast

lemma controller_kept:
  "binding_laws L \<Longrightarrow> k_GetControllerOf L (p\<lparr>pod_UID := u, pod_ResourceVersion := v\<rparr>) = k_GetControllerOf L p"
  "binding_laws L \<Longrightarrow> k_GetControllerOf L ((resized_pod p D)\<lparr>pod_ResourceVersion := v\<rparr>) = k_GetControllerOf L p"
  "binding_laws L \<Longrightarrow> k_GetControllerOf L (p\<lparr>pod_Containers := cs, pod_ResourceVersion := v\<rparr>) = k_GetControllerOf L p"
  by (erule controller_refs, simp add: resized_pod_def Let_def)+

section \<open>Views\<close>

definition phantom_key :: "'q ShadowWorkload \<Rightarrow> string \<times> string" where
  "phantom_key sw = (sw_Namespace sw, PhantomName (sw_Name sw))"

record 'q view =
  vw_pods :: "string \<times> string \<rightharpoonup> 'q pod"
  vw_workloads :: "string \<times> string \<rightharpoonup> 'q ShadowWorkload"

definition found :: "'a option \<Rightarrow> api_error + 'a" where
  "found x = (case x of None \<Rightarrow> Inl NotFound | Some a \<Rightarrow> Inr a)"

definition managed_pod :: "'q pod \<Rightarrow> bool" where
  "managed_pod p \<longleftrightarrow> pod_Labels p LabelManagedBy = Some ManagedByValue"

text \<open>What the cached client shows once its cache, which selects on the label, has caught up.\<close>

definition visible :: "'q pod option \<Rightarrow> 'q pod option" where
  "visible x = (case x of None \<Rightarrow> None | Some p \<Rightarrow> if managed_pod p then Some p else None)"

definition read_laws :: "('q, 'w) cluster \<Rightarrow> ('w \<Rightarrow> 'q view) \<Rightarrow> bool" where
  "read_laws E view \<longleftrightarrow>
     has_APIReader E \<and>
     (\<forall>ns n w. view (snd (api_GetShadowWorkload E ns n w)) = view w) \<and>
     (\<forall>rd n w. view (snd (api_GetNode E rd n w)) = view w) \<and>
     (\<forall>rd n w. view (snd (api_GetPriorityClass E rd n w)) = view w) \<and>
     (\<forall>ns n w. fst (api_GetPod E Uncached ns n w) = found (vw_pods (view w) (ns, n))) \<and>
     (\<forall>rd ns n w. view (snd (api_GetPod E rd ns n w)) = view w) \<and>
     (\<forall>ty r m w. view (api_Event E ty r m w) = view w) \<and>
     (\<forall>w. view (snd (time_Now E w)) = view w)"

definition put_pod :: "'q pod \<Rightarrow> 'q view \<Rightarrow> 'q view" where
  "put_pod p v = v\<lparr>vw_pods := (vw_pods v)((pod_Namespace p, pod_Name p) \<mapsto> p)\<rparr>"

definition drop_pod :: "'q pod \<Rightarrow> 'q view \<Rightarrow> 'q view" where
  "drop_pod p v = v\<lparr>vw_pods := (vw_pods v)((pod_Namespace p, pod_Name p) := None)\<rparr>"

definition put_status :: "'q ShadowWorkload \<Rightarrow> 'q ShadowWorkloadStatus \<Rightarrow> 'q view \<Rightarrow> 'q view" where
  "put_status b st v =
     v\<lparr>vw_workloads := (vw_workloads v)((sw_Namespace b, sw_Name b) \<mapsto> b\<lparr>sw_Status := st\<rparr>)\<rparr>"

text \<open>A resize sends the pod with other containers, and nothing else changed.\<close>

definition resizes :: "'q pod \<Rightarrow> 'q pod \<Rightarrow> bool" where
  "resizes b p \<longleftrightarrow> p = b\<lparr>pod_Containers := pod_Containers p\<rparr>"

lemma resizes_resized: "resizes b (resized_pod b D)"
  by (simp add: resizes_def resized_pod_def Let_def)

definition write_laws :: "('q, 'w) cluster \<Rightarrow> ('w \<Rightarrow> 'q view) \<Rightarrow> bool" where
  "write_laws E view \<longleftrightarrow>
     (\<forall>p w. (case vw_pods (view w) (pod_Namespace p, pod_Name p) of
               Some _ \<Rightarrow> fst (api_CreatePod E p w) = Inl AlreadyExists \<and> view (snd (api_CreatePod E p w)) = view w
             | None \<Rightarrow> (\<exists>u v. let q = p\<lparr>pod_UID := u, pod_ResourceVersion := v\<rparr> in
                 fst (api_CreatePod E p w) = Inr q \<and> view (snd (api_CreatePod E p w)) = put_pod q (view w)))) \<and>
     (\<forall>p opts w. vw_pods (view w) (pod_Namespace p, pod_Name p) = Some p \<and> do_UID opts = pod_UID p \<longrightarrow>
        fst (api_DeletePod E p opts w) = None \<and> view (snd (api_DeletePod E p opts w)) = drop_pod p (view w)) \<and>
     (\<forall>b p w. vw_pods (view w) (pod_Namespace b, pod_Name b) = Some b \<and> resizes b p \<longrightarrow>
        (\<exists>v. let q = p\<lparr>pod_ResourceVersion := v\<rparr> in
           fst (api_PatchResize E b p w) = Inr q \<and> view (snd (api_PatchResize E b p w)) = put_pod q (view w))) \<and>
     (\<forall>b s x w. vw_workloads (view w) (sw_Namespace b, sw_Name b) = Some x \<longrightarrow>
        fst (api_PatchStatus E b s w) = None \<and>
        (\<exists>st. view (snd (api_PatchStatus E b s w)) = put_status x st (view w) \<and> (x = b \<longrightarrow> st = sw_Status s)))"

lemma read_lawsD:
  assumes "read_laws E view"
  shows "has_APIReader E"
    "view (snd (api_GetShadowWorkload E ns n w)) = view w"
    "view (snd (api_GetNode E rd n w)) = view w" "view (snd (api_GetPriorityClass E rd n w)) = view w"
    "fst (api_GetPod E Uncached ns n w) = found (vw_pods (view w) (ns, n))"
    "view (snd (api_GetPod E rd ns n w)) = view w"
    "view (api_Event E ty r m w) = view w" "view (snd (time_Now E w)) = view w"
  using assms by (simp_all add: read_laws_def del: split_paired_All)

lemma create_accepted:
  assumes "write_laws E view" "vw_pods (view w) (pod_Namespace p, pod_Name p) = None"
  obtains u v where "fst (api_CreatePod E p w) = Inr (p\<lparr>pod_UID := u, pod_ResourceVersion := v\<rparr>)"
    "view (snd (api_CreatePod E p w)) = put_pod (p\<lparr>pod_UID := u, pod_ResourceVersion := v\<rparr>) (view w)"
proof -
  have "(case vw_pods (view w) (pod_Namespace p, pod_Name p) of
               Some _ \<Rightarrow> fst (api_CreatePod E p w) = Inl AlreadyExists \<and> view (snd (api_CreatePod E p w)) = view w
             | None \<Rightarrow> (\<exists>u v. let q = p\<lparr>pod_UID := u, pod_ResourceVersion := v\<rparr> in
                 fst (api_CreatePod E p w) = Inr q \<and> view (snd (api_CreatePod E p w)) = put_pod q (view w)))"
    using assms(1) unfolding write_laws_def by blast
  then show thesis using that assms(2) by (auto simp: Let_def)
qed

lemma create_refused:
  assumes "write_laws E view" "vw_pods (view w) (pod_Namespace p, pod_Name p) = Some x"
  shows "fst (api_CreatePod E p w) = Inl AlreadyExists" "view (snd (api_CreatePod E p w)) = view w"
proof -
  have "(case vw_pods (view w) (pod_Namespace p, pod_Name p) of
               Some _ \<Rightarrow> fst (api_CreatePod E p w) = Inl AlreadyExists \<and> view (snd (api_CreatePod E p w)) = view w
             | None \<Rightarrow> (\<exists>u v. let q = p\<lparr>pod_UID := u, pod_ResourceVersion := v\<rparr> in
                 fst (api_CreatePod E p w) = Inr q \<and> view (snd (api_CreatePod E p w)) = put_pod q (view w)))"
    using assms(1) unfolding write_laws_def by blast
  then show "fst (api_CreatePod E p w) = Inl AlreadyExists" "view (snd (api_CreatePod E p w)) = view w"
    using assms(2) by simp_all
qed

lemma delete_accepted:
  assumes "write_laws E view" "vw_pods (view w) (pod_Namespace p, pod_Name p) = Some p" "do_UID opts = pod_UID p"
  shows "fst (api_DeletePod E p opts w) = None" "view (snd (api_DeletePod E p opts w)) = drop_pod p (view w)"
  using assms unfolding write_laws_def by blast+

lemma resize_accepted:
  assumes "write_laws E view" "vw_pods (view w) (pod_Namespace b, pod_Name b) = Some b" "resizes b p"
  obtains v where "fst (api_PatchResize E b p w) = Inr (p\<lparr>pod_ResourceVersion := v\<rparr>)"
    "view (snd (api_PatchResize E b p w)) = put_pod (p\<lparr>pod_ResourceVersion := v\<rparr>) (view w)"
  using assms unfolding write_laws_def Let_def by blast

text \<open>A status patch computed from an older read is accepted too; what it leaves is not said.\<close>

lemma status_accepted:
  assumes "write_laws E view" "vw_workloads (view w) (sw_Namespace b, sw_Name b) = Some x"
  obtains st where "fst (api_PatchStatus E b s w) = None"
    "view (snd (api_PatchStatus E b s w)) = put_status x st (view w)" "x = b \<Longrightarrow> st = sw_Status s"
  using assms unfolding write_laws_def by blast

end
