(* ===== verification/Workload_Isolation.thy ===== *)
theory Workload_Isolation
  imports Api_Server Pass_Invariant
begin

text \<open>
  Several workloads over one store.  A pass over one of them, whatever the cluster answers it,
  leaves the workloads and the phantoms of the others as they are.  The cached reads may be
  stale: what protects the store is that a deletion names the uid it is for, that a resize
  carries the version it was computed from, and that a name is taken only once.
\<close>

section \<open>What requests may change\<close>

text \<open>
  The documented effect of each request on the store, whether it is answered with an error or
  not: reads change nothing and may lag behind, but a pod that is read with the uid and the resource
  version of the stored one is the stored one; every write changes at most the object it names, and only as far as the
  preconditions it carries hold.
\<close>

definition read_frame :: "('q, 'w) cluster \<Rightarrow> ('w \<Rightarrow> 'q view) \<Rightarrow> bool" where
  "read_frame E view \<longleftrightarrow>
     (\<forall>ns n w. view (snd (api_GetShadowWorkload E ns n w)) = view w) \<and>
     (\<forall>rd n w. view (snd (api_GetNode E rd n w)) = view w) \<and>
     (\<forall>rd n w. view (snd (api_GetPriorityClass E rd n w)) = view w) \<and>
     (\<forall>rd ns n w. view (snd (api_GetPod E rd ns n w)) = view w) \<and>
     (\<forall>ty r m w. view (api_Event E ty r m w) = view w) \<and> (\<forall>w. view (snd (time_Now E w)) = view w) \<and>
     (\<forall>url k q w. QuerierFor E url = Inr k \<longrightarrow> view (snd (k q w)) = view w)"

definition same_version :: "'q pod \<Rightarrow> 'q pod option \<Rightarrow> bool" where
  "same_version p x \<longleftrightarrow>
     (\<forall>y. x = Some y \<and> pod_UID y = pod_UID p \<and> pod_ResourceVersion y = pod_ResourceVersion p \<longrightarrow> y = p)"

definition answer_frame :: "('q, 'w) cluster \<Rightarrow> ('w \<Rightarrow> 'q view) \<Rightarrow> bool" where
  "answer_frame E view \<longleftrightarrow>
     (\<forall>ns n w sw. fst (api_GetShadowWorkload E ns n w) = Inr sw \<longrightarrow> (sw_Namespace sw, sw_Name sw) = (ns, n)) \<and>
     (\<forall>rd ns n w p. fst (api_GetPod E rd ns n w) = Inr p \<longrightarrow> (pod_Namespace p, pod_Name p) = (ns, n) \<and>
        same_version p (vw_pods (view w) (ns, n)))"

definition create_frame :: "('q, 'w) cluster \<Rightarrow> ('w \<Rightarrow> 'q view) \<Rightarrow> bool" where
  "create_frame E view \<longleftrightarrow>
     (\<forall>p w. view (snd (api_CreatePod E p w)) = view w \<or>
        vw_pods (view w) (pod_Namespace p, pod_Name p) = None \<and>
        (\<exists>u v. view (snd (api_CreatePod E p w)) = put_pod (p\<lparr>pod_UID := u, pod_ResourceVersion := v\<rparr>) (view w)))"

definition delete_frame :: "('q, 'w) cluster \<Rightarrow> ('w \<Rightarrow> 'q view) \<Rightarrow> bool" where
  "delete_frame E view \<longleftrightarrow>
     (\<forall>p opts w. view (snd (api_DeletePod E p opts w)) = view w \<or>
        (\<exists>x. vw_pods (view w) (pod_Namespace p, pod_Name p) = Some x \<and> pod_UID x = do_UID opts \<and>
           view (snd (api_DeletePod E p opts w)) = drop_pod p (view w)))"

definition resize_frame :: "('q, 'w) cluster \<Rightarrow> ('w \<Rightarrow> 'q view) \<Rightarrow> bool" where
  "resize_frame E view \<longleftrightarrow>
     (\<forall>b p w. resizes b p \<longrightarrow> view (snd (api_PatchResize E b p w)) = view w \<or>
        (\<exists>x v. vw_pods (view w) (pod_Namespace b, pod_Name b) = Some x \<and>
           pod_UID x = pod_UID b \<and> pod_ResourceVersion x = pod_ResourceVersion b \<and>
           view (snd (api_PatchResize E b p w)) =
             (view w)\<lparr>vw_pods := (vw_pods (view w))((pod_Namespace b, pod_Name b) \<mapsto>
                x\<lparr>pod_Containers := pod_Containers p, pod_ResourceVersion := v\<rparr>)\<rparr>))"

definition status_frame :: "('q, 'w) cluster \<Rightarrow> ('w \<Rightarrow> 'q view) \<Rightarrow> bool" where
  "status_frame E view \<longleftrightarrow>
     (\<forall>b s w. view (snd (api_PatchStatus E b s w)) = view w \<or>
        (\<exists>x st. vw_workloads (view w) (sw_Namespace b, sw_Name b) = Some x \<and>
           view (snd (api_PatchStatus E b s w)) =
             (view w)\<lparr>vw_workloads := (vw_workloads (view w))((sw_Namespace b, sw_Name b) \<mapsto> x\<lparr>sw_Status := st\<rparr>)\<rparr>))"

definition frame_laws :: "('q, 'w) cluster \<Rightarrow> ('w \<Rightarrow> 'q view) \<Rightarrow> bool" where
  "frame_laws E view \<longleftrightarrow>
     read_frame E view \<and> answer_frame E view \<and> create_frame E view \<and> delete_frame E view \<and>
     resize_frame E view \<and> status_frame E view"

lemma frame_reads:
  assumes "frame_laws E view"
  shows "view (snd (api_GetShadowWorkload E ns n w)) = view w"
    "view (snd (api_GetNode E rd n w)) = view w" "view (snd (api_GetPriorityClass E rd n w)) = view w"
    "view (snd (api_GetPod E rd ns n w)) = view w"
    "view (api_Event E ty r m w) = view w" "view (snd (time_Now E w)) = view w"
    "QuerierFor E url = Inr k \<Longrightarrow> view (snd (k q w)) = view w"
  using assms by (simp_all add: frame_laws_def read_frame_def del: split_paired_All)

lemma frame_answers:
  assumes "frame_laws E view"
  shows "fst (api_GetShadowWorkload E ns n w) = Inr sw \<Longrightarrow> (sw_Namespace sw, sw_Name sw) = (ns, n)"
    "fst (api_GetPod E rd ns n w) = Inr p \<Longrightarrow> (pod_Namespace p, pod_Name p) = (ns, n)"
    "fst (api_GetPod E rd ns n w) = Inr p \<Longrightarrow> same_version p (vw_pods (view w) (ns, n))"
  using assms unfolding frame_laws_def answer_frame_def by blast+

lemma frame_create:
  assumes "frame_laws E view"
  obtains (refused) "view (snd (api_CreatePod E p w)) = view w"
  | (stored) u v where "vw_pods (view w) (pod_Namespace p, pod_Name p) = None"
      "view (snd (api_CreatePod E p w)) = put_pod (p\<lparr>pod_UID := u, pod_ResourceVersion := v\<rparr>) (view w)"
  using assms unfolding frame_laws_def create_frame_def by blast

lemma frame_delete:
  assumes "frame_laws E view"
  obtains (refused) "view (snd (api_DeletePod E p opts w)) = view w"
  | (dropped) x where "vw_pods (view w) (pod_Namespace p, pod_Name p) = Some x" "pod_UID x = do_UID opts"
      "view (snd (api_DeletePod E p opts w)) = drop_pod p (view w)"
  using assms unfolding frame_laws_def delete_frame_def by blast

lemma frame_resize:
  assumes "frame_laws E view" "resizes b p"
  obtains (refused) "view (snd (api_PatchResize E b p w)) = view w"
  | (stored) x v where "vw_pods (view w) (pod_Namespace b, pod_Name b) = Some x" "pod_UID x = pod_UID b"
      "pod_ResourceVersion x = pod_ResourceVersion b"
      "view (snd (api_PatchResize E b p w)) =
         (view w)\<lparr>vw_pods := (vw_pods (view w))((pod_Namespace b, pod_Name b) \<mapsto>
            x\<lparr>pod_Containers := pod_Containers p, pod_ResourceVersion := v\<rparr>)\<rparr>"
  using assms unfolding frame_laws_def resize_frame_def by blast

lemma frame_status:
  assumes "frame_laws E view"
  obtains (refused) "view (snd (api_PatchStatus E b s w)) = view w"
  | (stored) x st where "vw_workloads (view w) (sw_Namespace b, sw_Name b) = Some x"
      "view (snd (api_PatchStatus E b s w)) =
         (view w)\<lparr>vw_workloads := (vw_workloads (view w))((sw_Namespace b, sw_Name b) \<mapsto> x\<lparr>sw_Status := st\<rparr>)\<rparr>"
  using assms unfolding frame_laws_def status_frame_def by blast

section \<open>What a pass changes\<close>

text \<open>A pod with the uid of one that was read under the phantom's key, and was the workload's when read.\<close>

definition shown_own :: "'q lib \<Rightarrow> 'q ShadowWorkload \<Rightarrow> 'q api_call list \<Rightarrow> 'q pod \<Rightarrow> bool" where
  "shown_own L sw t p \<longleftrightarrow>
     (\<exists>rd x. CGetPod rd (sw_Namespace sw) (PhantomName (sw_Name sw)) (Inr x) \<in> set t \<and> ownedBySw L x sw \<and> pod_UID x = pod_UID p)"

definition shaped :: "string \<times> string \<Rightarrow> 'q pod \<Rightarrow> bool" where
  "shaped k p \<longleftrightarrow> pod_Containers p \<noteq> [] \<and> (pod_Namespace p, pod_Name p) = k"

definition own_pod :: "'q lib \<Rightarrow> 'q ShadowWorkload \<Rightarrow> 'q pod \<Rightarrow> bool" where
  "own_pod L sw p \<longleftrightarrow> ownedBySw L p sw \<and> shaped (phantom_key sw) p"

text \<open>
  Between two views, after the requests \<open>t\<close>: at most the status of the workload, and the pod under its
  phantom's key.  What is replaced there has been shown as the workload's, and what is put there is
  the workload's; a pod that is the workload's, with its name and with containers, stays so.
\<close>

definition touched :: "'q lib \<Rightarrow> 'q ShadowWorkload \<Rightarrow> 'q api_call list \<Rightarrow> 'q view \<Rightarrow> 'q view \<Rightarrow> bool" where
  "touched L sw t v v' \<longleftrightarrow>
     (\<forall>k. k \<noteq> (sw_Namespace sw, sw_Name sw) \<longrightarrow> vw_workloads v' k = vw_workloads v k) \<and>
     rel_option same_object (vw_workloads v (sw_Namespace sw, sw_Name sw)) (vw_workloads v' (sw_Namespace sw, sw_Name sw)) \<and>
     (\<forall>k. k \<noteq> phantom_key sw \<longrightarrow> vw_pods v' k = vw_pods v k) \<and>
     (pred_option (own_pod L sw) (vw_pods v (phantom_key sw)) \<longrightarrow> pred_option (own_pod L sw) (vw_pods v' (phantom_key sw))) \<and>
     (vw_pods v' (phantom_key sw) = vw_pods v (phantom_key sw) \<or>
      pred_option (shown_own L sw t) (vw_pods v (phantom_key sw)) \<and>
      pred_option (\<lambda>p. ownedBySw L p sw) (vw_pods v' (phantom_key sw)))"

lemma touched_refl [simp]: "touched L sw t v v"
  by (simp add: touched_def option.rel_refl)

lemma same_object_compose: "same_object a b \<Longrightarrow> same_object b c \<Longrightarrow> same_object a c"
  by (cases a; cases b; cases c) (auto simp: same_object_def)

lemma shown_ownI:
  "CGetPod rd (sw_Namespace sw) (PhantomName (sw_Name sw)) (Inr x) \<in> set t \<Longrightarrow> ownedBySw L x sw \<Longrightarrow> shown_own L sw t x"
  unfolding shown_own_def by blast

lemma shown_own_mono: "set t \<subseteq> set t' \<Longrightarrow> shown_own L sw t p \<Longrightarrow> shown_own L sw t' p"
  unfolding shown_own_def by blast

lemma touched_mono:
  assumes "touched L sw t v v'" "set t \<subseteq> set t'"
  shows "touched L sw t' v v'"
  using assms(1) shown_own_mono [OF assms(2), of L sw]
  unfolding touched_def by (auto elim: option.pred_mono_strong)

lemma touched_trans: "touched L sw t u v \<Longrightarrow> touched L sw t v v' \<Longrightarrow> touched L sw t u v'"
  unfolding touched_def
  by (auto elim!: option.rel_cases intro: same_object_compose)

lemma shown_own_same: "same_object sw sw' \<Longrightarrow> shown_own L sw' t p = shown_own L sw t p"
  by (simp add: shown_own_def same_objectD ownedBySw_same)

lemma own_pod_same: "same_object sw sw' \<Longrightarrow> own_pod L sw' p = own_pod L sw p"
  by (simp add: own_pod_def phantom_key_def same_objectD ownedBySw_same)

lemma touched_same:
  assumes "same_object sw sw'"
  shows "touched L sw' t v v' = touched L sw t v v'"
proof -
  have "shown_own L sw' t = shown_own L sw t" "own_pod L sw' = own_pod L sw"
    using shown_own_same [OF assms] own_pod_same [OF assms] by (auto simp: fun_eq_iff)
  then show ?thesis using assms by (simp add: touched_def phantom_key_def same_objectD ownedBySw_same)
qed

lemma touched_pods:
  assumes "touched L sw t v v'" "vw_pods v' k \<noteq> vw_pods v k"
  shows "k = phantom_key sw" "vw_pods v k = Some p \<Longrightarrow> shown_own L sw t p" "vw_pods v' k = Some p \<Longrightarrow> ownedBySw L p sw"
proof -
  show k: "k = phantom_key sw" using assms unfolding touched_def by metis
  show "vw_pods v k = Some p \<Longrightarrow> shown_own L sw t p" "vw_pods v' k = Some p \<Longrightarrow> ownedBySw L p sw"
    using assms unfolding touched_def k by auto
qed

text \<open>The phases of a pass.\<close>

definition isolated :: "'q lib \<Rightarrow> ('w \<Rightarrow> 'q view) \<Rightarrow> 'q ShadowWorkload \<Rightarrow> 'q view \<Rightarrow> ('q, 'v, 'w) pass \<Rightarrow> bool" where
  "isolated L view sw v p \<longleftrightarrow> same_object sw (ps_sw p) \<and> touched L sw (ps_trace p) v (view (ps_world p))"

lemma isolated_frame [simp]:
  "isolated L view sw v (setDegraded r m p) = isolated L view sw v p" "isolated L view sw v (setReady r p) = isolated L view sw v p"
  "isolated L view sw v (with_status f p) = isolated L view sw v p" "isolated L view sw v (with_metrics g p) = isolated L view sw v p"
  "isolated L view sw v (measure_failed V fr r m p) = isolated L view sw v p"
  "isolated L view sw v (report_conditions L p) = isolated L view sw v p"
  "isolated L view sw v (report_currents L V obs p) = isolated L view sw v p"
  by (simp_all add: isolated_def measure_failed_def report_conditions_def report_currents_def Let_def split: option.split)

lemma isolated_step:
  assumes "isolated L view sw v p" "touched L (ps_sw p) (c # ps_trace p) (view (ps_world p)) (view w)"
  shows "isolated L view sw v (p\<lparr>ps_world := w, ps_trace := c # ps_trace p\<rparr>)"
proof -
  have s: "same_object sw (ps_sw p)" "touched L sw (c # ps_trace p) v (view (ps_world p))"
    using assms(1) by (auto simp: isolated_def elim: touched_mono)
  have "touched L sw (c # ps_trace p) v (view w)"
    by (rule touched_trans [OF s(2)]) (use assms(2) touched_same [OF s(1)] in simp)
  then show ?thesis using s(1) by (simp add: isolated_def)
qed

lemma isolated_request:
  "isolated L view sw v p \<Longrightarrow> view w = view (ps_world p) \<Longrightarrow> isolated L view sw v (p\<lparr>ps_world := w, ps_trace := c # ps_trace p\<rparr>)"
  by (rule isolated_step) simp_all

lemma isolated_world: "view w = view (ps_world p) \<Longrightarrow> isolated L view sw v (p\<lparr>ps_world := w\<rparr>) = isolated L view sw v p"
  by (simp add: isolated_def)

lemma isolated_event:
  assumes "frame_laws E view" "isolated L view sw v p"
  shows "isolated L view sw v (Eventf E ty r m p)" "isolated L view sw v (warnOnDegradedTransition L' E r m p)"
  using assms(2) frame_reads(5) [OF assms(1), where m = m]
  by (auto simp: Eventf_def warnOnDegradedTransition_def intro!: isolated_request split: option.split)

lemma gate_isolated:
  assumes "frame_laws E view"
  shows "gate_node L E p = (res, q) \<Longrightarrow> isolated L view sw v p \<Longrightarrow> isolated L view sw v q"
    "gate_priority_class L E ok p = (res', q) \<Longrightarrow> isolated L view sw v p \<Longrightarrow> isolated L view sw v q"
  by (auto simp: gate_node_def gate_priority_class_def request_eq Let_def frame_reads [OF assms]
      intro!: isolated_event [OF assms] isolated_request split: sum.splits if_splits prod.splits)

lemma measure_isolated:
  assumes "frame_laws E view" "measure L V E p = (pair, q)" "isolated L view sw v p"
  shows "isolated L view sw v q"
  using assms(2,3)
  by (auto simp: measure_def request_eq timeNow_eq Let_def isolated_world frame_reads [OF assms(1)]
      intro!: isolated_event [OF assms(1)] isolated_request split: sum.splits prod.splits)

text \<open>The writes.\<close>

lemma drop_touches:
  assumes "frame_laws E view" "(pod_Namespace x, pod_Name x) = phantom_key sw" "shown_own L sw t x"
  shows "touched L sw t (view w) (view (snd (api_DeletePod E x (delete_observed x) w)))"
  using assms(1)
proof (cases rule: frame_delete [where p = x and opts = "delete_observed x" and w = w])
  case refused
  then show ?thesis by simp
next
  case (dropped y)
  then have "vw_pods (view w) (phantom_key sw) = Some y" "shown_own L sw t y"
    using assms(2,3) by (auto simp: delete_observed_def shown_own_def)
  then show ?thesis
    using dropped(3) assms(2) by (auto simp: touched_def drop_pod_def option.rel_refl)
qed

lemma create_touches:
  assumes "frame_laws E view" "binding_laws L" "owner_laws L" "BuildPhantomPod L sw d = Inr pod"
  shows "touched L sw t (view w) (view (snd (api_CreatePod E pod w)))"
  using assms(1)
proof (cases rule: frame_create [where p = pod and w = w])
  case refused
  then show ?thesis by simp
next
  case (stored u v)
  let ?q = "pod\<lparr>pod_UID := u, pod_ResourceVersion := v\<rparr>"
  have k: "(pod_Namespace pod, pod_Name pod) = phantom_key sw"
    using BuildPhantomPod_pod(2,3) [OF assms(4,3)] by (simp add: phantom_key_def)
  have "k_GetControllerOf L ?q = Some (controller_ref sw)"
    using controller_kept(1) [OF assms(2)] BuildPhantomPod_pod(1) [OF assms(4,3)] by simp
  then have "ownedBySw L ?q sw" by (rule controller_ref_owned)
  then show ?thesis
    using stored k BuildPhantomPod_pod(2,3,5) [OF assms(4,3)] by (auto simp: touched_def own_pod_def shaped_def put_pod_def option.rel_refl)
qed

lemma resize_touches:
  assumes "frame_laws E view" "binding_laws L" "ownedBySw L x sw" "(pod_Namespace x, pod_Name x) = phantom_key sw"
    and "same_version x (vw_pods (view w) (phantom_key sw))" "shown_own L sw t x"
  shows "touched L sw t (view w) (view (snd (api_PatchResize E x (resized_pod x d) w)))"
  using assms(1) resizes_resized [of x d]
proof (cases rule: frame_resize [where w = w])
  case refused
  then show ?thesis by simp
next
  case (stored y v)
  let ?q = "y\<lparr>pod_Containers := pod_Containers (resized_pod x d), pod_ResourceVersion := v\<rparr>"
  have y: "vw_pods (view w) (phantom_key sw) = Some y" "y = x"
    using stored(1-3) assms(4,5) by (auto simp: same_version_def)
  have "k_GetControllerOf L ?q = k_GetControllerOf L y" by (rule controller_kept(3) [OF assms(2)])
  then have "ownedBySw L ?q sw" using y(2) assms(3) by (simp add: ownedBySw_def)
  then show ?thesis
    using stored(4) y assms(3,4,6) by (auto simp: touched_def own_pod_def shaped_def resized_pod_def Let_def option.rel_refl)
qed

lemma get_isolated:
  assumes "frame_laws E view" "isolated L view sw v p"
    and "request (api_GetPod E rd (sw_Namespace (ps_sw p)) (PhantomName (sw_Name (ps_sw p))))
      (CGetPod rd (sw_Namespace (ps_sw p)) (PhantomName (sw_Name (ps_sw p)))) p = (a, q)"
  shows "isolated L view sw v q" "ps_sw q = ps_sw p"
    "a = Inr x \<Longrightarrow> (pod_Namespace x, pod_Name x) = phantom_key (ps_sw q)"
    "a = Inr x \<Longrightarrow> same_version x (vw_pods (view (ps_world q)) (phantom_key (ps_sw q)))"
    "a = Inr x \<Longrightarrow> ownedBySw L x (ps_sw q) \<Longrightarrow> shown_own L (ps_sw q) (ps_trace q) x"
  using assms(2,3) frame_answers(2,3) [OF assms(1)] frame_reads(4) [OF assms(1)]
  by (auto simp: request_eq phantom_key_def intro!: isolated_request shown_ownI)

lemma delete_isolated:
  assumes "frame_laws E view" "isolated L view sw v p" "(pod_Namespace x, pod_Name x) = phantom_key (ps_sw p)"
    and "shown_own L (ps_sw p) (ps_trace p) x"
    and "request (api_DeletePod E x (delete_observed x)) ev p = (a, q)"
  shows "isolated L view sw v q"
proof -
  have "shown_own L (ps_sw p) (ev a # ps_trace p) x" by (rule shown_own_mono [OF _ assms(4)]) auto
  from isolated_step [OF assms(2) drop_touches [OF assms(1,3) this]] assms(5) show ?thesis
    by (auto simp: request_eq)
qed

lemma resolve_isolated:
  assumes "frame_laws E view" "isolated L view sw v p"
    and "resolveCreateConflict L E (PhantomName (sw_Name (ps_sw p))) poll p = (res, q)"
  shows "isolated L view sw v q"
proof -
  let ?get = "request (api_GetPod E (apiReader E) (sw_Namespace (ps_sw p)) (PhantomName (sw_Name (ps_sw p))))
     (CGetPod (apiReader E) (sw_Namespace (ps_sw p)) (PhantomName (sw_Name (ps_sw p)))) p"
  obtain a p1 where g: "?get = (a, p1)" by (cases ?get)
  note f = get_isolated [OF assms(1,2) g]
  show ?thesis
  proof (cases "\<exists>x. a = Inr x \<and> ownedBySw L x (ps_sw p)")
    case True
    then obtain x where x: "a = Inr x" "ownedBySw L x (ps_sw p)" by blast
    obtain b p2 where d: "request (api_DeletePod E x (delete_observed x)) (CDeletePod x (delete_observed x)) p1 = (b, p2)"
      by (cases "request (api_DeletePod E x (delete_observed x)) (CDeletePod x (delete_observed x)) p1")
    have "isolated L view sw v p2" using f x by (intro delete_isolated [OF assms(1) f(1) _ _ d]) simp_all
    then show ?thesis
      using assms(3) g x d
      by (auto simp: resolveCreateConflict_def Let_def intro!: isolated_event [OF assms(1)] split: if_splits)
  next
    case False
    then show ?thesis using assms(3) g f(1) by (auto simp: resolveCreateConflict_def Let_def split: sum.splits if_splits)
  qed
qed

lemma create_isolated:
  assumes "frame_laws E view" "binding_laws L" "owner_laws L" "isolated L view sw v p"
    and "createOrRecoverPhantom L V E (PhantomName (sw_Name (ps_sw p))) d poll p = (res, q)"
  shows "isolated L view sw v q"
proof (cases "BuildPhantomPod L (ps_sw p) d")
  case (Inl e)
  then show ?thesis using assms(4,5) by (simp add: createOrRecoverPhantom_def Let_def)
next
  case (Inr fresh)
  obtain a p1 where c: "request (api_CreatePod E fresh) (CCreatePod fresh) p = (a, p1)"
    by (cases "request (api_CreatePod E fresh) (CCreatePod fresh) p")
  have i: "isolated L view sw v p1" and s: "ps_sw p1 = ps_sw p"
    using c isolated_step [OF assms(4) create_touches [OF assms(1-3) Inr]] by (auto simp: request_eq)
  obtain r p2 where x: "resolveCreateConflict L E (PhantomName (sw_Name (ps_sw p))) poll p1 = (r, p2)"
    by (cases "resolveCreateConflict L E (PhantomName (sw_Name (ps_sw p))) poll p1")
  have "isolated L view sw v p2" using resolve_isolated [OF assms(1) i, of poll r p2] x s by simp
  then show ?thesis
    using assms(5) Inr c x i
    by (auto simp: createOrRecoverPhantom_def Let_def intro!: isolated_event [OF assms(1)]
        split: sum.splits if_splits prod.splits)
qed

lemma resize_isolated:
  assumes "frame_laws E view" "binding_laws L" "isolated L view sw v p" "ownedBySw L x (ps_sw p)"
    and "(pod_Namespace x, pod_Name x) = phantom_key (ps_sw p)"
    and "same_version x (vw_pods (view (ps_world p)) (phantom_key (ps_sw p)))" "shown_own L (ps_sw p) (ps_trace p) x"
    and "resizeIfDrifting L V E x name d healthy p = (pod, q)"
  shows "isolated L view sw v q"
proof -
  obtain a p1 where r: "resizePhantom E x d p = (a, p1)" by (cases "resizePhantom E x d p")
  have "shown_own L (ps_sw p) (c # ps_trace p) x" for c by (rule shown_own_mono [OF _ assms(7)]) auto
  then have "isolated L view sw v p1"
    using r isolated_step [OF assms(3) resize_touches [OF assms(1,2,4,5,6)]]
    by (auto simp: resizePhantom_def request_eq Let_def)
  then show ?thesis
    using assms(3,8) r
    by (auto simp: frame_reads(6) [OF assms(1)] resizeIfDrifting_def Let_def timeNow_eq isolated_world
        intro!: isolated_event [OF assms(1)] split: sum.splits if_splits)
qed

lemma manage_isolated:
  assumes "frame_laws E view" "binding_laws L" "owner_laws L"
    and "manage_phantom L V E d poll p = (res, q)" "isolated L view sw v p"
  shows "isolated L view sw v q"
proof -
  let ?get = "request (api_GetPod E Cached (sw_Namespace (ps_sw p)) (PhantomName (sw_Name (ps_sw p))))
     (CGetPod Cached (sw_Namespace (ps_sw p)) (PhantomName (sw_Name (ps_sw p)))) p"
  obtain a p1 where g: "?get = (a, p1)" by (cases ?get)
  note f = get_isolated [OF assms(1,5) g]
  show ?thesis
  proof (cases a)
    case (Inl e)
    obtain r p2 where c: "createOrRecoverPhantom L V E (PhantomName (sw_Name (ps_sw p))) d poll p1 = (r, p2)"
      by (cases "createOrRecoverPhantom L V E (PhantomName (sw_Name (ps_sw p))) d poll p1")
    have "isolated L view sw v p2" using create_isolated [OF assms(1-3) f(1), of V d poll r p2] c f(2) by simp
    then show ?thesis
      using assms(4) g Inl c f(1) by (auto simp: manage_phantom_def Let_def split: sum.splits if_splits prod.splits)
  next
    case (Inr x)
    show ?thesis
    proof (cases "ownedBySw L x (ps_sw p)")
      case True
      obtain b p2 where d: "request (api_DeletePod E x (delete_observed x)) (CDeletePod x (delete_observed x)) p1 = (b, p2)"
        by (cases "request (api_DeletePod E x (delete_observed x)) (CDeletePod x (delete_observed x)) p1")
      have del: "isolated L view sw v p2" using f Inr True by (intro delete_isolated [OF assms(1) f(1) _ _ d]) simp_all
      obtain pod p3 where r: "resizeIfDrifting L V E x (PhantomName (sw_Name (ps_sw p))) d (ps_degradedReason p1 = []) p1 = (pod, p3)"
        by (cases "resizeIfDrifting L V E x (PhantomName (sw_Name (ps_sw p))) d (ps_degradedReason p1 = []) p1")
      have "isolated L view sw v p3"
        using f Inr True by (intro resize_isolated [OF assms(1,2) f(1) _ _ _ _ r]) simp_all
      then show ?thesis
        using assms(4) g Inr True d del r
        by (auto simp: manage_phantom_def Let_def intro!: isolated_event [OF assms(1)] split: prod.splits if_splits)
    next
      case False
      then show ?thesis
        using assms(4) g Inr f(1) by (auto simp: manage_phantom_def Let_def intro!: isolated_event [OF assms(1)])
    qed
  qed
qed

lemma suffix_isolated:
  assumes "frame_laws E view" "pass_suffix L V E sw obs imm p = (res, q)" "isolated L view sw v p"
  shows "isolated L view sw v q"
proof -
  let ?r = "report_conditions L (report_currents L V obs p)"
  let ?w = "snd (api_PatchStatus E sw (ps_sw ?r) (ps_world ?r))"
  have i: "isolated L view sw v ?r" using assms(3) by simp
  have "touched L sw (c # ps_trace ?r) (view (ps_world ?r)) (view ?w)" for c
    using assms(1)
  proof (cases rule: frame_status [where b = sw and s = "ps_sw ?r" and w = "ps_world ?r"])
    case (stored x st)
    then show ?thesis by (auto simp: touched_def)
  qed simp
  moreover have "same_object sw (ps_sw ?r)" using i by (simp add: isolated_def)
  ultimately have "isolated L view sw v (snd (request (api_PatchStatus E sw (ps_sw ?r)) (CPatchStatus sw (ps_sw ?r)) ?r))"
    using isolated_step [OF i] by (simp add: request_eq touched_same)
  then show ?thesis using assms(2) by (auto simp: pass_suffix_def Let_def split: prod.splits option.splits)
qed

interpretation isolation: pass_invariant L V E sw
    "\<lambda>p. frame_laws E view \<and> binding_laws L \<and> owner_laws L \<longrightarrow> isolated L view sw v p" for L V E sw view v
  by (rule pass_invariant.intro)
    (blast intro: gate_isolated measure_isolated manage_isolated suffix_isolated)+

lemma Reconcile_touches:
  assumes "Reconcile L V E ns n rc w = (res, rc', t, w')" "frame_laws E view" "binding_laws L" "owner_laws L"
  shows "view w' = view w \<or>
    (\<exists>sw w0. api_GetShadowWorkload E ns n w = (Inr sw, w0) \<and> (sw_Namespace sw, sw_Name sw) = (ns, n) \<and>
       touched L sw t (view w) (view w'))"
proof (cases "api_GetShadowWorkload E ns n w")
  case (Pair a w0)
  have w0: "view w0 = view w" using frame_reads(1) [OF assms(2), of ns n w] Pair by simp
  show ?thesis
  proof (cases a)
    case (Inl e)
    then show ?thesis using assms(1) Pair w0 by (auto simp: Reconcile_def split: if_splits)
  next
    case (Inr sw)
    have k: "(sw_Namespace sw, sw_Name sw) = (ns, n)" using frame_answers(1) [OF assms(2), of ns n w sw] Pair Inr by simp
    obtain res' q where q: "reconcile_workload L V E (initial_pass sw rc w0) = (res', q)"
      by (cases "reconcile_workload L V E (initial_pass sw rc w0)")
    have t: "isolated L view sw (view w) q"
      using isolation.workload [OF q, of sw view "view w"] assms(2-4) w0 by (simp add: isolated_def)
    have "w' = ps_world q" "t = ps_trace q" using assms(1) Pair Inr q by (simp_all add: Reconcile_def Let_def split: prod.splits)
    then show ?thesis using Pair Inr k t by (auto simp: isolated_def)
  qed
qed

end
