(* ===== verification/Convergence.thy ===== *)
theory Convergence
  imports Workload_Isolation Drift
begin

text \<open>
  Repeated passes over one workload, with passes over others in between: its node stays
  eligible, its measurement stays the same, and the API server accepts what it is sent.  The store
  and what the cached client shows of it put the phantom in one of five phases; every pass over the
  workload is a step of a small machine on them, no other pass changes the phase, and in the last one
  a pass writes no pod.  Nothing is supposed of the cache: what it has shown is a condition on each
  pass.  Before that anything may have happened that leaves the workload stored and its phantom's
  name free of foreign pods.
\<close>

section \<open>A steady environment\<close>

definition steady ::
  "('q, 'w) cluster \<Rightarrow> ('w \<Rightarrow> 'q view) \<Rightarrow> 'q ShadowWorkloadSpec \<Rightarrow> f64 \<Rightarrow> f64 \<Rightarrow> bool" where
  "steady E view spec cpu mem \<longleftrightarrow>
     (\<exists>nd. fst (NodeEligible (Some nd)) \<and> (\<forall>rd w. fst (api_GetNode E rd (spec_Node spec) w) = Inr nd)) \<and>
     (\<forall>rd w. fst (api_GetPriorityClass E rd BallastPriorityClassName w) = Inr ()) \<and>
     (\<exists>q k found. Resolve spec = Inr q \<and> QuerierFor E (mc_PrometheusURL (spec_Metrics spec)) = Inr k \<and>
        (\<forall>w. fst (k q w) = Inr (cpu, mem, found) \<and> view (snd (k q w)) = view w))"

section \<open>The phases of a phantom\<close>

text \<open>
  What the store holds under the phantom's key: no pod, one the cached client does not show (for want
  of its label, or because its cache lags), one on another node, one whose requests drift from the
  desired pair, or one that is as it should be.  \<open>phase\<close> is what a cache that has caught up makes of
  a store, and \<open>observed_phase\<close> what the answer of the cached client in a pass makes of it.
\<close>

datatype phantom_phase = Missing | Hidden | Misplaced | Drifting | Settled

definition phase :: "'q lib \<Rightarrow> 'q ShadowWorkload \<Rightarrow> 'q ResourcePair \<Rightarrow> 'q view \<Rightarrow> phantom_phase" where
  "phase L sw D v =
     (case vw_pods v (phantom_key sw) of
        None \<Rightarrow> Missing
      | Some p \<Rightarrow>
          if \<not> managed_pod p then Hidden
          else if pod_NodeName p \<noteq> spec_Node (sw_Spec sw) then Misplaced
          else if DriftExceeds L (CurrentPairOf L p) D (up_DeltaThresholdPercent (spec_Update (sw_Spec sw))) then Drifting
          else Settled)"

definition observed_phase ::
  "'q lib \<Rightarrow> 'q ShadowWorkload \<Rightarrow> 'q ResourcePair \<Rightarrow> api_error + 'q pod \<Rightarrow> 'q view \<Rightarrow> phantom_phase" where
  "observed_phase L sw D a v =
     (if a = Inl NotFound \<and> vw_pods v (phantom_key sw) \<noteq> None then Hidden else phase L sw D v)"

lemma observed_phase_caught_up [simp]:
  "observed_phase L sw D (found (visible (vw_pods v (phantom_key sw)))) v = phase L sw D v"
  by (auto simp: observed_phase_def phase_def found_def visible_def split: option.splits if_splits)

text \<open>The abstract machine: the phase after a pass, when the next pass is due, and how far it is to the end.\<close>

fun next_phase :: "phantom_phase \<Rightarrow> phantom_phase" where
  "next_phase Hidden = Missing"
| "next_phase Misplaced = Missing"
| "next_phase _ = Settled"

fun next_delay :: "int \<Rightarrow> phantom_phase \<Rightarrow> int" where
  "next_delay poll Misplaced = 1"
| "next_delay poll _ = poll"

fun steps_left :: "phantom_phase \<Rightarrow> nat" where
  "steps_left Settled = 0"
| "steps_left Missing = 1"
| "steps_left Drifting = 1"
| "steps_left _ = 2"

lemma steps_left_next: "steps_left (next_phase x) = steps_left x - 1"
  by (cases x) simp_all

lemma steps_left_le: "steps_left x \<le> 2"
  by (cases x) simp_all

lemma steps_left_0: "steps_left x = 0 \<longleftrightarrow> x = Settled"
  by (cases x) simp_all

text \<open>The workload is stored, with any status, and no pod of another owner has its phantom's name.\<close>

definition own_view :: "'q lib \<Rightarrow> 'q ShadowWorkload \<Rightarrow> 'q view \<Rightarrow> bool" where
  "own_view L sw v \<longleftrightarrow>
     (\<exists>sw'. same_object sw sw' \<and> vw_workloads v (sw_Namespace sw, sw_Name sw) = Some sw') \<and>
     (\<forall>p. vw_pods v (phantom_key sw) = Some p \<longrightarrow>
        ownedBySw L p sw \<and> pod_Containers p \<noteq> [] \<and> (pod_Namespace p, pod_Name p) = phantom_key sw)"

fun is_pod_write :: "'q api_call \<Rightarrow> bool" where
  "is_pod_write (CCreatePod _ _) = True"
| "is_pod_write (CDeletePod _ _ _) = True"
| "is_pod_write (CPatchResize _ _ _) = True"
| "is_pod_write _ = False"

definition pod_writes :: "'q api_call list \<Rightarrow> 'q api_call list" where
  "pod_writes t = filter is_pod_write t"

lemma pod_writes_simps [simp]:
  "pod_writes [] = []" "pod_writes (c # t) = (if is_pod_write c then c # pod_writes t else pod_writes t)"
  by (simp_all add: pod_writes_def)

text \<open>The reads of pods that the cached client has answered.\<close>

fun is_cached_read :: "'q api_call \<Rightarrow> bool" where
  "is_cached_read (CGetPod Cached _ _ _) = True"
| "is_cached_read _ = False"

definition cached_reads :: "'q api_call list \<Rightarrow> 'q api_call list" where
  "cached_reads t = filter is_cached_read t"

lemma cached_reads_simps [simp]:
  "cached_reads [] = []" "cached_reads (c # t) = (if is_cached_read c then c # cached_reads t else cached_reads t)"
  by (simp_all add: cached_reads_def)

lemma cached_reads_mem: "CGetPod Cached ns n a \<in> set t \<longleftrightarrow> CGetPod Cached ns n a \<in> set (cached_reads t)"
  by (simp add: cached_reads_def)

lemma cached_reads_event [simp]:
  "cached_reads (ps_trace (Eventf E ty r m p)) = cached_reads (ps_trace p)"
  "cached_reads (ps_trace (warnOnDegradedTransition L E r m p)) = cached_reads (ps_trace p)"
  by (simp_all add: warn_trace)

lemma same_object_trans: "same_object a b \<Longrightarrow> same_object a c \<longleftrightarrow> same_object b c"
  by (cases a; cases b; cases c) (auto simp: same_object_def)

lemma phase_same: "same_object sw sw' \<Longrightarrow> phase L sw' D v = phase L sw D v"
  by (simp add: phase_def phantom_key_def same_objectD split: option.split)

lemma observed_phase_same: "same_object sw sw' \<Longrightarrow> observed_phase L sw' D a v = observed_phase L sw D a v"
  using phase_same [of sw sw' L D v] by (auto simp: observed_phase_def phantom_key_def same_objectD)

lemma own_view_same: "same_object sw sw' \<Longrightarrow> own_view L sw' v = own_view L sw v"
  by (simp add: own_view_def phantom_key_def same_objectD ownedBySw_same same_object_trans [symmetric])

lemma pollInterval_same: "same_object sw sw' \<Longrightarrow> pollInterval sw' = pollInterval sw"
  by (simp add: pollInterval_def same_objectD split: option.split)

section \<open>The phases of a pass\<close>

lemma steady_prefix:
  fixes E :: "('q, 'w) cluster"
  assumes "steady E view (sw_Spec sw) cpu mem" "read_laws E view"
  obtains q :: "('q, 'v, 'w) pass" where "pass_prefix L V E (initial_pass sw rc w) = (Inr (True, cpu, mem), q)"
    "view (ps_world q) = view w" "pod_writes (ps_trace q) = []" "ps_degradedReason q = []"
    "cached_reads (ps_trace q) = []"
proof -
  obtain nd q k fnd where s: "fst (NodeEligible (Some nd))" "\<And>rd w. fst (api_GetNode E rd (spec_Node (sw_Spec sw)) w) = Inr nd"
      "\<And>rd w. fst (api_GetPriorityClass E rd BallastPriorityClassName w) = Inr ()" "Resolve (sw_Spec sw) = Inr q"
      "QuerierFor E (mc_PrometheusURL (spec_Metrics (sw_Spec sw))) = Inr k"
      "\<And>w. fst (k q w) = Inr (cpu, mem, fnd)" "\<And>w. view (snd (k q w)) = view w"
    using assms(1) unfolding steady_def by blast
  obtain why where why: "NodeEligible (Some nd) = (True, why)" using s(1) by (cases "NodeEligible (Some nd)") auto
  note r = read_lawsD [OF assms(2)]
  obtain p1 :: "('q, 'v, 'w) pass" where p1: "gate_node L E (initial_pass sw rc w) = (Inr True, p1)"
      "view (ps_world p1) = view w" "pod_writes (ps_trace p1) = []" "ps_sw p1 = sw" "ps_degradedReason p1 = []"
      "cached_reads (ps_trace p1) = []"
    by (simp add: gate_node_def request_eq s(2) why r Let_def)
  obtain p2 where p2: "gate_priority_class L E True p1 = (Inr True, p2)"
      "view (ps_world p2) = view w" "pod_writes (ps_trace p2) = []" "ps_sw p2 = sw" "ps_degradedReason p2 = []"
      "cached_reads (ps_trace p2) = []"
    using p1 by (simp add: gate_priority_class_def request_eq s(3) r)
  obtain p3 where p3: "measure L V E p2 = ((cpu, mem), p3)"
      "view (ps_world p3) = view w" "pod_writes (ps_trace p3) = []" "ps_degradedReason p3 = []"
      "cached_reads (ps_trace p3) = []"
    using p2 by (simp add: measure_def request_eq s(4-7) r timeNow_eq Let_def)
  show thesis using that [OF _ p3(2-5)] p1(1) p2(1) p3(1) by (simp add: pass_prefix_def)
qed

lemma accepted_suffix:
  assumes "read_laws E view" "write_laws E view" "pass_ok L sw p"
    and "vw_workloads (view (ps_world p)) (sw_Namespace sw, sw_Name sw) = Some x"
  obtains q st where "pass_suffix L V E sw obs imm p = (Inr (if imm then 1 else pollInterval sw), q)"
    "view (ps_world q) = put_status x st (view (ps_world p))"
    "x = sw \<Longrightarrow> st = sw_Status (ps_sw (reported L V obs p))"
    "pod_writes (ps_trace q) = pod_writes (ps_trace p)"
proof -
  have w: "ps_world (reported L V obs p) = ps_world p" "ps_trace (reported L V obs p) = ps_trace p"
    by (simp_all add: reported_def report_conditions_def report_currents_def Let_def split: option.split)
  have r: "reported L V obs p = report_conditions L (report_currents L V obs p)" by (simp add: reported_def)
  obtain st where a: "fst (api_PatchStatus E sw (ps_sw (reported L V obs p)) (ps_world p)) = None"
    "view (snd (api_PatchStatus E sw (ps_sw (reported L V obs p)) (ps_world p))) = put_status x st (view (ps_world p))"
    "x = sw \<Longrightarrow> st = sw_Status (ps_sw (reported L V obs p))"
    by (rule status_accepted [OF assms(2,4), of "ps_sw (reported L V obs p)"]) (rule that)
  show thesis
    by (rule that [of "(reported L V obs p)\<lparr>ps_world := snd (api_PatchStatus E sw (ps_sw (reported L V obs p)) (ps_world p)),
          ps_trace := CPatchStatus sw (ps_sw (reported L V obs p)) None # ps_trace p\<rparr>" st])
      (use a in \<open>simp_all add: pass_suffix_def request_eq w Let_def flip: r\<close>)
qed

lemma event_view: "read_laws E view \<Longrightarrow> view (ps_world (Eventf E ty reason m p)) = view (ps_world p)"
  by (simp add: Eventf_def read_lawsD(7) [where m = m])

text \<open>The management of the pod, by what is stored under the phantom's key.\<close>

lemma BuildPhantomPod_bound:
  assumes "binding_laws L" "owner_laws L"
  obtains pod where "BuildPhantomPod L sw D = Inr pod" "k_GetControllerOf L pod = Some (controller_ref sw)"
    "(pod_Namespace pod, pod_Name pod) = phantom_key sw" "pod_NodeName pod = spec_Node (sw_Spec sw)"
    "pod_Containers pod = [phantom_container D]" "managed_pod pod"
proof -
  have b: "is_ok (k_SetControllerReference L sw p)" if "pod_OwnerReferences p = []" for p
    using assms(1) that by (simp add: binding_laws_def)
  have "\<exists>p0. pod_OwnerReferences p0 = [] \<and> BuildPhantomPod L sw D =
      (case k_SetControllerReference L sw p0 of
         Inl err \<Rightarrow> Inl (''failed to set owner reference on phantom pod: '' @ err) | Inr pod \<Rightarrow> Inr pod)"
    unfolding BuildPhantomPod_def Let_def by (rule exI, rule conjI [rotated], rule refl, simp)
  then have "is_ok (BuildPhantomPod L sw D)" using b by (force simp: is_ok_def split: sum.splits)
  then obtain pod where "BuildPhantomPod L sw D = Inr pod" by (auto simp: is_ok_iff)
  from this BuildPhantomPod_pod [OF this assms(2)] show thesis
    by (intro that) (simp_all add: phantom_key_def managed_pod_def)
qed

text \<open>The reads of the pod, and the trace they leave.\<close>

abbreviation get_phantom ::
  "('q, 'w) cluster \<Rightarrow> reader \<Rightarrow> ('q, 'v, 'w) pass \<Rightarrow> (api_error + 'q pod) \<times> ('q, 'v, 'w) pass" where
  "get_phantom E rd p \<equiv> request (api_GetPod E rd (sw_Namespace (ps_sw p)) (PhantomName (sw_Name (ps_sw p))))
     (CGetPod rd (sw_Namespace (ps_sw p)) (PhantomName (sw_Name (ps_sw p)))) p"

lemma get_phantom:
  assumes "read_laws E view"
  shows "fst (get_phantom E Uncached p) = found (vw_pods (view (ps_world p)) (phantom_key (ps_sw p)))"
    "view (ps_world (snd (get_phantom E rd p))) = view (ps_world p)" "ps_sw (snd (get_phantom E rd p)) = ps_sw p"
    "ps_degradedReason (snd (get_phantom E rd p)) = ps_degradedReason p"
    "pod_writes (ps_trace (snd (get_phantom E rd p))) = pod_writes (ps_trace p)"
  using read_lawsD(5,6) [OF assms] by (simp_all add: request_eq phantom_key_def)

lemma resize_reads:
  "resizeIfDrifting L V E pod name D healthy p = (pod', q) \<Longrightarrow> cached_reads (ps_trace q) = cached_reads (ps_trace p)"
  by (auto simp: resizeIfDrifting_def resizePhantom_def request_eq timeNow_eq Let_def split: sum.splits if_splits)

lemma resolve_reads:
  "resolveCreateConflict L E name poll p = (res, q) \<Longrightarrow> has_APIReader E \<Longrightarrow> cached_reads (ps_trace q) = cached_reads (ps_trace p)"
  by (auto simp: resolveCreateConflict_def request_eq apiReader_def Let_def split: sum.splits if_splits)

lemma create_reads:
  assumes "createOrRecoverPhantom L V E name D poll p = (res, q)" "has_APIReader E"
  shows "cached_reads (ps_trace q) = cached_reads (ps_trace p)"
proof (cases "BuildPhantomPod L (ps_sw p) D")
  case (Inl e)
  then show ?thesis using assms by (simp add: createOrRecoverPhantom_def Let_def)
next
  case (Inr fresh)
  obtain a p1 where c: "request (api_CreatePod E fresh) (CCreatePod fresh) p = (a, p1)"
    by (cases "request (api_CreatePod E fresh) (CCreatePod fresh) p")
  obtain r p2 where x: "resolveCreateConflict L E name poll p1 = (r, p2)" by (cases "resolveCreateConflict L E name poll p1")
  have "cached_reads (ps_trace p1) = cached_reads (ps_trace p)" using c by (auto simp: request_eq)
  then show ?thesis
    using assms Inr c x resolve_reads [OF x assms(2)]
    by (auto simp: createOrRecoverPhantom_def Let_def split: sum.splits if_splits)
qed

text \<open>The management of the pod reads it once from the cached client.\<close>

lemma manage_reads:
  assumes "manage_phantom L V E D poll p = (m, q)" "has_APIReader E"
  shows "cached_reads (ps_trace q) =
    CGetPod Cached (sw_Namespace (ps_sw p)) (PhantomName (sw_Name (ps_sw p))) (fst (get_phantom E Cached p)) # cached_reads (ps_trace p)"
proof -
  obtain a p1 where g: "get_phantom E Cached p = (a, p1)" by (cases "get_phantom E Cached p")
  have "cached_reads (ps_trace q) = cached_reads (ps_trace p1)"
  proof (cases a)
    case (Inl e)
    obtain r p2 where c: "createOrRecoverPhantom L V E (PhantomName (sw_Name (ps_sw p1))) D poll p1 = (r, p2)"
      by (cases "createOrRecoverPhantom L V E (PhantomName (sw_Name (ps_sw p1))) D poll p1")
    have "ps_sw p1 = ps_sw p" using g by (auto simp: request_eq)
    then show ?thesis
      using assms g Inl c create_reads [OF c assms(2)] by (auto simp: manage_phantom_def Let_def split: sum.splits if_splits)
  next
    case (Inr x)
    obtain pod p2 where r: "resizeIfDrifting L V E x (PhantomName (sw_Name (ps_sw p))) D (ps_degradedReason p1 = []) p1 = (pod, p2)"
      by (cases "resizeIfDrifting L V E x (PhantomName (sw_Name (ps_sw p))) D (ps_degradedReason p1 = []) p1")
    obtain b p3 where d: "request (api_DeletePod E x (delete_observed x)) (CDeletePod x (delete_observed x)) p1 = (b, p3)"
      by (cases "request (api_DeletePod E x (delete_observed x)) (CDeletePod x (delete_observed x)) p1")
    have "cached_reads (ps_trace p3) = cached_reads (ps_trace p1)" using d by (auto simp: request_eq)
    then show ?thesis
      using assms g Inr d r resize_reads [OF r] by (auto simp: manage_phantom_def Let_def split: if_splits)
  qed
  then show ?thesis using g by (auto simp: request_eq)
qed

text \<open>A pod that carries the desired pair where the workload wants it.\<close>

definition settled_pod :: "'q lib \<Rightarrow> 'q ShadowWorkload \<Rightarrow> 'q ResourcePair \<Rightarrow> 'q pod \<Rightarrow> bool" where
  "settled_pod L sw D p \<longleftrightarrow>
     ownedBySw L p sw \<and> managed_pod p \<and> pod_NodeName p = spec_Node (sw_Spec sw) \<and>
     (pod_Namespace p, pod_Name p) = phantom_key sw \<and> pod_Containers p \<noteq> [] \<and> CurrentPairOf L p = D"

lemma manage_absent:
  assumes "read_laws E view" "write_laws E view" "binding_laws L" "owner_laws L"
    and "vw_pods (view (ps_world p)) (phantom_key (ps_sw p)) = None" "fst (get_phantom E Cached p) = Inl NotFound"
  obtains pod q where "manage_phantom L V E D poll p = (Inr (Continue (Some pod) False), q)"
    "settled_pod L (ps_sw p) D pod" "view (ps_world q) = put_pod pod (view (ps_world p))"
    "ps_degradedReason q = ps_degradedReason p"
proof -
  note r = read_lawsD [OF assms(1)]
  obtain fresh where f: "BuildPhantomPod L (ps_sw p) D = Inr fresh" "k_GetControllerOf L fresh = Some (controller_ref (ps_sw p))"
    "(pod_Namespace fresh, pod_Name fresh) = phantom_key (ps_sw p)" "pod_NodeName fresh = spec_Node (sw_Spec (ps_sw p))"
    "pod_Containers fresh = [phantom_container D]" "managed_pod fresh"
    by (rule BuildPhantomPod_bound [OF assms(3,4)])
  let ?get = "get_phantom E Cached p"
  have g: "fst ?get = Inl NotFound" "view (ps_world (snd ?get)) = view (ps_world p)" "ps_sw (snd ?get) = ps_sw p"
      "ps_degradedReason (snd ?get) = ps_degradedReason p"
    using assms(6) get_phantom(2-4) [OF assms(1), of Cached p] by simp_all
  define w where "w = ps_world (snd ?get)"
  have w: "vw_pods (view w) (pod_Namespace fresh, pod_Name fresh) = None" "view w = view (ps_world p)"
    using assms(5) f(3) g(2) by (simp_all add: w_def)
  obtain u v where c: "fst (api_CreatePod E fresh w) = Inr (fresh\<lparr>pod_UID := u, pod_ResourceVersion := v\<rparr>)"
    "view (snd (api_CreatePod E fresh w)) = put_pod (fresh\<lparr>pod_UID := u, pod_ResourceVersion := v\<rparr>) (view w)"
    by (rule create_accepted [OF assms(2) w(1)])
  let ?pod = "fresh\<lparr>pod_UID := u, pod_ResourceVersion := v\<rparr>"
  have "settled_pod L (ps_sw p) D ?pod"
    using f controller_kept(1) [OF assms(3), where p = fresh and u = u and v = v] controller_ref_owned [of L ?pod "ps_sw p"]
    by (simp add: settled_pod_def managed_pod_def CurrentPairOf_def phantom_container_def resource_list_def
        ResourceCPU_def ResourceMemory_def)
  moreover obtain q where "createOrRecoverPhantom L V E (PhantomName (sw_Name (ps_sw p))) D poll (snd ?get) = (Inr (Some ?pod, 0), q)"
    "view (ps_world q) = put_pod ?pod (view (ps_world p))" "ps_degradedReason q = ps_degradedReason p"
    using f(1) c g(3,4) w(2)
    by (simp add: createOrRecoverPhantom_def Let_def request_eq [of "api_CreatePod E fresh"] event_view [OF assms(1)]
        flip: w_def)
  ultimately show thesis
    using that g by (simp add: manage_phantom_def Let_def prod.case_eq_if)
qed

lemma delete_stored:
  assumes "write_laws E view" "vw_pods (view w) (phantom_key sw) = Some x" "(pod_Namespace x, pod_Name x) = phantom_key sw"
  shows "fst (api_DeletePod E x (delete_observed x) w) = None"
    "view (snd (api_DeletePod E x (delete_observed x) w)) = drop_pod x (view w)"
  by (rule delete_accepted [OF assms(1)]; use assms(2,3) in \<open>simp add: delete_observed_def\<close>)+

lemma manage_hidden:
  assumes "read_laws E view" "write_laws E view" "binding_laws L" "owner_laws L" "0 < poll"
    and x: "vw_pods (view (ps_world p)) (phantom_key (ps_sw p)) = Some x" "fst (get_phantom E Cached p) = Inl NotFound"
      "ownedBySw L x (ps_sw p)" "(pod_Namespace x, pod_Name x) = phantom_key (ps_sw p)"
  obtains q where "manage_phantom L V E D poll p = (Inr (Return poll), q)"
    "view (ps_world q) = drop_pod x (view (ps_world p))"
proof -
  obtain fresh where f: "BuildPhantomPod L (ps_sw p) D = Inr fresh" "(pod_Namespace fresh, pod_Name fresh) = phantom_key (ps_sw p)"
    by (rule BuildPhantomPod_bound [OF assms(3,4)])
  define p1 where "p1 = snd (get_phantom E Cached p)"
  have p1: "fst (get_phantom E Cached p) = Inl NotFound" "view (ps_world p1) = view (ps_world p)" "ps_sw p1 = ps_sw p"
    using get_phantom(2,3) [OF assms(1), of Cached p] x(2) by (simp_all add: p1_def)
  define p2 where "p2 = snd (request (api_CreatePod E fresh) (CCreatePod fresh) p1)"
  have c: "fst (request (api_CreatePod E fresh) (CCreatePod fresh) p1) = Inl AlreadyExists"
    "view (ps_world p2) = view (ps_world p)" "ps_sw p2 = ps_sw p"
    using create_refused [OF assms(2), of "ps_world p1" fresh x] f(2) p1 x(1) by (simp_all add: p2_def request_eq)
  have rd: "apiReader E = Uncached" using read_lawsD(1) [OF assms(1)] by (simp add: apiReader_def)
  define p3 where "p3 = snd (get_phantom E Uncached p2)"
  have p3: "fst (get_phantom E Uncached p2) = Inr x" "view (ps_world p3) = view (ps_world p)"
    using get_phantom(1) [OF assms(1), of p2] get_phantom(2) [OF assms(1), of Uncached p2] x(1) c(2,3)
    by (simp_all add: p3_def found_def)
  have p3': "get_phantom E Uncached p2 = (Inr x, p3)" using p3(1) by (simp add: p3_def prod_eq_iff)
  define p4 where "p4 = snd (request (api_DeletePod E x (delete_observed x)) (CDeletePod x (delete_observed x)) p3)"
  have d: "fst (request (api_DeletePod E x (delete_observed x)) (CDeletePod x (delete_observed x)) p3) = None"
    "view (ps_world p4) = drop_pod x (view (ps_world p))"
    using delete_stored [OF assms(2), of "ps_world p3" "ps_sw p" x] x(1,4) p3(2) by (simp_all add: p4_def request_eq)
  obtain q where "resolveCreateConflict L E (PhantomName (sw_Name (ps_sw p))) poll p2 = (Inr (False, poll), q)"
    "view (ps_world q) = drop_pod x (view (ps_world p))"
    using p3' d c(3) x(3)
    by (simp add: resolveCreateConflict_def Let_def rd prod.case_eq_if event_view [OF assms(1)] flip: p4_def)
  then show thesis
    using that p1 c f(1) assms(5)
    by (simp add: manage_phantom_def createOrRecoverPhantom_def Let_def prod.case_eq_if flip: p1_def p2_def)
qed

lemma manage_elsewhere:
  assumes "read_laws E view" "write_laws E view"
    and x: "vw_pods (view (ps_world p)) (phantom_key (ps_sw p)) = Some x" "fst (get_phantom E Cached p) = Inr x"
      "ownedBySw L x (ps_sw p)" "(pod_Namespace x, pod_Name x) = phantom_key (ps_sw p)"
      "pod_NodeName x \<noteq> spec_Node (sw_Spec (ps_sw p))"
  obtains q where "manage_phantom L V E D poll p = (Inr (Continue None True), q)"
    "view (ps_world q) = drop_pod x (view (ps_world p))"
proof -
  define p1 where "p1 = snd (get_phantom E Cached p)"
  have p1: "fst (get_phantom E Cached p) = Inr x" "view (ps_world p1) = view (ps_world p)" "ps_sw p1 = ps_sw p"
    using get_phantom(2,3) [OF assms(1), of Cached p] x(2) by (simp_all add: p1_def)
  define p2 where "p2 = snd (request (api_DeletePod E x (delete_observed x)) (CDeletePod x (delete_observed x)) p1)"
  have d: "fst (request (api_DeletePod E x (delete_observed x)) (CDeletePod x (delete_observed x)) p1) = None"
    "view (ps_world p2) = drop_pod x (view (ps_world p))"
    using delete_stored [OF assms(2), of "ps_world p1" "ps_sw p" x] x(1,4) p1(2) by (simp_all add: p2_def request_eq)
  show thesis
    using that p1 d x(3,5)
    by (simp add: manage_phantom_def Let_def prod.case_eq_if event_view [OF assms(1)] flip: p1_def p2_def)
qed

lemma manage_here:
  assumes "read_laws E view" "write_laws E view" "binding_laws L" "ps_degradedReason p = []"
    and x: "vw_pods (view (ps_world p)) (phantom_key (ps_sw p)) = Some x" "fst (get_phantom E Cached p) = Inr x" "managed_pod x"
      "ownedBySw L x (ps_sw p)" "(pod_Namespace x, pod_Name x) = phantom_key (ps_sw p)"
      "pod_NodeName x = spec_Node (sw_Spec (ps_sw p))" "pod_Containers x \<noteq> []"
  obtains (resized) pod q where "manage_phantom L V E D poll p = (Inr (Continue (Some pod) False), q)"
    "DriftExceeds L (CurrentPairOf L x) D (up_DeltaThresholdPercent (spec_Update (sw_Spec (ps_sw p))))"
    "settled_pod L (ps_sw p) D pod" "view (ps_world q) = put_pod pod (view (ps_world p))"
    "ps_degradedReason q = []"
  | (kept) q where "manage_phantom L V E D poll p = (Inr (Continue (Some x) False), q)"
    "\<not> DriftExceeds L (CurrentPairOf L x) D (up_DeltaThresholdPercent (spec_Update (sw_Spec (ps_sw p))))"
    "view (ps_world q) = view (ps_world p)" "pod_writes (ps_trace q) = pod_writes (ps_trace p)"
    "ps_degradedReason q = []" "ps_readyReason q = reasonWithinThreshold"
proof -
  define p1 where "p1 = snd (get_phantom E Cached p)"
  have p1: "fst (get_phantom E Cached p) = Inr x" "view (ps_world p1) = view (ps_world p)" "ps_sw p1 = ps_sw p"
    "ps_degradedReason p1 = []" "pod_writes (ps_trace p1) = pod_writes (ps_trace p)"
    using get_phantom(2-5) [OF assms(1), of Cached p] x(2) assms(4) by (simp_all add: p1_def)
  have m: "manage_phantom L V E D poll p =
      (let (pod, q) = resizeIfDrifting L V E x (PhantomName (sw_Name (ps_sw p))) D True p1
       in (Inr (Continue (Some pod) False), q))"
    using p1 x(4,6) by (simp add: manage_phantom_def Let_def prod.case_eq_if flip: p1_def)
  show thesis
  proof (cases "DriftExceeds L (CurrentPairOf L x) D (up_DeltaThresholdPercent (spec_Update (sw_Spec (ps_sw p))))")
    case True
    obtain v where r: "fst (api_PatchResize E x (resized_pod x D) (ps_world p1)) = Inr ((resized_pod x D)\<lparr>pod_ResourceVersion := v\<rparr>)"
      "view (snd (api_PatchResize E x (resized_pod x D) (ps_world p1))) =
         put_pod ((resized_pod x D)\<lparr>pod_ResourceVersion := v\<rparr>) (view (ps_world p1))"
      using resize_accepted [OF assms(2) _ resizes_resized, of "ps_world p1" x D] x(1,5) p1(2) by metis
    let ?pod = "(resized_pod x D)\<lparr>pod_ResourceVersion := v\<rparr>"
    have "CurrentPairOf L ?pod = D"
      using x(7) by (cases "pod_Containers x")
        (simp_all add: CurrentPairOf_def resized_pod_def Let_def resource_list_def ResourceCPU_def ResourceMemory_def)
    then have "settled_pod L (ps_sw p) D ?pod"
      using x controller_kept(2) [OF assms(3), where p = x and D = D and v = v]
      by (simp add: settled_pod_def ownedBySw_def managed_pod_def resized_pod_def Let_def)
    moreover obtain q where "resizeIfDrifting L V E x (PhantomName (sw_Name (ps_sw p))) D True p1 = (?pod, q)"
      "view (ps_world q) = put_pod ?pod (view (ps_world p))" "ps_degradedReason q = []"
      using True p1 r
      by (simp add: resizeIfDrifting_def resizePhantom_def Let_def request_eq timeNow_eq event_view [OF assms(1)]
          read_lawsD(8) [OF assms(1)])
    ultimately show thesis using resized True m by (simp add: Let_def)
  next
    case False
    then show thesis using kept [of "setReady reasonWithinThreshold p1"] m p1 by (simp add: resizeIfDrifting_def Let_def)
  qed
qed

section \<open>One pass\<close>

lemma view_simps [simp]:
  "vw_pods (put_status b st v) = vw_pods v" "vw_workloads (put_pod p v) = vw_workloads v"
  "vw_workloads (drop_pod p v) = vw_workloads v"
  by (simp_all add: put_status_def put_pod_def drop_pod_def)

lemma put_pod_at: "(pod_Namespace p, pod_Name p) = k \<Longrightarrow> vw_pods (put_pod p v) k = Some p"
  by (auto simp: put_pod_def)

lemma drop_pod_at: "(pod_Namespace p, pod_Name p) = k \<Longrightarrow> vw_pods (drop_pod p v) k = None"
  by (auto simp: drop_pod_def)

lemma put_status_at:
  "same_object sw b \<Longrightarrow> vw_workloads (put_status b st v) (sw_Namespace sw, sw_Name sw) = Some (b\<lparr>sw_Status := st\<rparr>)"
  by (simp add: put_status_def same_objectD)

lemma own_view_drop:
  "own_view L sw v \<Longrightarrow> (pod_Namespace x, pod_Name x) = phantom_key sw \<Longrightarrow> own_view L sw (drop_pod x v) \<and> phase L sw D (drop_pod x v) = Missing"
  by (simp add: own_view_def drop_pod_at phase_def)

lemma own_view_put:
  "own_view L sw v \<Longrightarrow> settled_pod L sw D x \<Longrightarrow> \<not> DriftExceeds L D D (up_DeltaThresholdPercent (spec_Update (sw_Spec sw))) \<Longrightarrow>
    own_view L sw (put_pod x v) \<and> phase L sw D (put_pod x v) = Settled"
  by (auto simp: own_view_def settled_pod_def put_pod_at phase_def)

lemma own_view_status:
  assumes "own_view L sw v" "same_object sw b"
  shows "own_view L sw (put_status b st v) \<and> phase L sw D (put_status b st v) = phase L sw D v"
  using assms put_status_at [OF assms(2), of st v] by (auto simp: own_view_def phase_def)

lemma settled_pod_same: "same_object sw sw' \<Longrightarrow> settled_pod L sw' D p = settled_pod L sw D p"
  by (simp add: settled_pod_def phantom_key_def same_objectD ownedBySw_same)

text \<open>What the stored status says once a pass has left the pod alone.\<close>

definition reports_settled :: "'q lib \<Rightarrow> 'q ShadowWorkload \<Rightarrow> 'q view \<Rightarrow> bool" where
  "reports_settled L sw v \<longleftrightarrow>
     (\<exists>p sw' c. vw_pods v (phantom_key sw) = Some p \<and> vw_workloads v (sw_Namespace sw, sw_Name sw) = Some sw' \<and>
        st_PhantomPod (sw_Status sw') = PhantomName (sw_Name sw) \<and>
        st_CurrentCPU (sw_Status sw') = rp_CPU (CurrentPairOf L p) \<and>
        st_CurrentMemory (sw_Status sw') = rp_Memory (CurrentPairOf L p) \<and>
        k_FindStatusCondition L (st_Conditions (sw_Status sw')) conditionReady = Some c \<and>
        cd_Status c = ''True'' \<and> cd_Reason c = reasonWithinThreshold)"

text \<open>
  Everything the convergence rests on; the threshold is not negative and neither are the desired
  amounts.
\<close>

definition calm :: "'q lib \<Rightarrow> ('q, 'w) cluster \<Rightarrow> ('w \<Rightarrow> 'q view) \<Rightarrow> 'q ShadowWorkload \<Rightarrow> f64 \<Rightarrow> f64 \<Rightarrow> bool" where
  "calm L E view sw cpu mem \<longleftrightarrow>
     read_laws E view \<and> write_laws E view \<and> binding_laws L \<and> owner_laws L \<and> condition_laws L \<and>
     steady E view (sw_Spec sw) cpu mem \<and>
     0 \<le> sint (up_DeltaThresholdPercent (spec_Update (sw_Spec sw))) \<and>
     f_le (FFin 0) (q_AsApproximateFloat64 L (rp_CPU (pass_desired L sw cpu mem))) \<and>
     f_le (FFin 0) (q_AsApproximateFloat64 L (rp_Memory (pass_desired L sw cpu mem)))"

lemma calm_same: "same_object sw sw' \<Longrightarrow> calm L E view sw' cpu mem = calm L E view sw cpu mem"
  by (simp add: calm_def pass_desired_def same_objectD)

text \<open>A calm pass reaches the management of the pod healthy and without a write.\<close>

lemma calm_run:
  fixes E :: "('q, 'w) cluster" and V :: "'v vec_lib"
  assumes "calm L E view sw cpu mem" "reconcile_workload L V E (initial_pass sw rc w) = (res, q)"
  defines "D \<equiv> pass_desired L sw cpu mem"
  obtains p :: "('q, 'v, 'w) pass" where
    "view (ps_world p) = view w" "pod_writes (ps_trace p) = []" "ps_degradedReason p = []"
    "same_object sw (ps_sw p)" "phantom_key (ps_sw p) = phantom_key sw"
    "(case manage_phantom L V E D (pollInterval sw) p of
        (Inl e, p) \<Rightarrow> (Inl e, p) | (Inr (Return n), p) \<Rightarrow> (Inr n, p)
      | (Inr (Continue obs imm), p) \<Rightarrow> pass_suffix L V E sw obs imm p) = (res, q)"
    "\<And>m q1. manage_phantom L V E D (pollInterval sw) p = (Inr m, q1) \<Longrightarrow> pass_ok L sw q1"
    "cached_reads (ps_trace q) = [CGetPod Cached (sw_Namespace sw) (PhantomName (sw_Name sw)) (fst (get_phantom E Cached p))]"
proof -
  have env: "read_laws E view" "steady E view (sw_Spec sw) cpu mem" using assms(1) by (simp_all add: calm_def)
  obtain p :: "('q, 'v, 'w) pass" where p: "pass_prefix L V E (initial_pass sw rc w) = (Inr (True, cpu, mem), p)"
    "view (ps_world p) = view w" "pod_writes (ps_trace p) = []" "ps_degradedReason p = []"
    "cached_reads (ps_trace p) = []"
    by (rule steady_prefix [OF env(2,1)])
  note pre = pass_prefix_pass [OF p(1)]
  have ok: "pass_ok L sw p" and same: "same_object sw (ps_sw p)" using pre(1) by (simp_all add: pass_ok_def)
  have "pass_ok L sw q1" if "manage_phantom L V E D (pollInterval sw) p = (Inr m, q1)" for m q1
    using manage_phantom_pass(1) [OF that ok pre(3) _ pre(5) pollInterval_pos pre(2)] pre(4) by (simp add: D_def)
  moreover have run: "(case manage_phantom L V E D (pollInterval sw) p of
      (Inl e, p) \<Rightarrow> (Inl e, p) | (Inr (Return n), p) \<Rightarrow> (Inr n, p)
    | (Inr (Continue obs imm), p) \<Rightarrow> pass_suffix L V E sw obs imm p) = (res, q)"
    using assms(2) unfolding reconcile_workload_phases p(1) initial_pass_simps D_def by simp
  moreover have "cached_reads (ps_trace q) =
      [CGetPod Cached (sw_Namespace sw) (PhantomName (sw_Name sw)) (fst (get_phantom E Cached p))]"
  proof -
    obtain m q1 where m: "manage_phantom L V E D (pollInterval sw) p = (m, q1)" by (cases "manage_phantom L V E D (pollInterval sw) p")
    have "cached_reads (ps_trace q) = cached_reads (ps_trace q1)"
      using run m by (auto split: sum.splits managed.splits elim!: pass_suffix_cases simp: reported_def report_conditions_def Let_def)
    then show ?thesis using manage_reads [OF m read_lawsD(1) [OF env(1)]] same p(5) by (auto simp: same_objectD)
  qed
  ultimately show thesis using that [OF p(2-4) same] same by (simp add: phantom_key_def same_objectD)
qed

text \<open>A pass that goes on to its report stores the status and leaves the pods as management left them.\<close>

lemma calm_report:
  assumes "calm L E view sw cpu mem" "own_view L sw v1"
    and "pass_ok L sw q1" "view (ps_world q1) = v1" "pass_suffix L V E sw obs imm q1 = (res, q)"
  shows "own_view L sw (view (ps_world q))" "phase L sw D (view (ps_world q)) = phase L sw D v1"
    "res = Inr (if imm then 1 else pollInterval sw)" "pod_writes (ps_trace q) = pod_writes (ps_trace q1)"
    "vw_pods (view (ps_world q)) = vw_pods v1"
    "vw_workloads v1 (sw_Namespace sw, sw_Name sw) = Some sw \<Longrightarrow>
       view (ps_world q) = put_status sw (sw_Status (ps_sw (reported L V obs q1))) v1"
proof -
  have env: "read_laws E view" "write_laws E view" using assms(1) by (simp_all add: calm_def)
  obtain x where x: "vw_workloads v1 (sw_Namespace sw, sw_Name sw) = Some x" "same_object sw x"
    using assms(2) by (auto simp: own_view_def)
  then have st: "vw_workloads (view (ps_world q1)) (sw_Namespace sw, sw_Name sw) = Some x" using assms(4) by simp
  obtain q' st' where "pass_suffix L V E sw obs imm q1 = (Inr (if imm then 1 else pollInterval sw), q')"
    "view (ps_world q') = put_status x st' (view (ps_world q1))"
    "x = sw \<Longrightarrow> st' = sw_Status (ps_sw (reported L V obs q1))"
    "pod_writes (ps_trace q') = pod_writes (ps_trace q1)"
    by (rule accepted_suffix [OF env assms(3) st, of V obs imm]) (rule that)
  then show "own_view L sw (view (ps_world q))" "phase L sw D (view (ps_world q)) = phase L sw D v1"
    "res = Inr (if imm then 1 else pollInterval sw)" "pod_writes (ps_trace q) = pod_writes (ps_trace q1)"
    "vw_pods (view (ps_world q)) = vw_pods v1"
    "vw_workloads v1 (sw_Namespace sw, sw_Name sw) = Some sw \<Longrightarrow>
       view (ps_world q) = put_status sw (sw_Status (ps_sw (reported L V obs q1))) v1"
    using assms(4,5) x own_view_status [OF assms(2) x(2)] by simp_all
qed

text \<open>
  What a pass changes, when the cached client answers it with \<open>a\<close>: one step of the machine, and in
  the last phase nothing but the status, which is up to date if it was when it was read.
\<close>

definition progress ::
  "'q lib \<Rightarrow> 'q ShadowWorkload \<Rightarrow> 'q ShadowWorkload \<Rightarrow> phantom_phase \<Rightarrow> 'q ResourcePair \<Rightarrow> 'q view \<Rightarrow> 'q view \<Rightarrow>
   (reconcile_error + int) \<Rightarrow> 'q api_call list \<Rightarrow> bool" where
  "progress L sw rd ph D v v' res t \<longleftrightarrow>
     own_view L sw v' \<and> phase L sw D v' = next_phase ph \<and> res = Inr (next_delay (pollInterval sw) ph) \<and>
     (ph = Settled \<longrightarrow> pod_writes t = [] \<and> vw_pods v' = vw_pods v \<and>
        (vw_workloads v (sw_Namespace sw, sw_Name sw) = Some rd \<longrightarrow> reports_settled L sw v'))"

lemma pass_desired_same: "same_object sw sw' \<Longrightarrow> pass_desired L sw' cpu mem = pass_desired L sw cpu mem"
  by (simp add: pass_desired_def same_objectD)

lemma reports_settled_same: "same_object sw sw' \<Longrightarrow> reports_settled L sw' v = reports_settled L sw v"
  by (simp add: reports_settled_def phantom_key_def same_objectD)

lemma progress_same: "same_object sw sw' \<Longrightarrow> progress L sw' rd ph D v v' res t = progress L sw rd ph D v v' res t"
  using same_objectD(1,2) [of sw sw'] by (simp only: progress_def phase_same own_view_same pollInterval_same reports_settled_same)

lemma calm_settles:
  assumes "calm L E view sw cpu mem" "own_view L sw v" "settled_pod L sw' D x" "same_object sw sw'" "D = pass_desired L sw cpu mem"
  shows "own_view L sw (put_pod x v)" "phase L sw D (put_pod x v) = Settled"
proof -
  have "\<not> DriftExceeds L D D (up_DeltaThresholdPercent (spec_Update (sw_Spec sw)))"
    using assms(1,5) by (intro DriftExceeds_same) (simp_all add: calm_def)
  then show "own_view L sw (put_pod x v)" "phase L sw D (put_pod x v) = Settled"
    using own_view_put [OF assms(2)] assms(3) settled_pod_same [OF assms(4)] by blast+
qed

lemma pass_creates:
  fixes E :: "('q, 'w) cluster" and V :: "'v vec_lib"
  assumes c: "calm L E view sw cpu mem" and o: "own_view L sw (view w)"
    and shown: "CGetPod Cached (sw_Namespace sw) (PhantomName (sw_Name sw)) a \<in> set (ps_trace q)"
    and r: "reconcile_workload L V E (initial_pass sw rc w) = (res, q)"
    and n: "vw_pods (view w) (phantom_key sw) = None" "a = Inl NotFound"
  defines "D \<equiv> pass_desired L sw cpu mem"
  shows "progress L sw sw (observed_phase L sw D a (view w)) D (view w) (view (ps_world q)) res (ps_trace q)"
proof -
  obtain p :: "('q, 'v, 'w) pass" where p: "view (ps_world p) = view w" "pod_writes (ps_trace p) = []" "ps_degradedReason p = []"
    "same_object sw (ps_sw p)" "phantom_key (ps_sw p) = phantom_key sw"
    and run: "(case manage_phantom L V E D (pollInterval sw) p of
        (Inl e, p) \<Rightarrow> (Inl e, p) | (Inr (Return n), p) \<Rightarrow> (Inr n, p)
      | (Inr (Continue obs imm), p) \<Rightarrow> pass_suffix L V E sw obs imm p) = (res, q)"
    and ok: "\<And>m q1. manage_phantom L V E D (pollInterval sw) p = (Inr m, q1) \<Longrightarrow> pass_ok L sw q1"
    and get: "cached_reads (ps_trace q) = [CGetPod Cached (sw_Namespace sw) (PhantomName (sw_Name sw)) (fst (get_phantom E Cached p))]"
    by (rule calm_run [OF c r, folded D_def]) (rule that)
  have a: "fst (get_phantom E Cached p) = a" using shown get by (simp add: cached_reads_mem)
  have env: "read_laws E view" "write_laws E view" "binding_laws L" "owner_laws L" using c by (simp_all add: calm_def)
  have n': "vw_pods (view (ps_world p)) (phantom_key (ps_sw p)) = None" using n p by simp
  obtain pod q1 where m: "manage_phantom L V E D (pollInterval sw) p = (Inr (Continue (Some pod) False), q1)"
    "settled_pod L (ps_sw p) D pod" "view (ps_world q1) = put_pod pod (view (ps_world p))"
    by (rule manage_absent [OF env n' a [unfolded n(2)]])
  note put = calm_settles [OF c o m(2) p(4) D_def [THEN meta_eq_to_obj_eq]]
  have "pass_suffix L V E sw (Some pod) False q1 = (res, q)" using run m(1) by simp
  from calm_report [OF c put(1) ok [OF m(1)] _ this] show ?thesis
    using m(3) p(1) put(2) n by (simp add: progress_def observed_phase_def phase_def)
qed

lemma pass_deletes:
  fixes E :: "('q, 'w) cluster" and V :: "'v vec_lib"
  assumes c: "calm L E view sw cpu mem" and o: "own_view L sw (view w)"
    and shown: "CGetPod Cached (sw_Namespace sw) (PhantomName (sw_Name sw)) a \<in> set (ps_trace q)"
    and r: "reconcile_workload L V E (initial_pass sw rc w) = (res, q)"
    and x: "vw_pods (view w) (phantom_key sw) = Some x"
      "a = Inl NotFound \<or> a = Inr x \<and> managed_pod x \<and> pod_NodeName x \<noteq> spec_Node (sw_Spec sw)"
  defines "D \<equiv> pass_desired L sw cpu mem"
  shows "progress L sw sw (observed_phase L sw D a (view w)) D (view w) (view (ps_world q)) res (ps_trace q)"
proof -
  obtain p :: "('q, 'v, 'w) pass" where p: "view (ps_world p) = view w" "pod_writes (ps_trace p) = []" "ps_degradedReason p = []"
    "same_object sw (ps_sw p)" "phantom_key (ps_sw p) = phantom_key sw"
    and run: "(case manage_phantom L V E D (pollInterval sw) p of
        (Inl e, p) \<Rightarrow> (Inl e, p) | (Inr (Return n), p) \<Rightarrow> (Inr n, p)
      | (Inr (Continue obs imm), p) \<Rightarrow> pass_suffix L V E sw obs imm p) = (res, q)"
    and ok: "\<And>m q1. manage_phantom L V E D (pollInterval sw) p = (Inr m, q1) \<Longrightarrow> pass_ok L sw q1"
    and get: "cached_reads (ps_trace q) = [CGetPod Cached (sw_Namespace sw) (PhantomName (sw_Name sw)) (fst (get_phantom E Cached p))]"
    by (rule calm_run [OF c r, folded D_def]) (rule that)
  have a: "fst (get_phantom E Cached p) = a" using shown get by (simp add: cached_reads_mem)
  have env: "read_laws E view" "write_laws E view" "binding_laws L" "owner_laws L" using c by (simp_all add: calm_def)
  have x': "vw_pods (view (ps_world p)) (phantom_key (ps_sw p)) = Some x" "ownedBySw L x (ps_sw p)"
    "(pod_Namespace x, pod_Name x) = phantom_key (ps_sw p)"
    using x o p ownedBySw_same [OF p(4)] by (auto simp: own_view_def)
  have drop: "own_view L sw (drop_pod x (view w))" "phase L sw D (drop_pod x (view w)) = Missing"
    using own_view_drop [OF o, of x] x' p(5) by simp_all
  show ?thesis
  proof (cases "a = Inl NotFound")
    case False
    then have y: "a = Inr x" "managed_pod x" "pod_NodeName x \<noteq> spec_Node (sw_Spec sw)" using x(2) by simp_all
    then have "pod_NodeName x \<noteq> spec_Node (sw_Spec (ps_sw p))" using p(4) by (simp add: same_objectD)
    then obtain q1 where m: "manage_phantom L V E D (pollInterval sw) p = (Inr (Continue None True), q1)"
      "view (ps_world q1) = drop_pod x (view (ps_world p))"
      by (rule manage_elsewhere [OF env(1,2) x'(1) a [unfolded y(1)] x'(2,3)])
    have "pass_suffix L V E sw None True q1 = (res, q)" using run m(1) by simp
    from calm_report [OF c drop(1) ok [OF m(1)] _ this] show ?thesis
      using m(2) p(1) drop(2) x(1) y by (simp add: progress_def observed_phase_def phase_def)
  next
    case True
    obtain q1 where "manage_phantom L V E D (pollInterval sw) p = (Inr (Return (pollInterval sw)), q1)"
      "view (ps_world q1) = drop_pod x (view (ps_world p))"
      by (rule manage_hidden [OF env pollInterval_pos x'(1) a [unfolded True] x'(2,3)])
    then show ?thesis using run drop p(1) x(1) True by (auto simp: progress_def observed_phase_def)
  qed
qed

lemma pass_adjusts:
  fixes E :: "('q, 'w) cluster" and V :: "'v vec_lib"
  assumes c: "calm L E view sw cpu mem" and o: "own_view L sw (view w)"
    and shown: "CGetPod Cached (sw_Namespace sw) (PhantomName (sw_Name sw)) a \<in> set (ps_trace q)"
    and r: "reconcile_workload L V E (initial_pass sw rc w) = (res, q)"
    and x: "vw_pods (view w) (phantom_key sw) = Some x" "managed_pod x" "pod_NodeName x = spec_Node (sw_Spec sw)" "a = Inr x"
  defines "D \<equiv> pass_desired L sw cpu mem"
  shows "progress L sw sw (observed_phase L sw D a (view w)) D (view w) (view (ps_world q)) res (ps_trace q)"
proof -
  obtain p :: "('q, 'v, 'w) pass" where p: "view (ps_world p) = view w" "pod_writes (ps_trace p) = []" "ps_degradedReason p = []"
    "same_object sw (ps_sw p)" "phantom_key (ps_sw p) = phantom_key sw"
    and run: "(case manage_phantom L V E D (pollInterval sw) p of
        (Inl e, p) \<Rightarrow> (Inl e, p) | (Inr (Return n), p) \<Rightarrow> (Inr n, p)
      | (Inr (Continue obs imm), p) \<Rightarrow> pass_suffix L V E sw obs imm p) = (res, q)"
    and ok: "\<And>m q1. manage_phantom L V E D (pollInterval sw) p = (Inr m, q1) \<Longrightarrow> pass_ok L sw q1"
    and get: "cached_reads (ps_trace q) = [CGetPod Cached (sw_Namespace sw) (PhantomName (sw_Name sw)) (fst (get_phantom E Cached p))]"
    by (rule calm_run [OF c r, folded D_def]) (rule that)
  have a: "fst (get_phantom E Cached p) = a" using shown get by (simp add: cached_reads_mem)
  have env: "read_laws E view" "write_laws E view" "binding_laws L" "condition_laws L" using c by (simp_all add: calm_def)
  have x': "vw_pods (view (ps_world p)) (phantom_key (ps_sw p)) = Some x" "ownedBySw L x (ps_sw p)" "pod_Containers x \<noteq> []"
    "(pod_Namespace x, pod_Name x) = phantom_key (ps_sw p)" "pod_NodeName x = spec_Node (sw_Spec (ps_sw p))"
    and spec: "sw_Spec (ps_sw p) = sw_Spec sw"
    using x o p ownedBySw_same [OF p(4)] by (auto simp: own_view_def same_objectD)
  from env(1-3) p(3) x'(1) a [unfolded x(4)] x(2) x'(2,4,5,3) show ?thesis
  proof (cases rule: manage_here [where D = D and V = V and poll = "pollInterval sw"])
    case (resized pod q1)
    note put = calm_settles [OF c o resized(3) p(4) D_def [THEN meta_eq_to_obj_eq]]
    have "pass_suffix L V E sw (Some pod) False q1 = (res, q)" using run resized(1) by simp
    from calm_report [OF c put(1) ok [OF resized(1)] _ this] show ?thesis
      using resized(2,4) p(1) put(2) x spec by (simp add: progress_def observed_phase_def phase_def)
  next
    case (kept q1)
    let ?s = "sw_Status (ps_sw (reported L V (Some x) q1))"
    have "pass_suffix L V E sw (Some x) False q1 = (res, q)" using run kept(1) by simp
    note f = calm_report [OF c o ok [OF kept(1)] _ this]
    have v: "view (ps_world q1) = view w" using kept(3) p(1) by simp
    have last: "phase L sw D (view w) = Settled" "observed_phase L sw D a (view w) = Settled"
      using x kept(2) spec by (simp_all add: observed_phase_def phase_def)
    have "reports_settled L sw (view (ps_world q))" if "vw_workloads (view w) (sw_Namespace sw, sw_Name sw) = Some sw"
      using f(6) [OF v that] x(1) put_status_at [OF same_object_refl, of sw ?s "view w"] kept(5,6)
        reported_conditions(1) [OF env(4), of V "Some x" q1] pass_ok_objectD(1) [OF ok [OF kept(1)]]
      by (auto simp: reports_settled_def reported_currents reported_ready_def)
    then show ?thesis using f(1-5) [OF v] last kept(4) p(2) by (simp add: progress_def)
  qed
qed

section \<open>Repeated passes\<close>

lemma pass_progress:
  fixes E :: "('q, 'w) cluster" and V :: "'v vec_lib"
  assumes c: "calm L E view sw cpu mem" and o: "own_view L sw (view w)"
    and r: "Reconcile L V E (sw_Namespace sw) (sw_Name sw) rc w = (res, rc', t, w')"
    and x: "api_GetShadowWorkload E (sw_Namespace sw) (sw_Name sw) w = (Inr x, w0)" "same_object sw x"
    and shown: "CGetPod Cached (sw_Namespace sw) (PhantomName (sw_Name sw)) a \<in> set t"
    and a: "a \<in> {Inl NotFound, found (visible (vw_pods (view w) (phantom_key sw)))}"
  defines "D \<equiv> pass_desired L sw cpu mem"
  shows "progress L sw x (observed_phase L sw D a (view w)) D (view w) (view w') res t"
proof -
  have v: "view w0 = view w" using c x(1) read_lawsD(2) [of E view] by (metis calm_def snd_conv)
  obtain q :: "('q, 'v, 'w) pass" where q: "reconcile_workload L V E (initial_pass x rc w0) = (res, q)"
    "t = ps_trace q" "w' = ps_world q"
    using r x(1) by (auto simp: Reconcile_def Let_def split: prod.splits)
  have c1: "calm L E view x cpu mem" and o1: "own_view L x (view w0)"
    using c o v calm_same [OF x(2), of L E view cpu mem] own_view_same [OF x(2)] by simp_all
  have s1: "CGetPod Cached (sw_Namespace x) (PhantomName (sw_Name x)) a \<in> set (ps_trace q)"
    using shown q(2) x(2) by (simp add: same_objectD)
  have k: "phantom_key x = phantom_key sw" using x(2) by (simp add: phantom_key_def same_objectD)
  let ?goal = "progress L x x (observed_phase L x (pass_desired L x cpu mem) a (view w0)) (pass_desired L x cpu mem)
    (view w0) (view (ps_world q)) res (ps_trace q)"
  have ?goal
  proof (cases "vw_pods (view w0) (phantom_key x)")
    case None
    then have n: "a = Inl NotFound" using a k v by (auto simp: found_def visible_def)
    show ?thesis by (rule pass_creates [OF c1 o1 s1 q(1) None n])
  next
    case (Some y)
    then have a': "a = Inl NotFound \<or> a = Inr y \<and> managed_pod y"
      using a k v by (auto simp: found_def visible_def split: if_splits)
    show ?thesis
    proof (cases "a = Inr y \<and> managed_pod y \<and> pod_NodeName y = spec_Node (sw_Spec x)")
      case True
      then have y: "managed_pod y" "pod_NodeName y = spec_Node (sw_Spec x)" "a = Inr y" by simp_all
      show ?thesis by (rule pass_adjusts [OF c1 o1 s1 q(1) Some y])
    next
      case False
      with a' have d: "a = Inl NotFound \<or> a = Inr y \<and> managed_pod y \<and> pod_NodeName y \<noteq> spec_Node (sw_Spec x)" by blast
      show ?thesis by (rule pass_deletes [OF c1 o1 s1 q(1) Some d])
    qed
  qed
  then show ?thesis
    unfolding progress_same [OF x(2)] v pass_desired_same [OF x(2)] observed_phase_same [OF x(2)] D_def q(2,3) .
qed

text \<open>The pod is read once, with the store as it was at the start.\<close>

lemma pass_reads_once:
  fixes E :: "('q, 'w) cluster" and V :: "'v vec_lib"
  assumes c: "calm L E view sw cpu mem" and r: "Reconcile L V E (sw_Namespace sw) (sw_Name sw) rc w = (res, rc', t, w')"
    and x: "api_GetShadowWorkload E (sw_Namespace sw) (sw_Name sw) w = (Inr x, w0)" "same_object sw x"
  obtains wr where "view wr = view w"
    "cached_reads t = [CGetPod Cached (sw_Namespace sw) (PhantomName (sw_Name sw))
       (fst (api_GetPod E Cached (sw_Namespace sw) (PhantomName (sw_Name sw)) wr))]"
proof -
  have v: "view w0 = view w" using c x(1) read_lawsD(2) [of E view] by (metis calm_def snd_conv)
  obtain q where q: "reconcile_workload L V E (initial_pass x rc w0) = (res, q)" "t = ps_trace q"
    using r x(1) by (auto simp: Reconcile_def Let_def split: prod.splits)
  have c1: "calm L E view x cpu mem" using c calm_same [OF x(2), of L E view cpu mem] by simp
  obtain p :: "('q, 'v, 'w) pass" where "view (ps_world p) = view w0" "same_object x (ps_sw p)"
    "cached_reads (ps_trace q) = [CGetPod Cached (sw_Namespace x) (PhantomName (sw_Name x)) (fst (get_phantom E Cached p))]"
    by (rule calm_run [OF c1 q(1)]) blast
  then show thesis using that [of "ps_world p"] q(2) v x(2) by (simp add: request_eq same_objectD)
qed

text \<open>A pass to which the cached client shows the workload and its pod as they are stored.\<close>

definition caught_up ::
  "('q, 'w) cluster \<Rightarrow> ('w \<Rightarrow> 'q view) \<Rightarrow> 'q ShadowWorkload \<Rightarrow> 'w \<Rightarrow> 'q api_call list \<Rightarrow> bool" where
  "caught_up E view sw w t \<longleftrightarrow>
     fst (api_GetShadowWorkload E (sw_Namespace sw) (sw_Name sw) w) = found (vw_workloads (view w) (sw_Namespace sw, sw_Name sw)) \<and>
     (\<forall>a. CGetPod Cached (sw_Namespace sw) (PhantomName (sw_Name sw)) a \<in> set t \<longrightarrow>
        a = found (visible (vw_pods (view w) (phantom_key sw))))"

lemma caught_up_progress:
  assumes c: "calm L E view sw cpu mem" and o: "own_view L sw (view w)"
    and r: "Reconcile L V E (sw_Namespace sw) (sw_Name sw) rc w = (res, rc', t, w')" and u: "caught_up E view sw w t"
  defines "D \<equiv> pass_desired L sw cpu mem"
  obtains x where "vw_workloads (view w) (sw_Namespace sw, sw_Name sw) = Some x"
    "progress L sw x (phase L sw D (view w)) D (view w) (view w') res t"
proof -
  obtain x where x: "same_object sw x" "vw_workloads (view w) (sw_Namespace sw, sw_Name sw) = Some x"
    using o by (auto simp: own_view_def)
  obtain w0 where w0: "api_GetShadowWorkload E (sw_Namespace sw) (sw_Name sw) w = (Inr x, w0)"
    using u x(2) by (cases "api_GetShadowWorkload E (sw_Namespace sw) (sw_Name sw) w") (auto simp: caught_up_def found_def)
  have "progress L sw x (observed_phase L sw D (found (visible (vw_pods (view w) (phantom_key sw)))) (view w)) D
      (view w) (view w') res t"
  proof -
    obtain wr where "cached_reads t = [CGetPod Cached (sw_Namespace sw) (PhantomName (sw_Name sw))
       (fst (api_GetPod E Cached (sw_Namespace sw) (PhantomName (sw_Name sw)) wr))]"
      by (rule pass_reads_once [OF c r w0 x(1)])
    then have "CGetPod Cached (sw_Namespace sw) (PhantomName (sw_Name sw))
       (fst (api_GetPod E Cached (sw_Namespace sw) (PhantomName (sw_Name sw)) wr)) \<in> set t" by (simp add: cached_reads_mem)
    with u have "CGetPod Cached (sw_Namespace sw) (PhantomName (sw_Name sw)) (found (visible (vw_pods (view w) (phantom_key sw)))) \<in> set t"
      by (auto simp: caught_up_def)
    from pass_progress [OF c o r w0 x(1) this] show ?thesis by (simp add: D_def)
  qed
  then show thesis using that x(2) by simp
qed

text \<open>The controller works on one request at a time, in the order of its queue.\<close>

fun run_requests ::
  "'q lib \<Rightarrow> 'v vec_lib \<Rightarrow> ('q, 'w) cluster \<Rightarrow> (string \<times> string) list \<Rightarrow> 'v Recorder option \<times> 'w \<Rightarrow> 'v Recorder option \<times> 'w" where
  "run_requests L V E [] x = x"
| "run_requests L V E ((ns, n) # reqs) (rc, w) =
     (let (res, rc', t, w') = Reconcile L V E ns n rc w in run_requests L V E reqs (rc', w'))"

text \<open>Every pass over the workload finds the cache caught up.\<close>

fun caught_up_run ::
  "'q lib \<Rightarrow> 'v vec_lib \<Rightarrow> ('q, 'w) cluster \<Rightarrow> ('w \<Rightarrow> 'q view) \<Rightarrow> 'q ShadowWorkload \<Rightarrow> (string \<times> string) list \<Rightarrow>
   'v Recorder option \<times> 'w \<Rightarrow> bool" where
  "caught_up_run L V E view sw [] x = True"
| "caught_up_run L V E view sw ((ns, n) # reqs) (rc, w) =
     (let (res, rc', t, w') = Reconcile L V E ns n rc w
      in ((ns, n) = (sw_Namespace sw, sw_Name sw) \<longrightarrow> caught_up E view sw w t) \<and>
         caught_up_run L V E view sw reqs (rc', w'))"

text \<open>A request for another workload: none whose phantom has the same name.\<close>

definition apart :: "'q ShadowWorkload \<Rightarrow> string \<times> string \<Rightarrow> bool" where
  "apart sw req \<longleftrightarrow> req \<noteq> (sw_Namespace sw, sw_Name sw) \<and> (fst req, PhantomName (snd req)) \<noteq> phantom_key sw"

lemma touched_apart:
  assumes "touched L so t v v'" "apart sw (sw_Namespace so, sw_Name so)"
  shows "vw_workloads v' (sw_Namespace sw, sw_Name sw) = vw_workloads v (sw_Namespace sw, sw_Name sw)"
    "vw_pods v' (phantom_key sw) = vw_pods v (phantom_key sw)"
  using assms by (auto simp: touched_def apart_def phantom_key_def)

lemma pass_apart:
  assumes "Reconcile L V E ns n rc w = (res, rc', t, w')" "frame_laws E view" "binding_laws L" "owner_laws L"
    and "apart sw (ns, n)"
  shows "own_view L sw (view w') = own_view L sw (view w)" "phase L sw D (view w') = phase L sw D (view w)"
proof -
  have "vw_workloads (view w') (sw_Namespace sw, sw_Name sw) = vw_workloads (view w) (sw_Namespace sw, sw_Name sw) \<and>
      vw_pods (view w') (phantom_key sw) = vw_pods (view w) (phantom_key sw)"
    using Reconcile_touches [OF assms(1-4)] touched_apart [of L _ t "view w" "view w'" sw] assms(5) by auto
  then show "own_view L sw (view w') = own_view L sw (view w)" "phase L sw D (view w') = phase L sw D (view w)"
    by (simp_all add: own_view_def phase_def)
qed

lemma run_requests_progress:
  assumes "calm L E view sw cpu mem" "frame_laws E view" "own_view L sw (view w)"
    and "\<And>r. r \<in> set reqs \<Longrightarrow> r = (sw_Namespace sw, sw_Name sw) \<or> apart sw r"
    and "run_requests L V E reqs (rc, w) = (rck, wk)" "caught_up_run L V E view sw reqs (rc, w)"
  shows "own_view L sw (view wk) \<and>
    steps_left (phase L sw (pass_desired L sw cpu mem) (view wk)) \<le>
      steps_left (phase L sw (pass_desired L sw cpu mem) (view w)) - count_list reqs (sw_Namespace sw, sw_Name sw)"
  using assms(3-6)
proof (induction reqs arbitrary: rc w)
  case (Cons r reqs)
  obtain ns n where r: "r = (ns, n)" by (cases r)
  obtain res rc' t w' where p: "Reconcile L V E ns n rc w = (res, rc', t, w')" by (rule prod_cases4)
  have run: "run_requests L V E reqs (rc', w') = (rck, wk)" using Cons.prems(3) r p by simp
  have up: "caught_up_run L V E view sw reqs (rc', w')" using Cons.prems(4) r p by simp
  have laws: "binding_laws L" "owner_laws L" using assms(1) by (simp_all add: calm_def)
  show ?case
  proof (cases "r = (sw_Namespace sw, sw_Name sw)")
    case True
    with r have ns: "ns = sw_Namespace sw" "n = sw_Name sw" by simp_all
    have u: "caught_up E view sw w t" using Cons.prems(4) r p ns by simp
    obtain x where "progress L sw x (phase L sw (pass_desired L sw cpu mem) (view w)) (pass_desired L sw cpu mem) (view w) (view w') res t"
      by (rule caught_up_progress [OF assms(1) Cons.prems(1) p [unfolded ns] u])
    then show ?thesis using Cons.IH [OF _ _ run up] Cons.prems(2) True by (auto simp: progress_def steps_left_next)
  next
    case False
    then have "apart sw (ns, n)" using Cons.prems(2) r by fastforce
    from pass_apart [OF p assms(2) laws this] show ?thesis
      using Cons.IH [OF _ _ run up] Cons.prems(1,2) False by auto
  qed
qed simp

text \<open>A cache without any lag, which shows every pass the store, is caught up in every pass.\<close>

definition shows_the_store :: "('q, 'w) cluster \<Rightarrow> ('w \<Rightarrow> 'q view) \<Rightarrow> bool" where
  "shows_the_store E view \<longleftrightarrow>
     (\<forall>ns n w. fst (api_GetShadowWorkload E ns n w) = found (vw_workloads (view w) (ns, n))) \<and>
     (\<forall>ns n w. fst (api_GetPod E Cached ns n w) = found (visible (vw_pods (view w) (ns, n))))"

lemma prompt_caught_up:
  assumes c: "calm L E view sw cpu mem" and e: "shows_the_store E view" and o: "own_view L sw (view w)"
    and r: "Reconcile L V E (sw_Namespace sw) (sw_Name sw) rc w = (res, rc', t, w')"
  shows "caught_up E view sw w t"
proof -
  obtain x where x: "same_object sw x" "vw_workloads (view w) (sw_Namespace sw, sw_Name sw) = Some x"
    using o by (auto simp: own_view_def)
  have "fst (api_GetShadowWorkload E (sw_Namespace sw) (sw_Name sw) w) = Inr x"
    using e x(2) by (simp add: shows_the_store_def found_def)
  then obtain w0 where w0: "api_GetShadowWorkload E (sw_Namespace sw) (sw_Name sw) w = (Inr x, w0)"
    by (cases "api_GetShadowWorkload E (sw_Namespace sw) (sw_Name sw) w") simp
  obtain wr where "view wr = view w" "cached_reads t = [CGetPod Cached (sw_Namespace sw) (PhantomName (sw_Name sw))
       (fst (api_GetPod E Cached (sw_Namespace sw) (PhantomName (sw_Name sw)) wr))]"
    by (rule pass_reads_once [OF c r w0 x(1)])
  then show ?thesis using e by (simp add: caught_up_def cached_reads_mem shows_the_store_def phantom_key_def)
qed

lemma prompt_caught_up_run:
  assumes "calm L E view sw cpu mem" "shows_the_store E view" "frame_laws E view" "own_view L sw (view w)"
    and "\<And>r. r \<in> set reqs \<Longrightarrow> r = (sw_Namespace sw, sw_Name sw) \<or> apart sw r"
    and "run_requests L V E reqs (rc, w) = (rck, wk)"
  shows "caught_up_run L V E view sw reqs (rc, w)" "own_view L sw (view wk)"
proof -
  show u: "caught_up_run L V E view sw reqs (rc, w)"
    using assms(4-6)
  proof (induction reqs arbitrary: rc w)
    case (Cons r reqs)
    obtain ns n where r: "r = (ns, n)" by (cases r)
    obtain res rc' t w' where p: "Reconcile L V E ns n rc w = (res, rc', t, w')" by (rule prod_cases4)
    have run: "run_requests L V E reqs (rc', w') = (rck, wk)" using Cons.prems(3) r p by simp
    have laws: "binding_laws L" "owner_laws L" using assms(1) by (simp_all add: calm_def)
    show ?case
    proof (cases "(ns, n) = (sw_Namespace sw, sw_Name sw)")
      case True
      then have ns: "ns = sw_Namespace sw" "n = sw_Name sw" by simp_all
      have u: "caught_up E view sw w t" by (rule prompt_caught_up [OF assms(1,2) Cons.prems(1) p [unfolded ns]])
      have "own_view L sw (view w')"
        by (rule caught_up_progress [OF assms(1) Cons.prems(1) p [unfolded ns] u]) (simp add: progress_def)
      then show ?thesis using Cons.IH [OF _ _ run] Cons.prems(2) u r p by simp
    next
      case False
      then have "apart sw (ns, n)" using Cons.prems(2) r by fastforce
      from pass_apart(1) [OF p assms(3) laws this] show ?thesis
        using Cons.IH [OF _ _ run] Cons.prems(1,2) False r p by auto
    qed
  qed simp
  show "own_view L sw (view wk)" using run_requests_progress [OF assms(1,3-6) u] by simp
qed

section \<open>Before the calm\<close>

text \<open>
  What no history of the cluster may take away: the workload is stored, in whatever generation, and
  no pod of another owner has its phantom's name.
\<close>

definition holds_place :: "'q lib \<Rightarrow> 'q ShadowWorkload \<Rightarrow> 'q view \<Rightarrow> bool" where
  "holds_place L sw v \<longleftrightarrow>
     (\<exists>x. vw_workloads v (sw_Namespace sw, sw_Name sw) = Some x \<and> sw_UID x = sw_UID sw) \<and>
     (\<forall>p. vw_pods v (phantom_key sw) = Some p \<longrightarrow> own_pod L sw p)"

lemma own_view_holds_place:
  "own_view L sw v \<longleftrightarrow>
     holds_place L sw v \<and> (\<exists>x. vw_workloads v (sw_Namespace sw, sw_Name sw) = Some x \<and> same_object sw x)"
  by (auto simp: own_view_def holds_place_def own_pod_def shaped_def dest: same_objectD(3))

text \<open>While a workload is stored, what is read of it is of this incarnation, maybe of another generation.\<close>

definition identifies :: "'q lib \<Rightarrow> ('q, 'w) cluster \<Rightarrow> ('w \<Rightarrow> 'q view) \<Rightarrow> 'q ShadowWorkload \<Rightarrow> bool" where
  "identifies L E view sw \<longleftrightarrow>
     (\<forall>w x. holds_place L sw (view w) \<and> fst (api_GetShadowWorkload E (sw_Namespace sw) (sw_Name sw) w) = Inr x \<longrightarrow>
        sw_UID x = sw_UID sw)"

text \<open>
  What may happen in any order: a pass, answered in any way that the frame allows; an edit of the
  workload; the removal of its pod by others; any change to other objects.
\<close>

inductive disturbed ::
  "'q lib \<Rightarrow> 'v vec_lib \<Rightarrow> ('w \<Rightarrow> 'q view) \<Rightarrow> 'q ShadowWorkload \<Rightarrow> 'w \<Rightarrow> 'w \<Rightarrow> bool" for L V view sw where
  attempted: "Reconcile L V F ns n rc w = (res, rc', t, w') \<Longrightarrow> frame_laws F view \<Longrightarrow> identifies L F view sw \<Longrightarrow>
    (ns, n) = (sw_Namespace sw, sw_Name sw) \<or> apart sw (ns, n) \<Longrightarrow> disturbed L V view sw w w'"
| edited: "vw_workloads (view w) (sw_Namespace sw, sw_Name sw) = Some x \<Longrightarrow>
    view w' = (view w)\<lparr>vw_workloads := (vw_workloads (view w))
      ((sw_Namespace sw, sw_Name sw) \<mapsto> x\<lparr>sw_Generation := g, sw_Spec := spec\<rparr>)\<rparr> \<Longrightarrow> disturbed L V view sw w w'"
| removed: "view w' = (view w)\<lparr>vw_pods := (vw_pods (view w))(phantom_key sw := None)\<rparr> \<Longrightarrow> disturbed L V view sw w w'"
| elsewhere: "vw_pods (view w') (phantom_key sw) = vw_pods (view w) (phantom_key sw) \<Longrightarrow>
    vw_workloads (view w') (sw_Namespace sw, sw_Name sw) = vw_workloads (view w) (sw_Namespace sw, sw_Name sw) \<Longrightarrow>
    disturbed L V view sw w w'"

lemma touched_holds_place:
  assumes "touched L so t v v'" "(sw_Namespace so, sw_Name so) = (sw_Namespace sw, sw_Name sw)" "sw_UID so = sw_UID sw"
    and "holds_place L sw v"
  shows "holds_place L sw v'"
proof -
  have k: "phantom_key so = phantom_key sw" "own_pod L so = own_pod L sw"
    using assms(2,3) by (auto simp: fun_eq_iff own_pod_def phantom_key_def ownedBySw_def split: option.split)
  have "pred_option (own_pod L sw) (vw_pods v (phantom_key sw))"
    using assms(4) by (cases "vw_pods v (phantom_key sw)") (auto simp: holds_place_def)
  then have p: "pred_option (own_pod L sw) (vw_pods v' (phantom_key sw))"
    "rel_option same_object (vw_workloads v (sw_Namespace sw, sw_Name sw)) (vw_workloads v' (sw_Namespace sw, sw_Name sw))"
    using assms(1,2) k unfolding touched_def by auto
  obtain x where x: "vw_workloads v (sw_Namespace sw, sw_Name sw) = Some x" "sw_UID x = sw_UID sw"
    using assms(4) by (auto simp: holds_place_def)
  then obtain y where y: "vw_workloads v' (sw_Namespace sw, sw_Name sw) = Some y" "same_object x y"
    using p(2) by (auto simp: option_rel_Some1)
  have "sw_UID y = sw_UID sw" using same_objectD(3) [OF y(2)] x(2) by simp
  then show ?thesis using p(1) y(1) by (auto simp: holds_place_def)
qed

lemma touched_elsewhere:
  assumes "touched L so t v v'" "apart sw (sw_Namespace so, sw_Name so)"
  shows "holds_place L sw v' = holds_place L sw v"
  using touched_apart [OF assms] by (simp add: holds_place_def)

lemma attempt_holds_place:
  assumes "Reconcile L V E ns n rc w = (res, rc', t, w')" "frame_laws E view" "binding_laws L" "owner_laws L"
    and "identifies L E view sw" "(ns, n) = (sw_Namespace sw, sw_Name sw) \<or> apart sw (ns, n)" "holds_place L sw (view w)"
  shows "holds_place L sw (view w')"
  using Reconcile_touches [OF assms(1-4)]
proof (elim disjE exE conjE)
  fix so w0
  assume so: "api_GetShadowWorkload E ns n w = (Inr so, w0)" "(sw_Namespace so, sw_Name so) = (ns, n)"
    and t: "touched L so t (view w) (view w')"
  show ?thesis using assms(6)
  proof
    assume own: "(ns, n) = (sw_Namespace sw, sw_Name sw)"
    then have "fst (api_GetShadowWorkload E (sw_Namespace sw) (sw_Name sw) w) = Inr so" using so(1) by simp
    then have u: "sw_UID so = sw_UID sw" using assms(5,7) unfolding identifies_def by blast
    show ?thesis by (rule touched_holds_place [OF t _ u assms(7)]) (use so(2) own in simp)
  qed (use touched_elsewhere [OF t] so(2) assms(7) in simp)
qed (use assms(7) in simp)

lemma disturbed_holds_place:
  assumes "(disturbed L V view sw)\<^sup>*\<^sup>* w w0" "binding_laws L" "owner_laws L" "holds_place L sw (view w)"
  shows "holds_place L sw (view w0)"
  using assms(1,4)
proof (induction rule: rtranclp_induct)
  case (step v u)
  then have "holds_place L sw (view v)" by blast
  with step.hyps(2) show ?case
  proof cases
    case (attempted F ns n rc res rc' t)
    from attempt_holds_place [OF attempted(1,2) assms(2,3) attempted(3,4) \<open>holds_place L sw (view v)\<close>] show ?thesis .
  qed (auto simp: holds_place_def)
qed

text \<open>A pass keeps what is stored of the workload, up to its status.\<close>

lemma attempt_keeps_stored:
  assumes "Reconcile L V E (sw_Namespace sw) (sw_Name sw) rc w = (res, rc', t, w')"
    and "frame_laws E view" "binding_laws L" "owner_laws L"
    and "vw_workloads (view w) (sw_Namespace sw, sw_Name sw) = Some x"
  shows "\<exists>y. vw_workloads (view w') (sw_Namespace sw, sw_Name sw) = Some y \<and> same_object x y"
  using Reconcile_touches [OF assms(1-4)]
proof (elim disjE exE conjE)
  fix so w0
  assume so: "(sw_Namespace so, sw_Name so) = (sw_Namespace sw, sw_Name sw)" and t: "touched L so t (view w) (view w')"
  have "rel_option same_object (Some x) (vw_workloads (view w') (sw_Namespace sw, sw_Name sw))"
    using t so assms(5) unfolding touched_def by simp
  then show ?thesis by (auto simp: option_rel_Some1)
qed (use assms(5) in simp)

end
