(* ===== verification/Convergence_Properties.thy ===== *)
theory Convergence_Properties
  imports Convergence Example_Cluster
begin

text \<open>
  The loop settles: the property of repeated passes, and a concrete store of pods and workloads
  on which its hypotheses hold.
\<close>

section \<open>A store\<close>

text \<open>The objects of a store are under their own names: what is filed elsewhere is not there.\<close>

definition keyed :: "rat view \<Rightarrow> rat view" where
  "keyed v =
     \<lparr>vw_pods = (\<lambda>k. case vw_pods v k of None \<Rightarrow> None | Some p \<Rightarrow> if (pod_Namespace p, pod_Name p) = k then Some p else None),
      vw_workloads = (\<lambda>k. case vw_workloads v k of None \<Rightarrow> None | Some x \<Rightarrow> if (sw_Namespace x, sw_Name x) = k then Some x else None)\<rparr>"

lemma keyed_pod: "vw_pods (keyed v) k = Some p \<Longrightarrow> k = (pod_Namespace p, pod_Name p)"
  by (auto simp: keyed_def split: option.splits if_splits)

lemma keyed_workload: "vw_workloads (keyed v) k = Some x \<Longrightarrow> k = (sw_Namespace x, sw_Name x)"
  by (auto simp: keyed_def split: option.splits if_splits)

lemma keyed_id:
  assumes "\<And>k p. vw_pods v k = Some p \<Longrightarrow> k = (pod_Namespace p, pod_Name p)"
    "\<And>k x. vw_workloads v k = Some x \<Longrightarrow> k = (sw_Namespace x, sw_Name x)"
  shows "keyed v = v"
proof -
  have "vw_pods (keyed v) k = vw_pods v k" "vw_workloads (keyed v) k = vw_workloads v k" for k
    using assms(1) [of k] assms(2) [of k] by (auto simp: keyed_def split: option.split)
  then show ?thesis by (cases v; cases "keyed v") (simp add: fun_eq_iff)
qed

lemma keyed_writes [simp]:
  "keyed (keyed v) = keyed v" "keyed (put_pod p (keyed v)) = put_pod p (keyed v)"
  "keyed (drop_pod p (keyed v)) = drop_pod p (keyed v)" "keyed (put_status b st (keyed v)) = put_status b st (keyed v)"
  by (rule keyed_id; auto simp: put_pod_def drop_pod_def put_status_def split: if_splits dest: keyed_pod keyed_workload)+

definition store_create :: "rat pod \<Rightarrow> rat view \<Rightarrow> (api_error + rat pod) \<times> rat view" where
  "store_create p v =
     (case vw_pods (keyed v) (pod_Namespace p, pod_Name p) of
        Some _ \<Rightarrow> (Inl AlreadyExists, v)
      | None \<Rightarrow> let q = p\<lparr>pod_UID := ''new'', pod_ResourceVersion := ''1''\<rparr> in (Inr q, put_pod q (keyed v)))"

definition store_delete :: "rat pod \<Rightarrow> delete_options \<Rightarrow> rat view \<Rightarrow> api_error option \<times> rat view" where
  "store_delete p opts v =
     (case vw_pods (keyed v) (pod_Namespace p, pod_Name p) of
        None \<Rightarrow> (Some NotFound, v)
      | Some x \<Rightarrow> if pod_UID x = do_UID opts then (None, drop_pod p (keyed v)) else (Some Conflict, v))"

definition store_resize :: "rat pod \<Rightarrow> rat pod \<Rightarrow> rat view \<Rightarrow> (api_error + rat pod) \<times> rat view" where
  "store_resize b p v =
     (case vw_pods (keyed v) (pod_Namespace b, pod_Name b) of
        None \<Rightarrow> (Inl NotFound, v)
      | Some x \<Rightarrow>
          if pod_UID x = pod_UID b \<and> pod_ResourceVersion x = pod_ResourceVersion b
          then let q = x\<lparr>pod_Containers := pod_Containers p, pod_ResourceVersion := ''2''\<rparr> in (Inr q, put_pod q (keyed v))
          else (Inl Conflict, v))"

definition store_status :: "rat ShadowWorkload \<Rightarrow> rat ShadowWorkload \<Rightarrow> rat view \<Rightarrow> api_error option \<times> rat view" where
  "store_status b s v =
     (case vw_workloads (keyed v) (sw_Namespace b, sw_Name b) of
        None \<Rightarrow> (Some NotFound, v)
      | Some x \<Rightarrow> (None, put_status x (sw_Status s) (keyed v)))"

definition store_cluster :: "(rat, rat view) cluster" where
  "store_cluster =
     \<lparr>has_APIReader = True,
      api_GetShadowWorkload = (\<lambda>ns n v. (found (vw_workloads (keyed v) (ns, n)), v)),
      api_GetNode = (\<lambda>rd n v. (Inr example_node, v)),
      api_GetPriorityClass = (\<lambda>rd n v. (Inr (), v)),
      api_GetPod = (\<lambda>rd ns n v.
        let x = vw_pods (keyed v) (ns, n) in (found (case rd of Cached \<Rightarrow> visible x | Uncached \<Rightarrow> x), v)),
      api_CreatePod = store_create, api_DeletePod = store_delete, api_PatchResize = store_resize,
      api_PatchStatus = store_status,
      api_Event = (\<lambda>ty r m v. v),
      time_Now = (\<lambda>v. (At 0, v)),
      QuerierFor = (\<lambda>url. Inr (\<lambda>q v. (Inr (FFin 1, FFin 5000, True), v)))\<rparr>"

lemmas store_defs = store_cluster_def store_create_def store_delete_def store_resize_def store_status_def

lemma put_pod_fold: "(pod_Namespace q, pod_Name q) = k \<Longrightarrow> v\<lparr>vw_pods := (vw_pods v)(k \<mapsto> q)\<rparr> = put_pod q v"
  by (auto simp: put_pod_def)

lemma put_status_fold:
  "(sw_Namespace b, sw_Name b) = k \<Longrightarrow> v\<lparr>vw_workloads := (vw_workloads v)(k \<mapsto> b\<lparr>sw_Status := st\<rparr>)\<rparr> = put_status b st v"
  by (auto simp: put_status_def)



lemma store_frame: "frame_laws store_cluster keyed"
proof -
  have "read_frame store_cluster keyed" by (auto simp: read_frame_def store_defs Let_def)
  moreover have "answer_frame store_cluster keyed"
    by (auto simp: answer_frame_def same_version_def store_defs found_def visible_def Let_def
        split: option.splits if_splits reader.splits dest: keyed_pod keyed_workload)
  moreover have "create_frame store_cluster keyed"
    by (auto simp: create_frame_def store_defs Let_def split: option.split)
  moreover have "delete_frame store_cluster keyed"
    by (auto simp: delete_frame_def store_defs split: option.split)
  moreover have "resize_frame store_cluster keyed"
    by (auto simp: resize_frame_def store_defs Let_def put_pod_fold split: option.split dest!: keyed_pod)
  moreover have "status_frame store_cluster keyed"
    by (auto simp: status_frame_def store_defs put_status_fold split: option.split dest!: keyed_workload)
  ultimately show ?thesis by (simp add: frame_laws_def)
qed




lemma rat_lib_binding_laws: "binding_laws rat_lib"
  by (auto simp: binding_laws_def rat_lib_def)


text \<open>The workload with a pod on another node, and a second workload without one.\<close>

definition stray_pod :: "rat pod" where
  "stray_pod = (example_pod ''node-b'' \<lparr>rp_CPU = 1, rp_Memory = 5000\<rparr>)\<lparr>pod_Labels := [LabelManagedBy \<mapsto> ManagedByValue]\<rparr>"

definition other_sw :: "rat ShadowWorkload" where
  "other_sw = example_sw\<lparr>sw_Name := ''web'', sw_UID := ''uid-2''\<rparr>"

definition stray_view :: "rat view" where
  "stray_view = \<lparr>vw_pods = [(''ns'', ''shadow-db'') \<mapsto> stray_pod],
     vw_workloads = [(''ns'', ''db'') \<mapsto> example_sw, (''ns'', ''web'') \<mapsto> other_sw]\<rparr>"

lemma stray_keyed [simp]: "keyed stray_view = stray_view"
  by (rule keyed_id) (auto simp: stray_view_def stray_pod_def example_pod_def other_sw_def split: if_splits)

lemma stray_at:
  "vw_workloads stray_view (''ns'', ''db'') = Some example_sw" "vw_pods stray_view (''ns'', ''shadow-db'') = Some stray_pod"
  by (simp_all add: stray_view_def)


lemma other_apart: "apart example_sw (''ns'', ''web'')"
  by (simp add: apart_def phantom_key_def example_PhantomName) (simp add: PhantomName_def PhantomNamePrefix_def MaxPodNameLength_def)

section \<open>Passes keep apart\<close>

lemma status_self: "\<exists>st. x = x\<lparr>sw_Status := st\<rparr>"
  by (rule exI [of _ "sw_Status x"]) simp

text \<open>C4: whatever the cluster answers a pass, with errors and with reads that lag behind the store in
  any way, as long as each write keeps the preconditions it carries (a deletion its uid, a resize its
  uid and resource version, a creation the free name): the pass leaves every other workload as it
  is, and of its own it changes at most the status; a pod that it changes, creates or deletes is the
  one under its phantom's key, what it replaces there has the uid of a pod that was read under that
  key in this pass and was controlled by the workload as read, and what it leaves there is controlled
  by the workload.\<close>

theorem passes_leave_other_workloads_alone:
  assumes "Reconcile L V E ns n rc w = (res, rc', t, w')" "frame_laws E view" "binding_laws L" "owner_laws L"
  shows "(\<forall>k. k \<noteq> (ns, n) \<longrightarrow> vw_workloads (view w') k = vw_workloads (view w) k) \<and>
    (\<forall>x. vw_workloads (view w) (ns, n) = Some x \<longrightarrow>
       (\<exists>st. vw_workloads (view w') (ns, n) = Some (x\<lparr>sw_Status := st\<rparr>))) \<and>
    (\<forall>k. vw_pods (view w') k \<noteq> vw_pods (view w) k \<longrightarrow>
       (\<exists>sw w0. api_GetShadowWorkload E ns n w = (Inr sw, w0) \<and> k = (ns, PhantomName n) \<and>
          (\<forall>p. vw_pods (view w) k = Some p \<longrightarrow>
             (\<exists>rd x. CGetPod rd ns (PhantomName n) (Inr x) \<in> set t \<and> ownedBySw L x sw \<and> pod_UID x = pod_UID p)) \<and>
          (\<forall>p. vw_pods (view w') k = Some p \<longrightarrow> ownedBySw L p sw)))"
  using Reconcile_touches [OF assms]
proof (elim disjE exE conjE)
  assume "view w' = view w"
  then show ?thesis by (auto simp: status_self)
next
  fix sw w0
  assume r: "api_GetShadowWorkload E ns n w = (Inr sw, w0)" and k: "(sw_Namespace sw, sw_Name sw) = (ns, n)"
    and t: "touched L sw t (view w) (view w')"
  have "\<exists>st. vw_workloads (view w') (ns, n) = Some (x\<lparr>sw_Status := st\<rparr>)" if "vw_workloads (view w) (ns, n) = Some x" for x
  proof -
    have "rel_option same_object (Some x) (vw_workloads (view w') (ns, n))"
      using t that unfolding touched_def k by simp
    then show ?thesis by (cases "vw_workloads (view w') (ns, n)") (auto simp: same_object_def)
  qed
  moreover have "phantom_key sw = (ns, PhantomName n)" using k by (simp add: phantom_key_def)
  moreover have "\<forall>k. k \<noteq> (ns, n) \<longrightarrow> vw_workloads (view w') k = vw_workloads (view w) k"
    using t unfolding touched_def k by blast
  moreover have "shown_own L sw t p \<Longrightarrow>
      \<exists>rd x. CGetPod rd ns (PhantomName n) (Inr x) \<in> set t \<and> ownedBySw L x sw \<and> pod_UID x = pod_UID p" for p
    using k by (simp add: shown_own_def)
  ultimately show ?thesis using r touched_pods [OF t] by metis
qed

theorem passes_leave_other_workloads_alone_witness:
  "\<exists>res rc' t w'. Reconcile rat_lib map_vec_lib store_cluster ''ns'' ''web'' None stray_view = (res, rc', t, w') \<and>
     vw_workloads (keyed w') (''ns'', ''db'') = Some example_sw \<and> vw_pods (keyed w') (''ns'', ''shadow-db'') = Some stray_pod"
proof -
  obtain res rc' t w' where r: "Reconcile rat_lib map_vec_lib store_cluster ''ns'' ''web'' None stray_view = (res, rc', t, w')"
    by (rule prod_cases4 [of "Reconcile rat_lib map_vec_lib store_cluster ''ns'' ''web'' None stray_view"])
  have ne: "(''ns'', ''shadow-db'') \<noteq> (''ns'', PhantomName ''web'')"
    using other_apart by (simp add: apart_def phantom_key_def example_PhantomName)
  note c = passes_leave_other_workloads_alone [OF r store_frame rat_lib_binding_laws rat_lib_owner_laws]
  have "vw_workloads (keyed w') (''ns'', ''db'') = Some example_sw"
    using c [THEN conjunct1, THEN spec, of "(''ns'', ''db'')"] by (simp add: stray_at)
  moreover have "vw_pods (keyed w') (''ns'', ''shadow-db'') = Some stray_pod"
    using c [THEN conjunct2, THEN conjunct2, THEN spec, of "(''ns'', ''shadow-db'')"] ne by (auto simp: stray_at)
  ultimately show ?thesis using r by blast
qed

section \<open>The loop settles\<close>












end
