(* ===== verification/Reported_Cause.thy ===== *)
theory Reported_Cause
  imports Pass_Facts Pass_Invariant
begin

text \<open>
  Why a pass reports what it reports: for every reason of the two conditions, what the pass has
  seen that makes it report this reason.
\<close>

section \<open>Causes\<close>

text \<open>The reason a closed gate is reported with; none when it is open or the read failed otherwise.\<close>

definition closed_reason :: "api_error + node \<Rightarrow> string option" where
  "closed_reason a =
     (case a of
        Inl e \<Rightarrow> if e = NotFound then Some reasonNodeMissing else None
      | Inr nd \<Rightarrow> (let (ok, why) = NodeEligible (Some nd) in if ok then None else Some (nodeConditionReason why)))"

lemma closed_reason_nonempty: "closed_reason a = Some reason \<Longrightarrow> reason \<noteq> []"
  using nodeConditionReason_nonempty
  by (auto simp: closed_reason_def reason_defs Let_def split: sum.splits prod.splits if_splits)

definition query_reason :: "qerror \<Rightarrow> string" where
  "query_reason e =
     (if errors_Is e ErrTargetUnavailable then reasonCadvisorTargetUnavailable else reasonPrometheusUnavailable)"

definition has_measured :: "'q api_call list \<Rightarrow> bool" where
  "has_measured t \<longleftrightarrow> (\<exists>q r. CQueryPair q (Inr r) \<in> set t)"

text \<open>The first thing that goes wrong gives the reason: the pod is blamed only after a measurement.\<close>

definition degraded_cause ::
  "'q lib \<Rightarrow> ('q, 'w) cluster \<Rightarrow> 'q ShadowWorkload \<Rightarrow> 'q api_call list \<Rightarrow> string \<Rightarrow> bool" where
  "degraded_cause L E sw t r \<longleftrightarrow>
     (\<exists>a. CGetNode (spec_Node (sw_Spec sw)) a \<in> set t \<and> closed_reason a = Some r) \<or>
     r = reasonPriorityClassMissing \<and> CGetPriorityClass (Inl NotFound) \<in> set t \<or>
     r = reasonSourceInvalid \<and>
       (\<not> is_ok (Resolve (sw_Spec sw)) \<or> \<not> is_ok (QuerierFor E (mc_PrometheusURL (spec_Metrics (sw_Spec sw))))) \<or>
     (\<exists>q e. CQueryPair q (Inl e) \<in> set t \<and> r = query_reason e) \<or>
     has_measured t \<and>
       (r = reasonPhantomConflict \<and> (\<exists>rd pod. pod_read sw rd (Inr pod) t \<and> \<not> ownedBySw L pod sw) \<or>
        r = reasonPhantomRecreating \<and> (\<exists>pod opts a. CDeletePod pod opts a \<in> set t \<and> a \<in> {None, Some NotFound}) \<or>
        r = reasonResizeRejected \<and> (\<exists>b m e. CPatchResize b m (Inl e) \<in> set t))"

fun accepted_write :: "'q api_call \<Rightarrow> bool" where
  "accepted_write (CCreatePod pod (Inr created)) = True"
| "accepted_write (CPatchResize base new (Inr resized)) = True"
| "accepted_write _ = False"

definition ready_cause :: "'q api_call list \<Rightarrow> string \<Rightarrow> bool" where
  "ready_cause t r \<longleftrightarrow>
     r = reasonPhantomCreated \<and> (\<exists>pod created. CCreatePod pod (Inr created) \<in> set t) \<or>
     r = reasonResized \<and> (\<exists>b m resized. CPatchResize b m (Inr resized) \<in> set t) \<or>
     r = reasonWithinThreshold \<and> (\<forall>c \<in> set t. \<not> accepted_write c)"

lemma degraded_cause_mono: "degraded_cause L E sw t r \<Longrightarrow> set t \<subseteq> set t' \<Longrightarrow> degraded_cause L E sw t' r"
  unfolding degraded_cause_def pod_read_def has_measured_def by blast

lemma has_measured_Cons: "has_measured t \<Longrightarrow> has_measured (c # t)"
  unfolding has_measured_def by auto

lemma has_measured_by: "CQueryPair q (Inr r) \<in> set t \<Longrightarrow> has_measured t"
  unfolding has_measured_def by blast

lemma recreating_cause:
  "has_measured t \<Longrightarrow> CDeletePod pod opts a \<in> set t \<Longrightarrow> a \<in> {None, Some NotFound} \<Longrightarrow>
    degraded_cause L E sw t reasonPhantomRecreating"
  unfolding degraded_cause_def by blast

lemma degraded_cause_Cons: "degraded_cause L E sw t r \<Longrightarrow> degraded_cause L E sw (c # t) r"
  by (erule degraded_cause_mono) auto

lemma ready_cause_Cons: "ready_cause t r \<Longrightarrow> \<not> accepted_write c \<Longrightarrow> ready_cause (c # t) r"
  by (auto simp: ready_cause_def)

section \<open>The invariant\<close>

text \<open>Before the report: the degraded reason, if any, has its cause, and so has the ready one.  The flag
  says that a pass without a degraded reason has measured its pair.\<close>

definition blamed :: "'q lib \<Rightarrow> ('q, 'w) cluster \<Rightarrow> 'q ShadowWorkload \<Rightarrow> bool \<Rightarrow> ('q, 'v, 'w) pass \<Rightarrow> bool" where
  "blamed L E sw m p \<longleftrightarrow>
     same_object sw (ps_sw p) \<and> (\<forall>b s a. CPatchStatus b s a \<notin> set (ps_trace p)) \<and>
     (if ps_degradedReason p = [] then m \<longrightarrow> has_measured (ps_trace p)
      else degraded_cause L E sw (ps_trace p) (ps_degradedReason p))"

definition explained :: "'q lib \<Rightarrow> ('q, 'w) cluster \<Rightarrow> 'q ShadowWorkload \<Rightarrow> bool \<Rightarrow> ('q, 'v, 'w) pass \<Rightarrow> bool" where
  "explained L E sw m p \<longleftrightarrow> blamed L E sw m p \<and> ready_cause (ps_trace p) (ps_readyReason p)"

lemma blamed_frame [simp]:
  "blamed L E sw m (with_status f p) = blamed L E sw m p" "blamed L E sw m (with_metrics g p) = blamed L E sw m p"
  "blamed L E sw m (p\<lparr>ps_world := w\<rparr>) = blamed L E sw m p" "blamed L E sw m (setReady r p) = blamed L E sw m p"
  "blamed L E sw m (report_conditions L p) = blamed L E sw m p"
  "blamed L E sw m (report_currents L V obs p) = blamed L E sw m p"
  by (simp_all add: blamed_def report_conditions_def report_currents_def Let_def split: option.split)

lemma explained_frame [simp]:
  "explained L E sw m (with_status f p) = explained L E sw m p" "explained L E sw m (with_metrics g p) = explained L E sw m p"
  "explained L E sw m (p\<lparr>ps_world := w\<rparr>) = explained L E sw m p"
  "explained L E sw m (report_conditions L p) = explained L E sw m p"
  "explained L E sw m (report_currents L V obs p) = explained L E sw m p"
  by (simp_all add: explained_def report_conditions_def report_currents_def Let_def split: option.split)

lemma blamed_request:
  "blamed L E sw m p \<Longrightarrow> (\<And>b s a. c \<noteq> CPatchStatus b s a) \<Longrightarrow> blamed L E sw m (p\<lparr>ps_world := w, ps_trace := c # ps_trace p\<rparr>)"
  by (auto simp: blamed_def intro: degraded_cause_Cons has_measured_Cons)

lemma explained_request:
  "explained L E sw m p \<Longrightarrow> \<not> accepted_write c \<Longrightarrow> (\<And>b s a. c \<noteq> CPatchStatus b s a) \<Longrightarrow>
    explained L E sw m (p\<lparr>ps_world := w, ps_trace := c # ps_trace p\<rparr>)"
  by (auto simp: explained_def intro: blamed_request ready_cause_Cons)

lemma blamed_event: "blamed L E sw m p \<Longrightarrow> blamed L E sw m (Eventf E' ty r msg p)"
  by (simp add: Eventf_def blamed_request)

lemma explained_event:
  assumes "explained L E sw m p"
  shows "explained L E sw m (Eventf E' ty r msg p)" "explained L E sw m (warnOnDegradedTransition L E' r msg p)"
  using assms by (auto simp: Eventf_def warnOnDegradedTransition_def intro!: explained_request split: option.split)

lemma explained_setDegraded:
  "explained L E sw m p \<Longrightarrow> (ps_degradedReason p = [] \<Longrightarrow> degraded_cause L E sw (ps_trace p) r) \<Longrightarrow>
    explained L E sw m (setDegraded r msg p)"
  by (auto simp: explained_def blamed_def)

lemma explained_setReady:
  "blamed L E sw m p \<Longrightarrow> ready_cause (ps_trace p) r \<Longrightarrow> explained L E sw m (setReady r p)"
  by (simp add: explained_def)

lemma explained_degraded: "explained L E sw m p \<Longrightarrow> ps_degradedReason p \<noteq> [] \<Longrightarrow> explained L E sw m' p"
  by (simp add: explained_def blamed_def)

lemma explained_measured: "explained L E sw True p \<Longrightarrow> ps_degradedReason p = [] \<Longrightarrow> has_measured (ps_trace p)"
  by (simp add: explained_def blamed_def)

lemma explained_blamed: "explained L E sw m p \<Longrightarrow> blamed L E sw m p"
  by (simp add: explained_def)

lemma explained_object: "explained L E sw m p \<Longrightarrow> same_object sw (ps_sw p)"
  by (simp add: explained_def blamed_def)

section \<open>The phases\<close>

lemma gate_node_explained:
  assumes "gate_node L E p = (res, q)" "explained L E sw m p"
  shows "explained L E sw m q"
proof -
  let ?n = "spec_Node (sw_Spec (ps_sw p))"
  obtain a p1 where g: "request (api_GetNode E (apiReader E) ?n) (CGetNode ?n) p = (a, p1)"
    by (cases "request (api_GetNode E (apiReader E) ?n) (CGetNode ?n) p")
  have p1: "explained L E sw m p1" and t: "CGetNode ?n a \<in> set (ps_trace p1)" and n: "?n = spec_Node (sw_Spec sw)"
    using g assms(2) explained_object [OF assms(2)] by (auto simp: request_eq same_objectD intro: explained_request)
  have c: "degraded_cause L E sw (ps_trace p1) r" if "closed_reason a = Some r" for r
    using t n that by (auto simp: degraded_cause_def)
  show ?thesis
    using assms(1) g p1 c
    by (auto simp: gate_node_def Let_def closed_reason_def intro!: explained_event explained_setDegraded
        split: sum.splits prod.splits if_splits)
qed

lemma closed_node_degrades: "gate_node L E p = (Inr False, q) \<Longrightarrow> ps_degradedReason q \<noteq> []"
  using nodeConditionReason_nonempty
  by (auto simp: gate_node_def request_eq reason_defs Let_def split: sum.splits prod.splits if_splits)

lemma closed_class_degrades: "gate_priority_class L E True p = (Inr False, q) \<Longrightarrow> ps_degradedReason q \<noteq> []"
  by (auto simp: gate_priority_class_def request_eq reason_defs Let_def split: sum.splits prod.splits if_splits)

lemma gate_class_explained:
  assumes "gate_priority_class L E ready p = (res, q)" "explained L E sw m p"
  shows "explained L E sw m q"
proof -
  let ?get = "request (api_GetPriorityClass E (apiReader E) BallastPriorityClassName) CGetPriorityClass p"
  obtain a p1 where g: "?get = (a, p1)" by (cases ?get)
  have p1: "explained L E sw m p1" and t: "CGetPriorityClass a \<in> set (ps_trace p1)"
    using g assms(2) by (auto simp: request_eq intro: explained_request)
  show ?thesis
    using assms g p1 t
    by (auto simp: gate_priority_class_def Let_def degraded_cause_def intro!: explained_event explained_setDegraded
        split: sum.splits prod.splits if_splits)
qed

lemma classify_query_reason: "classify e = (fr, r, m, ev) \<Longrightarrow> r = query_reason e"
  by (auto simp: classify_def query_reason_def Let_def split: if_splits)

lemma measure_failed_explained:
  assumes "explained L E sw m p" "degraded_cause L E sw (ps_trace p) r" "r \<noteq> []"
  shows "explained L E sw m' (measure_failed V fr r msg p)"
proof -
  have "explained L E sw m (measure_failed V fr r msg p)"
    using assms(1,2) by (auto simp: measure_failed_def Let_def intro!: explained_setDegraded)
  moreover have "ps_degradedReason (measure_failed V fr r msg p) \<noteq> []"
    using assms(3) by (simp add: measure_failed_def Let_def)
  ultimately show ?thesis by (rule explained_degraded)
qed

lemma query_reason_nonempty: "query_reason e \<noteq> []" "reasonSourceInvalid \<noteq> []"
  by (simp_all add: query_reason_def reason_defs)

lemma measure_explained:
  assumes "measure L V E p = (pair, q)" "explained L E sw m p"
  shows "explained L E sw True q"
proof (cases "Resolve (sw_Spec sw)")
  case (Inl e)
  then have "degraded_cause L E sw (ps_trace p) reasonSourceInvalid" by (simp add: degraded_cause_def)
  then show ?thesis
    using assms Inl same_objectD(4) [OF explained_object [OF assms(2)]]
    by (auto simp: measure_def Let_def query_reason_nonempty intro: measure_failed_explained)
next
  case r: (Inr queries)
  note spec = same_objectD(4) [OF explained_object [OF assms(2)]]
  show ?thesis
  proof (cases "QuerierFor E (mc_PrometheusURL (spec_Metrics (sw_Spec sw)))")
    case (Inl e)
    then have "degraded_cause L E sw (ps_trace p) reasonSourceInvalid" by (simp add: degraded_cause_def)
    then show ?thesis using assms r Inl spec by (auto simp: measure_def Let_def query_reason_nonempty intro: measure_failed_explained)
  next
    case k: (Inr querier)
    obtain a p1 where g: "request (querier queries) (CQueryPair queries) p = (a, p1)"
      by (cases "request (querier queries) (CQueryPair queries) p")
    have p1: "explained L E sw m p1" and t: "CQueryPair queries a \<in> set (ps_trace p1)"
      using g assms(2) by (auto simp: request_eq intro: explained_request)
    show ?thesis
    proof (cases a)
      case (Inl e)
      obtain fr c m ev where f: "classify e = (fr, c, m, ev)" by (cases "classify e") auto
      have "degraded_cause L E sw (ps_trace p1) c"
        "c \<noteq> []"
        using t Inl classify_query_reason [OF f] query_reason_nonempty(1) by (auto simp: degraded_cause_def)
      then show ?thesis
        using assms(1) r k g Inl f p1 spec
        by (auto simp: measure_def Let_def intro!: explained_event measure_failed_explained)
    next
      case (Inr x)
      with p1 t have "explained L E sw True p1" by (auto simp: explained_def blamed_def dest: has_measured_by)
      with Inr show ?thesis using assms(1) r k g spec by (auto simp: measure_def Let_def timeNow_eq split: prod.splits)
    qed
  qed
qed

text \<open>Up to the management of the pod nothing has been written, and the ready reason is the initial one.\<close>

definition unwritten :: "'q lib \<Rightarrow> ('q, 'w) cluster \<Rightarrow> 'q ShadowWorkload \<Rightarrow> bool \<Rightarrow> ('q, 'v, 'w) pass \<Rightarrow> bool" where
  "unwritten L E sw m p \<longleftrightarrow> explained L E sw m p \<and> ps_readyReason p = reasonWithinThreshold"

lemma unwritten_ready: "unwritten L E sw m p \<Longrightarrow> ready_cause (ps_trace p) reasonWithinThreshold"
  by (auto simp: unwritten_def explained_def)

lemma unwritten_explained: "unwritten L E sw m p \<Longrightarrow> explained L E sw m p"
  by (simp add: unwritten_def)

lemma unwritten_request:
  "unwritten L E sw m p \<Longrightarrow> \<not> accepted_write c \<Longrightarrow> (\<And>b s a. c \<noteq> CPatchStatus b s a) \<Longrightarrow>
    unwritten L E sw m (p\<lparr>ps_world := w, ps_trace := c # ps_trace p\<rparr>)"
  by (simp add: unwritten_def explained_request)

lemma prefix_ready:
  "gate_node L E p = (nres, q) \<Longrightarrow> ps_readyReason q = ps_readyReason p"
  "gate_priority_class L E ready p = (cres, q) \<Longrightarrow> ps_readyReason q = ps_readyReason p"
  "measure L V E p = (pair, q) \<Longrightarrow> ps_readyReason q = ps_readyReason p"
  by (auto simp: gate_node_def gate_priority_class_def measure_def request_eq timeNow_eq Let_def
      split: sum.splits prod.splits if_splits)

lemma prefix_unwritten:
  "gate_node L E p = (nres, q) \<Longrightarrow> unwritten L E sw m p \<Longrightarrow> unwritten L E sw m q"
  "gate_priority_class L E ready p = (cres, q) \<Longrightarrow> unwritten L E sw m p \<Longrightarrow> unwritten L E sw m q"
  "measure L V E p = (pair, q) \<Longrightarrow> unwritten L E sw m p \<Longrightarrow> unwritten L E sw True q"
  using gate_node_explained gate_class_explained measure_explained prefix_ready unfolding unwritten_def by metis+

lemma resize_explained:
  assumes "resizeIfDrifting L V E pod name d healthy p = (pod', q)" "unwritten L E sw True p"
  shows "explained L E sw True q"
proof -
  note e = unwritten_explained [OF assms(2)]
  obtain a p1 where g: "resizePhantom E pod d p = (a, p1)" by (cases "resizePhantom E pod d p")
  have b: "blamed L E sw True p1" and t: "CPatchResize pod (resized_pod pod d) a \<in> set (ps_trace p1)"
    using g explained_blamed [OF e] by (auto simp: resizePhantom_def Let_def request_eq intro: blamed_request)
  show ?thesis
  proof (cases "healthy \<and> DriftExceeds L (CurrentPairOf L pod) d (up_DeltaThresholdPercent (spec_Update (sw_Spec (ps_sw p))))")
    case False
    then show ?thesis
      using assms(1) e explained_setReady [OF explained_blamed [OF e] unwritten_ready [OF assms(2)]]
      by (auto simp: resizeIfDrifting_def Let_def split: if_splits)
  next
    case True
    show ?thesis
    proof (cases a)
      case (Inl err)
      have "explained L E sw True p1"
        using g e Inl by (auto simp: resizePhantom_def Let_def request_eq intro: explained_request)
      moreover from this have "ps_degradedReason p1 = [] \<Longrightarrow> degraded_cause L E sw (ps_trace p1) reasonResizeRejected"
        using t Inl explained_measured by (auto simp: degraded_cause_def)
      ultimately show ?thesis
        using assms(1) g Inl True
        by (auto simp: resizeIfDrifting_def Let_def intro!: explained_event explained_setDegraded)
    next
      case (Inr resized)
      have "ready_cause (ps_trace p1) reasonResized" using t Inr by (auto simp: ready_cause_def)
      then show ?thesis
        using assms(1) g Inr True b
        by (auto simp: resizeIfDrifting_def Let_def timeNow_eq ready_cause_def intro!: explained_setReady blamed_event)
    qed
  qed
qed

text \<open>A pod that is read, and deleted when the workload owns it.\<close>

lemma get_unwritten:
  assumes "request (api_GetPod E rd (sw_Namespace (ps_sw p)) (PhantomName (sw_Name (ps_sw p))))
     (CGetPod rd (sw_Namespace (ps_sw p)) (PhantomName (sw_Name (ps_sw p)))) p = (a, q)" "unwritten L E sw True p"
  shows "unwritten L E sw True q" "ps_sw q = ps_sw p" "pod_read sw rd a (ps_trace q)"
  using assms same_objectD [OF explained_object [OF unwritten_explained [OF assms(2)]]]
  by (auto simp: request_eq pod_read_def intro: unwritten_request)

lemma conflict_explained:
  assumes "unwritten L E sw True p" "pod_read sw rd (Inr pod) (ps_trace p)" "\<not> ownedBySw L pod (ps_sw p)"
    and "ps_degradedReason p = []"
  shows "degraded_cause L E sw (ps_trace p) reasonPhantomConflict"
  using assms(2,3) explained_measured [OF unwritten_explained [OF assms(1)] assms(4)] ownedBySw_same [OF explained_object [OF unwritten_explained [OF assms(1)]]]
  by (auto simp: degraded_cause_def)

lemma resolve_explained:
  assumes "resolveCreateConflict L E (PhantomName (sw_Name (ps_sw p))) poll p = (res, q)" "unwritten L E sw True p"
  shows "unwritten L E sw True q" "ps_sw q = ps_sw p"
    "res = Inr (True, k) \<Longrightarrow> ps_degradedReason q = [] \<Longrightarrow> degraded_cause L E sw (ps_trace q) reasonPhantomConflict"
proof -
  let ?get = "request (api_GetPod E (apiReader E) (sw_Namespace (ps_sw p)) (PhantomName (sw_Name (ps_sw p))))
     (CGetPod (apiReader E) (sw_Namespace (ps_sw p)) (PhantomName (sw_Name (ps_sw p)))) p"
  obtain a p1 where g: "?get = (a, p1)" by (cases ?get)
  note p1 = get_unwritten [OF g assms(2)]
  show "unwritten L E sw True q" "ps_sw q = ps_sw p"
    using assms(1) g p1
    by (auto simp: resolveCreateConflict_def Let_def request_eq unwritten_def intro!: explained_event explained_request
        split: sum.splits prod.splits if_splits)
  show "degraded_cause L E sw (ps_trace q) reasonPhantomConflict" if "res = Inr (True, k)" "ps_degradedReason q = []"
    using assms(1) g p1 that conflict_explained [OF p1(1)]
    by (auto simp: resolveCreateConflict_def Let_def split: sum.splits prod.splits if_splits)
qed

lemma create_explained:
  assumes "createOrRecoverPhantom L V E (PhantomName (sw_Name (ps_sw p))) d poll p = (res, q)" "unwritten L E sw True p"
  shows "explained L E sw True q"
proof (cases "BuildPhantomPod L (ps_sw p) d")
  case (Inl e)
  then show ?thesis using assms unwritten_explained by (auto simp: createOrRecoverPhantom_def Let_def)
next
  case f: (Inr fresh)
  obtain a p1 where c: "request (api_CreatePod E fresh) (CCreatePod fresh) p = (a, p1)"
    by (cases "request (api_CreatePod E fresh) (CCreatePod fresh) p")
  show ?thesis
  proof (cases a)
    case (Inl e)
    then have p1: "unwritten L E sw True p1" "ps_sw p1 = ps_sw p"
      using c assms(2) by (auto simp: request_eq intro: unwritten_request)
    obtain r p2 where x: "resolveCreateConflict L E (PhantomName (sw_Name (ps_sw p1))) poll p1 = (r, p2)"
      by (cases "resolveCreateConflict L E (PhantomName (sw_Name (ps_sw p1))) poll p1")
    note p2 = resolve_explained [OF x p1(1)]
    show ?thesis
      using assms(1) f c Inl x p1 p2 unwritten_explained [OF p1(1)] unwritten_explained [OF p2(1)]
      by (auto simp: createOrRecoverPhantom_def Let_def intro!: explained_event explained_setDegraded
          split: sum.splits prod.splits if_splits)
  next
    case (Inr created)
    have b: "blamed L E sw True p1" and t: "CCreatePod fresh (Inr created) \<in> set (ps_trace p1)"
      using c Inr explained_blamed [OF unwritten_explained [OF assms(2)]] by (auto simp: request_eq intro: blamed_request)
    then show ?thesis
      using assms(1) f c Inr
      by (auto simp: createOrRecoverPhantom_def Let_def ready_cause_def intro!: explained_setReady blamed_event)
  qed
qed

lemma manage_explained:
  assumes "manage_phantom L V E d poll p = (res, q)" "unwritten L E sw True p"
  shows "explained L E sw True q"
proof -
  let ?get = "request (api_GetPod E Cached (sw_Namespace (ps_sw p)) (PhantomName (sw_Name (ps_sw p))))
     (CGetPod Cached (sw_Namespace (ps_sw p)) (PhantomName (sw_Name (ps_sw p)))) p"
  obtain a p1 where g: "?get = (a, p1)" by (cases ?get)
  note p1 = get_unwritten [OF g assms(2)]
  show ?thesis
  proof (cases a)
    case (Inl e)
    obtain r p2 where c: "createOrRecoverPhantom L V E (PhantomName (sw_Name (ps_sw p1))) d poll p1 = (r, p2)"
      by (cases "createOrRecoverPhantom L V E (PhantomName (sw_Name (ps_sw p1))) d poll p1")
    show ?thesis
      using assms(1) g Inl c p1(2) create_explained [OF c p1(1)] unwritten_explained [OF p1(1)]
      by (auto simp: manage_phantom_def Let_def split: sum.splits prod.splits if_splits)
  next
    case (Inr x)
    show ?thesis
    proof (cases "ownedBySw L x (ps_sw p)")
      case False
      have "ps_degradedReason p1 = [] \<Longrightarrow> degraded_cause L E sw (ps_trace p1) reasonPhantomConflict"
        using p1 Inr False by (intro conflict_explained [of L E sw p1]) simp_all
      then show ?thesis
        using assms(1) g Inr False unwritten_explained [OF p1(1)]
        by (auto simp: manage_phantom_def Let_def intro!: explained_event explained_setDegraded)
    next
      case True
      let ?del = "request (api_DeletePod E x (delete_observed x)) (CDeletePod x (delete_observed x)) p1"
      obtain derr p2 where del: "?del = (derr, p2)" by (cases ?del)
      have p2: "explained L E sw True p2" "CDeletePod x (delete_observed x) derr \<in> set (ps_trace p2)"
        using del unwritten_explained [OF p1(1)] by (auto simp: request_eq intro: explained_request)
      have "degraded_cause L E sw (CEvent ty r m # ps_trace p2) reasonPhantomRecreating"
        if "derr \<in> {None, Some NotFound}" "ps_degradedReason p2 = []" for ty r m
        by (rule degraded_cause_Cons, rule recreating_cause [OF explained_measured [OF p2(1) that(2)] p2(2) that(1)])
      moreover obtain pod p3 where r: "resizeIfDrifting L V E x (PhantomName (sw_Name (ps_sw p))) d (ps_degradedReason p1 = []) p1 = (pod, p3)"
        by (cases "resizeIfDrifting L V E x (PhantomName (sw_Name (ps_sw p))) d (ps_degradedReason p1 = []) p1")
      ultimately show ?thesis
        using assms(1) g Inr True del p2(1) resize_explained [OF r p1(1)]
        by (auto simp: manage_phantom_def Let_def intro!: explained_event explained_setDegraded split: if_splits)
    qed
  qed
qed

section \<open>The report\<close>

text \<open>The patched status has both conditions, of the generation read, each with its cause.\<close>

definition told :: "'q lib \<Rightarrow> ('q, 'w) cluster \<Rightarrow> 'q ShadowWorkload \<Rightarrow> 'q api_call list \<Rightarrow> bool" where
  "told L E sw t \<longleftrightarrow>
     (\<forall>b s a. CPatchStatus b s a \<in> set t \<longrightarrow> b = sw \<and>
        (\<exists>r d. k_FindStatusCondition L (st_Conditions (sw_Status s)) conditionReady = Some r \<and>
           k_FindStatusCondition L (st_Conditions (sw_Status s)) conditionDegraded = Some d \<and>
           cd_ObservedGeneration r = sw_Generation sw \<and> cd_ObservedGeneration d = sw_Generation sw \<and>
           (cd_Status r = ''True'' \<and> cd_Status d = ''False'' \<and> ready_cause t (cd_Reason r) \<and> has_measured t \<and>
              cd_Reason d = reasonAsExpected \<or>
            cd_Status r = ''False'' \<and> cd_Status d = ''True'' \<and> cd_Reason r = cd_Reason d \<and>
              degraded_cause L E sw t (cd_Reason d))))"

lemma explained_told: "explained L E sw m p \<Longrightarrow> told L E sw (ps_trace p)"
  by (simp add: explained_def blamed_def told_def)

lemma suffix_told:
  fixes p :: "('q, 'v, 'w) pass"
  assumes "pass_suffix L V E sw obs imm p = (res, q)" "explained L E sw True p" "condition_laws L"
  shows "told L E sw (ps_trace q)"
proof -
  have n: "ps_trace (reported L V obs p) = ps_trace p" by (simp add: reported_def report_conditions_def Let_def)
  obtain a where t: "ps_trace q = CPatchStatus sw (ps_sw (reported L V obs p)) a # ps_trace p"
    using assms(1) by (cases rule: pass_suffix_cases) (simp add: n)
  have m: "ps_degradedReason p = [] \<Longrightarrow> has_measured (ps_trace q)"
    using explained_measured [OF assms(2)] by (auto simp: t intro: has_measured_Cons)
  have x: "ready_cause (ps_trace q) (ps_readyReason p)"
    "ps_degradedReason p \<noteq> [] \<Longrightarrow> degraded_cause L E sw (ps_trace q) (ps_degradedReason p)"
    "\<And>b s a. CPatchStatus b s a \<notin> set (ps_trace p)" "sw_Generation (ps_sw p) = sw_Generation sw"
    using assms(2) same_objectD [OF explained_object [OF assms(2)]]
    by (auto simp: t explained_def blamed_def intro: ready_cause_Cons degraded_cause_Cons)
  show ?thesis
    using reported_conditions [OF assms(3), of V obs p] x m
    unfolding told_def by (fastforce simp: t reported_ready_def reported_degraded_def split: if_splits)
qed

interpretation cause: pass_phases L V E sw "unwritten L E sw False" "unwritten L E sw True" "explained L E sw True"
    "\<lambda>q. condition_laws L \<longrightarrow> told L E sw (ps_trace q)" for L V E sw
proof (rule pass_phases.intro)
  show "explained L E sw True q" if "gate_node L E p = (Inr False, q)" "unwritten L E sw False p"
    for p q :: "('a, 'b, 'c) pass"
    using prefix_unwritten(1) [OF that] closed_node_degrades [OF that(1)] unwritten_explained explained_degraded by blast
  show "explained L E sw True q" if "gate_priority_class L E True p = (Inr False, q)" "unwritten L E sw False p"
    for p q :: "('a, 'b, 'c) pass"
    using prefix_unwritten(2) [OF that] closed_class_degrades [OF that(1)] unwritten_explained explained_degraded by blast
qed (erule (1) prefix_unwritten manage_explained
    | rule impI, erule (2) suffix_told
    | rule impI, erule explained_told
    | rule impI, rule explained_told, erule unwritten_explained)+

lemma unwritten_initial: "unwritten L E sw False (initial_pass sw rc w)"
  by (simp add: unwritten_def explained_def blamed_def ready_cause_def)

lemma Reconcile_told:
  assumes "Reconcile L V E ns n rc w = (res, rc', t, w')" "api_GetShadowWorkload E ns n w = (Inr sw, w0)"
    and "condition_laws L"
  shows "told L E sw t"
proof -
  obtain res' q where r: "reconcile_workload L V E (initial_pass sw rc w0) = (res', q)" and t: "ps_trace q = t"
    by (rule Reconcile_run [OF assms(1,2)])
  show ?thesis using cause.workload [OF r] assms(3) t by (simp add: unwritten_initial)
qed

text \<open>Of the causes, only an unusable declaration is reported as an invalid source.\<close>

lemma invalid_source_cause:
  "degraded_cause L E sw t reasonSourceInvalid \<longleftrightarrow>
     \<not> is_ok (Resolve (sw_Spec sw)) \<or> \<not> is_ok (QuerierFor E (mc_PrometheusURL (spec_Metrics (sw_Spec sw))))"
proof -
  have "closed_reason a \<noteq> Some reasonSourceInvalid" for a
    by (auto simp: closed_reason_def nodeConditionReason_def reason_defs Let_def
        split: sum.splits prod.splits if_splits)
  moreover have "query_reason e \<noteq> reasonSourceInvalid" for e by (simp add: query_reason_def reason_defs)
  ultimately show ?thesis unfolding degraded_cause_def by (auto simp: reason_defs) metis+
qed

end
