(* ===== verification/Gate_Properties.thy ===== *)
theory Gate_Properties
  imports Reported_Cause Example_Cluster
begin

text \<open>What a pass does, exactly, when the gate on the node is closed.\<close>

definition already_degraded :: "'q lib \<Rightarrow> 'q ShadowWorkload \<Rightarrow> string \<Rightarrow> bool" where
  "already_degraded L sw reason \<longleftrightarrow>
     (case k_FindStatusCondition L (st_Conditions (sw_Status sw)) conditionDegraded of
        Some c \<Rightarrow> cd_Reason c = reason \<and> cd_Status c = ''True'' | None \<Rightarrow> False)"

lemma closed_gate_node:
  assumes "fst (api_GetNode E (apiReader E) (spec_Node (sw_Spec (ps_sw p))) (ps_world p)) = a"
    and "closed_reason a = Some reason" "ps_degradedReason p = []"
  shows "\<exists>m q. gate_node L E p = (Inr False, q) \<and> ps_sw q = ps_sw p \<and> ps_degradedReason q = reason \<and>
    ps_trace q = (if already_degraded L (ps_sw p) reason then [] else [CEvent EventTypeWarning reason m]) @
      CGetNode (spec_Node (sw_Spec (ps_sw p))) a # ps_trace p"
proof (cases a)
  case (Inl e)
  then have e: "e = NotFound" "reason = reasonNodeMissing"
    using assms(2) by (auto simp: closed_reason_def split: if_splits)
  show ?thesis
    using assms(1,3) Inl e
    by (auto simp: gate_node_def request_eq Let_def warn_trace already_degraded_def)
next
  case (Inr nd)
  obtain why where "NodeEligible (Some nd) = (False, why)" "reason = nodeConditionReason why"
    using assms(2) Inr by (auto simp: closed_reason_def Let_def split: prod.splits if_splits)
  then show ?thesis
    using assms(1,3) Inr
    by (auto simp: gate_node_def request_eq Let_def warn_trace already_degraded_def)
qed

text \<open>C14: a pass that finds the node missing, terminating or not ready reads nothing but the node,
  queries nothing and touches no pod: it warns once, when the reason is new, patches the two
  conditions and nothing else of the status, and comes back after the poll interval.\<close>

theorem closed_gate_is_reported:
  assumes "Reconcile L V E ns n rc w = (res, rc', t, w')" "api_GetShadowWorkload E ns n w = (Inr sw, w0)"
    and "fst (api_GetNode E (apiReader E) (spec_Node (sw_Spec sw)) w0) = a" "closed_reason a = Some reason"
    and "condition_laws L"
  shows "\<exists>s b m c d. t = CPatchStatus sw s b #
      (if already_degraded L sw reason then [] else [CEvent EventTypeWarning reason m]) @ [CGetNode (spec_Node (sw_Spec sw)) a] \<and>
    res = (case b of None \<Rightarrow> Inr (pollInterval sw) | Some e \<Rightarrow> Inl (PatchStatusFailed e)) \<and>
    s = sw\<lparr>sw_Status := (sw_Status sw)\<lparr>st_Conditions := st_Conditions (sw_Status s)\<rparr>\<rparr> \<and>
    k_FindStatusCondition L (st_Conditions (sw_Status s)) conditionReady = Some c \<and> cd_Status c = ''False'' \<and> cd_Reason c = reason \<and>
    k_FindStatusCondition L (st_Conditions (sw_Status s)) conditionDegraded = Some d \<and> cd_Status d = ''True'' \<and> cd_Reason d = reason"
proof -
  let ?p = "initial_pass sw rc w0"
  have n: "fst (api_GetNode E (apiReader E) (spec_Node (sw_Spec (ps_sw ?p))) (ps_world ?p)) = a" using assms(3) by simp
  obtain m q where q: "gate_node L E ?p = (Inr False, q)" "ps_sw q = sw" "ps_degradedReason q = reason"
    "ps_trace q = (if already_degraded L sw reason then [] else [CEvent EventTypeWarning reason m]) @ [CGetNode (spec_Node (sw_Spec sw)) a]"
    using closed_gate_node [OF n assms(4), of L] by auto
  let ?r = "reported L V None q"
  define b where "b = fst (api_PatchStatus E sw (ps_sw ?r) (ps_world ?r))"
  have r: "ps_trace ?r = ps_trace q" "ps_sw ?r = sw\<lparr>sw_Status := (sw_Status sw)\<lparr>st_Conditions := st_Conditions (sw_Status (ps_sw ?r))\<rparr>\<rparr>"
    by (simp_all add: reported_def report_conditions_def report_currents_def Let_def q(2))
  have "t = CPatchStatus sw (ps_sw ?r) b # ps_trace q"
    "res = (case b of None \<Rightarrow> Inr (pollInterval sw) | Some e \<Rightarrow> Inl (PatchStatusFailed e))"
    using assms(1,2) q(1) r(1)
    by (auto simp: Reconcile_def reconcile_workload_phases pass_prefix_def gate_priority_class_def pass_suffix_def
        request_eq b_def Let_def simp flip: reported_def split: option.splits)
  moreover obtain c where "k_FindStatusCondition L (st_Conditions (sw_Status (ps_sw ?r))) conditionReady = Some c"
    "cd_Status c = ''False''" "cd_Reason c = reason"
    using reported_conditions(1) [OF assms(5), of V None q] q(3) closed_reason_nonempty [OF assms(4)]
    by (auto simp: reported_ready_def)
  moreover obtain d where "k_FindStatusCondition L (st_Conditions (sw_Status (ps_sw ?r))) conditionDegraded = Some d"
    "cd_Status d = ''True''" "cd_Reason d = reason"
    using reported_conditions(2) [OF assms(5), of V None q] q(3) closed_reason_nonempty [OF assms(4)]
    by (auto simp: reported_degraded_def)
  ultimately show ?thesis using r(2) q(4) by metis
qed

definition lost_node_cluster :: "(rat, unit) cluster" where
  "lost_node_cluster = (create_cluster example_pair)\<lparr>api_GetNode := (\<lambda>rd n w. (Inl NotFound, w))\<rparr>"

theorem closed_gate_is_reported_witness:
  "\<exists>res rc' s b m w'. Reconcile rat_lib map_vec_lib lost_node_cluster ''ns'' ''db'' None () =
     (res, rc', [CPatchStatus example_sw s b, CEvent EventTypeWarning reasonNodeMissing m, CGetNode ''node-a'' (Inl NotFound)], w')"
proof -
  obtain res rc' t w' where r: "Reconcile rat_lib map_vec_lib lost_node_cluster ''ns'' ''db'' None () = (res, rc', t, w')"
    by (rule prod_cases4 [of "Reconcile rat_lib map_vec_lib lost_node_cluster ''ns'' ''db'' None ()"])
  have g: "api_GetShadowWorkload lost_node_cluster ''ns'' ''db'' () = (Inr example_sw, ())"
    "fst (api_GetNode lost_node_cluster (apiReader lost_node_cluster) (spec_Node (sw_Spec example_sw)) ()) = Inl NotFound"
    "closed_reason (Inl NotFound) = Some reasonNodeMissing"
    by (simp_all add: lost_node_cluster_def create_cluster_def closed_reason_def)
  have "\<not> already_degraded rat_lib example_sw reasonNodeMissing" by (simp add: already_degraded_def rat_lib_def)
  then show ?thesis using closed_gate_is_reported [OF r g rat_lib_condition_laws] r by auto
qed

end
