(* ===== verification/Cause_Properties.thy ===== *)
theory Cause_Properties
  imports Reported_Cause Admission_Properties Setup_Properties
begin

text \<open>
  Properties of what is reported: every reason of the two conditions has its cause among what the
  pass has seen, and an admitted source is not reported as invalid.
\<close>

text \<open>C6: the status patch carries both conditions, of the generation that was read, and exactly
  one of them is true.  A ready workload has been measured; it is reported as resized or created only
  when the pass has resized or created its pod, and as within the threshold only when it has done
  neither.  The reason of a degraded one names what went wrong first in this pass: its pod is blamed
  only when the gates were open and the pair was measured.\<close>

theorem reported_reason_tells_its_cause:
  assumes "Reconcile L V E ns n rc w = (res, rc', t, w')" "CPatchStatus b s a \<in> set t" "condition_laws L"
  shows "\<exists>r d. k_FindStatusCondition L (st_Conditions (sw_Status s)) ''Ready'' = Some r \<and>
    k_FindStatusCondition L (st_Conditions (sw_Status s)) ''Degraded'' = Some d \<and>
    cd_ObservedGeneration r = sw_Generation b \<and> cd_ObservedGeneration d = sw_Generation b \<and>
    (cd_Status r = ''True'' \<and> cd_Status d = ''False'' \<and> ready_cause t (cd_Reason r) \<and> has_measured t \<and>
       cd_Reason d = reasonAsExpected \<or>
     cd_Status r = ''False'' \<and> cd_Status d = ''True'' \<and> cd_Reason r = cd_Reason d \<and>
       degraded_cause L E b t (cd_Reason d))"
proof -
  obtain sw w0 where "api_GetShadowWorkload E ns n w = (Inr sw, w0)" by (rule Reconcile_read [OF assms(1,2)])
  from Reconcile_told [OF assms(1) this assms(3)] have "told L E sw t" .
  with assms(2) show ?thesis by (fastforce simp: told_def conditionReady_def conditionDegraded_def)
qed

theorem reported_reason_tells_its_cause_witness:
  "\<exists>s t. Reconcile rat_lib map_vec_lib (create_cluster example_pair) ''ns'' ''db'' None () =
     (Inr 30000000000, None, CPatchStatus example_sw s None # t, ()) \<and>
     (\<exists>c. find (\<lambda>c. cd_Type c = ''Ready'') (st_Conditions (sw_Status s)) = Some c \<and> cd_ObservedGeneration c = 3)"
proof -
  obtain s t where r: "Reconcile rat_lib map_vec_lib (create_cluster example_pair) ''ns'' ''db'' None () =
     (Inr 30000000000, None, CPatchStatus example_sw s None # t, ())"
    using create_patch_run by auto
  from reported_reason_tells_its_cause [OF r _ rat_lib_condition_laws, of example_sw s None] show ?thesis
    by (intro exI [of _ s] exI [of _ t] conjI r) (auto simp: rat_lib_def example_sw_def)
qed

section \<open>An invalid source\<close>

definition refused_cluster :: "(rat, unit) cluster" where
  "refused_cluster = (create_cluster example_pair)
     \<lparr>QuerierFor := default_QuerierFor example_dns (example_backend [zero_sample]) zero_policy\<rparr>"

lemma refused_url: "\<exists>e. default_QuerierFor example_dns be zero_policy ''http://p'' = Inl e"
  by (simp add: default_QuerierFor_def NewClient_def Validate_def zero_policy_def example_url)

lemma refused_run:
  "\<exists>res rc t s d. Reconcile rat_lib map_vec_lib refused_cluster ''ns'' ''db'' None () = (res, rc, CPatchStatus example_sw s None # t, ()) \<and>
     find (\<lambda>c. cd_Type c = ''Degraded'') (st_Conditions (sw_Status s)) = Some d \<and> cd_Reason d = reasonSourceInvalid"
proof -
  have u: "mc_PrometheusURL (spec_Metrics example_spec) = ''http://p''" by (simp add: example_spec_def)
  obtain e where e: "default_QuerierFor example_dns (example_backend [zero_sample]) zero_policy ''http://p'' = Inl e"
    using refused_url by blast
  have k: "k_SetStatusCondition rat_lib = set_condition_list" by (simp add: rat_lib_def)
  show ?thesis
    by (simp add: Reconcile_def refused_cluster_def create_cluster_def example_eval u e example_floor example_Build example_poll
        report_conditions_def k find_set_condition_list conditionDegraded_def reasonSourceInvalid_def)
qed

text \<open>C19: when a pass with the querier of the setup reports an admitted workload as having an invalid
  source, its cgroup path has an empty segment or the manager's policy refuses its URL; no other
  declaration that the API admits is ever blamed.\<close>

theorem admitted_source_is_never_invalid:
  assumes "Reconcile L V E ns n rc w = (res, rc', t, w')" "api_GetShadowWorkload E ns n w = (Inr sw, w0)"
    and "admit_spec L parse m = Some (sw_Spec sw)" "QuerierFor E = default_QuerierFor dns be policy"
    and "CPatchStatus b s a \<in> set t" "condition_laws L"
    and "k_FindStatusCondition L (st_Conditions (sw_Status s)) ''Degraded'' = Some d" "cd_Reason d = reasonSourceInvalid"
  shows "(\<exists>cg. src_Cgroup (spec_Source (sw_Spec sw)) = Some cg \<and> contains_pair (cg_Path cg) (CHR ''/'') (CHR ''/'')) \<or>
    (\<exists>e. Validate dns policy (mc_PrometheusURL (spec_Metrics (sw_Spec sw))) = Inl e)"
proof -
  have "degraded_cause L E sw t reasonSourceInvalid"
    using Reconcile_told [OF assms(1,2,6)] assms(5,7,8)
    by (fastforce simp: told_def conditionDegraded_def reason_defs)
  then consider "\<not> is_ok (Resolve (sw_Spec sw))" | "\<not> is_ok (QuerierFor E (mc_PrometheusURL (spec_Metrics (sw_Spec sw))))"
    unfolding invalid_source_cause by blast
  then show ?thesis
  proof cases
    case 1
    then show ?thesis using admitted_Resolve [OF assms(3)] by (auto split: option.splits)
  next
    case 2
    then show ?thesis by (auto simp: assms(4) default_QuerierFor_def NewClient_def split: sum.splits)
  qed
qed

theorem admitted_source_is_never_invalid_witness:
  "\<exists>e. Validate example_dns zero_policy ''http://p'' = Inl e"
proof -
  obtain res rc t s d where r: "Reconcile rat_lib map_vec_lib refused_cluster ''ns'' ''db'' None () = (res, rc, CPatchStatus example_sw s None # t, ())"
    and d: "k_FindStatusCondition rat_lib (st_Conditions (sw_Status s)) ''Degraded'' = Some d" "cd_Reason d = reasonSourceInvalid"
    using refused_run by (auto simp: rat_lib_def)
  have c: "api_GetShadowWorkload refused_cluster ''ns'' ''db'' () = (Inr example_sw, ())"
    "admit_spec rat_lib example_parse_qty example_manifest = Some (sw_Spec example_sw)"
    "QuerierFor refused_cluster = default_QuerierFor example_dns (example_backend [zero_sample]) zero_policy"
    "CPatchStatus example_sw s None \<in> set (CPatchStatus example_sw s None # t)"
    using example_admitted by (simp_all add: refused_cluster_def create_cluster_def)
  from admitted_source_is_never_invalid [OF r c rat_lib_condition_laws d] show ?thesis
    by (simp add: example_spec_def)
qed

end
