(* ===== verification/Api_Scheme.thy ===== *)
theory Api_Scheme
  imports Api_Types
begin

text \<open>
  Model of the registration of the API types: \<open>api/v1alpha1/groupversion_info.go\<close>, the \<open>init\<close> of
  \<open>api/v1alpha1/shadowworkload_types.go\<close> and the \<open>init\<close> of \<open>cmd/main.go\<close>.  The scheme itself and the
  builder belong to the API machinery: a scheme is the parameter \<open>'s\<close> with the operations of
  \<open>scheme_lib\<close>, and a builder is the list of its registered functions, run in order until one
  fails.
\<close>

record group_version =
  gv_Group :: string
  gv_Version :: string

definition SchemeGroupVersion :: group_version where
  "SchemeGroupVersion = \<lparr>gv_Group = ''symbiont.tensorhost.com'', gv_Version = ''v1alpha1''\<rparr>"

text \<open>\<open>schema.GroupVersion.String\<close>.\<close>

definition gv_String :: "group_version \<Rightarrow> string" where
  "gv_String g = (if gv_Group g \<noteq> [] then gv_Group g @ ''/'' @ gv_Version g else gv_Version g)"

record 's scheme_lib =
  sch_AddToGroupVersion :: "'s \<Rightarrow> group_version \<Rightarrow> 's"
  sch_AddKnownTypes :: "'s \<Rightarrow> group_version \<Rightarrow> string list \<Rightarrow> 's"
  sch_Recognizes :: "'s \<Rightarrow> group_version \<Rightarrow> string \<Rightarrow> bool"
  sch_clientgo_AddToScheme :: "'s \<Rightarrow> string option \<times> 's"

text \<open>What the registration relies on: a known type stays known, and an added one is known.\<close>

definition scheme_laws :: "'s scheme_lib \<Rightarrow> bool" where
  "scheme_laws S \<longleftrightarrow>
     (\<forall>s g k h. sch_Recognizes S s h k \<longrightarrow> sch_Recognizes S (sch_AddToGroupVersion S s g) h k) \<and>
     (\<forall>s g ks h k. sch_Recognizes S (sch_AddKnownTypes S s g ks) h k \<longleftrightarrow>
        (h = g \<and> k \<in> set ks) \<or> sch_Recognizes S s h k)"

type_synonym 's scheme_builder = "('s \<Rightarrow> string option \<times> 's) list"

fun builder_AddToScheme :: "'s scheme_builder \<Rightarrow> 's \<Rightarrow> string option \<times> 's" where
  "builder_AddToScheme [] s = (None, s)"
| "builder_AddToScheme (f # fs) s =
     (case f s of (Some e, s) \<Rightarrow> (Some e, s) | (None, s) \<Rightarrow> builder_AddToScheme fs s)"

definition SchemeBuilder :: "'s scheme_lib \<Rightarrow> 's scheme_builder" where
  "SchemeBuilder S = [\<lambda>scheme. (None, sch_AddToGroupVersion S scheme SchemeGroupVersion)]"

definition types_init :: "'s scheme_lib \<Rightarrow> 's scheme_builder \<Rightarrow> 's scheme_builder" where
  "types_init S b =
     b @ [\<lambda>s. (None, sch_AddKnownTypes S s SchemeGroupVersion [''ShadowWorkload'', ''ShadowWorkloadList''])]"

definition AddToScheme :: "'s scheme_lib \<Rightarrow> 's \<Rightarrow> string option \<times> 's" where
  "AddToScheme S = builder_AddToScheme (types_init S (SchemeBuilder S))"

text \<open>The \<open>init\<close> of the program; an error is a panic, here \<open>Inl\<close>.\<close>

definition main_init :: "'s scheme_lib \<Rightarrow> 's \<Rightarrow> string + 's" where
  "main_init S scheme =
     (case sch_clientgo_AddToScheme S scheme of
        (Some e, scheme) \<Rightarrow> Inl e
      | (None, scheme) \<Rightarrow>
          (case AddToScheme S scheme of (Some e, scheme) \<Rightarrow> Inl e | (None, scheme) \<Rightarrow> Inr scheme))"

text \<open>The version that owner references carry is the registered one.\<close>

lemma gv_String_registered: "gv_String SchemeGroupVersion = GroupVersion"
  by (simp add: gv_String_def SchemeGroupVersion_def GroupVersion_def)

text \<open>
  After the start the scheme knows both kinds, so that the client can read and list workloads
  and \<open>SetControllerReference\<close> finds the kind of the owner, and it still knows what it knew.
\<close>

lemma main_init_recognizes:
  assumes "scheme_laws S" "main_init S scheme = Inr scheme'"
  shows "sch_Recognizes S scheme' SchemeGroupVersion ''ShadowWorkload''"
    "sch_Recognizes S scheme' SchemeGroupVersion ''ShadowWorkloadList''"
    "\<And>s' g k. sch_clientgo_AddToScheme S scheme = (None, s') \<Longrightarrow> sch_Recognizes S s' g k \<Longrightarrow>
       sch_Recognizes S scheme' g k"
  using assms
  by (auto simp: main_init_def AddToScheme_def types_init_def SchemeBuilder_def scheme_laws_def
      split: prod.splits option.splits)

end
