(* ===== verification/Spec2Isabelle.thy ===== *)
theory Spec2Isabelle
  imports Pass_Facts Source_Properties Phantom_Properties Setup_Properties Recorder_Properties
    Copy_Properties Manager_Properties Workload_History Admission_Properties Convergence_Properties
    Gate_Properties Cause_Properties Api_Scheme
begin

text \<open>
  A verification development for kube-symbiont, a Kubernetes controller that makes the
  footprint of bare-metal workloads visible to the scheduler.  For every \<open>ShadowWorkload\<close> it
  measures the workload with two Prometheus queries, clamps the measurement to a policy range,
  and keeps one "phantom" pod on the node whose requests carry the clamped pair.

  The parts of the program and the theories that model them:

    \<^item> \<open>api/v1alpha1/shadowworkload_types.go\<close>: \<open>Api_Types\<close> (the structs as records, pointers as
      options, string enumerations as strings) and \<open>Api_Admission\<close> (the kubebuilder markers:
      manifests, their defaults, the patterns, bounds and rules that decide what is stored).
      \<open>Duration_Reading\<close> says what the durations of the pattern denote.
    \<^item> \<open>api/v1alpha1/groupversion_info.go\<close> and the two \<open>init\<close> functions: \<open>Api_Scheme\<close>.
    \<^item> \<open>api/v1alpha1/zz_generated.deepcopy.go\<close>: \<open>Deep_Copy\<close>, on an explicit heap, since elsewhere
      values are immutable.
    \<^item> \<open>internal/shadow\<close>: \<open>Phantom\<close> (names, conversion, clamping, drift, the pod) and \<open>Node_Gate\<close>.
    \<^item> \<open>internal/sources/sources.go\<close>: \<open>Sources\<close> (source declarations to PromQL) and \<open>Prom_Client\<close>
      (the client, one query and a pair of queries).
    \<^item> \<open>internal/sources/destination_policy.go\<close>: \<open>Destination_Policy\<close>.
    \<^item> \<open>internal/metrics\<close>: \<open>Metrics_Recorder\<close>.
    \<^item> \<open>internal/controller\<close>: \<open>Reconciler\<close> (one pass), \<open>Controller_Setup\<close> (\<open>SetupWithManager\<close> and the
      querier it installs).
    \<^item> \<open>cmd/main.go\<close>: \<open>Manager_Main\<close> (flags, options, start-up).

  What these use of Go's library is modelled in \<open>Prelude\<close> (byte strings), \<open>Float64\<close> (binary64 as
  rationals, infinities and NaN, with rounding to nearest even), \<open>Go_Number\<close> (strconv and
  durations), \<open>Go_Regexp\<close> (the patterns, with a matcher proved equal to their language), \<open>Go_Url\<close>
  and \<open>Go_Url_Parse\<close> (net/url), \<open>Go_Ip\<close> (net, net/netip) and \<open>Go_Json\<close> (encoding/json).

  How they interact.  \<open>main\<close> parses the flags, builds the destination policy and the manager, and
  sets up the controller, whose querier checks every URL against the policy.  A pass (\<open>Reconcile\<close>)
  reads the workload, gates on the node (\<open>NodeEligible\<close>) and on the priority class, measures
  (\<open>Resolve\<close>, \<open>QuerierFor\<close>, \<open>QueryPair\<close>), clamps (\<open>PairOf\<close>, \<open>Clamp\<close>), creates, deletes or resizes the
  pod (\<open>BuildPhantomPod\<close>, \<open>DriftExceeds\<close>), counts in the recorder, and patches the status.  It is
  explicit state passing over the record \<open>pass\<close>: the workload, the reasons of the report, the
  recorder, the world, and the trace of requests with their answers, newest first.  The cluster is
  a record of functions that answer a request in a world, with an error if they like: no property
  of a single pass supposes more of them than its statement says.

  Parameters, that is code which is not in the repository, and the laws that properties name:

    \<^item> quantities, owner references and condition lists (record \<open>lib\<close>): \<open>quantity_laws\<close>,
      \<open>owner_laws\<close>, \<open>binding_laws\<close>, \<open>condition_laws\<close>;
    \<^item> metric vectors (record \<open>vec_lib\<close>): \<open>vec_laws\<close>; the registry of the metrics: \<open>registry_laws\<close>;
    \<^item> the DNS-1123 validation: \<open>dns_laws\<close>; the scheme: \<open>scheme_laws\<close>; the HTTP exchange (record
      \<open>backend\<close>) and the manager (record \<open>manager_lib\<close>): no laws;
    \<^item> the API server, in the properties of several passes: \<open>read_laws\<close> and \<open>write_laws\<close> of a server
      that is reachable and accepts what is admissible, \<open>frame_laws\<close> of one that may refuse anything and
      keeps the preconditions of the writes; \<open>identifies\<close> then says that a stored workload is read
      under its uid.  Of the cached client they say only that a pod shown with the uid and the resource
      version of the stored one is the stored one: its cache may lag.  Where a property needs more, what a
      pass was shown is a hypothesis on that pass (the answer in its trace, or \<open>caught_up\<close>).

  The interfaces are locales.  \<open>metrics_querier\<close> is the contract between the controller and the
  client, interpreted on \<open>QueryPair\<close> (\<open>prom\<close>); \<open>querier_factory\<close> that of \<open>QuerierFor\<close>, interpreted on the
  querier of the setup (\<open>default_querier\<close>); \<open>pass_phases\<close> says what follows for a whole
  pass from what holds while the gates are open, once the pair is measured, at the report, and at
  the end, interpreted on the causes of the report (\<open>cause\<close>); \<open>pass_invariant\<close> is its special case
  (by a sublocale) of one predicate that all phases keep, interpreted on the recorder's invariant
  (\<open>recorder\<close>), its accounts (\<open>account\<close>), the provenance of answers (\<open>issue\<close>) and the store
  (\<open>isolation\<close>); \<open>cell\<close> and \<open>copier\<close> are the contracts of a part of the heap and of a copying
  function, interpreted on the generated ones.

  What is proved:

    \<^item> of a pass: \<open>Reconciler_Safety\<close> shows for every step that it extends the trace by requests that
      are allowed after what the pass has already seen (\<open>call_ok\<close>), and that the state keeps the
      invariants of the status (\<open>pass_ok\<close>); \<open>Reconciler_Report\<close> what the patched status says;
      \<open>Recorder_Pass\<close> and \<open>Recorder_Account\<close> what the recorder holds afterwards; \<open>Request_Provenance\<close>
      where the answers come from; \<open>Reported_Cause\<close> why a reason is reported.  \<open>Pass_Facts\<close> holds
      what the properties share; they are in this theory, \<open>Gate_Properties\<close>, \<open>Cause_Properties\<close> and
      \<open>Recorder_Properties\<close>;
    \<^item> of several passes: \<open>Workload_History\<close> (the stored status along passes and edits),
      \<open>Workload_Isolation\<close> (a pass leaves other workloads and their pods alone), \<open>Convergence\<close> and
      \<open>Convergence_Properties\<close> (passes over many workloads settle each phantom, whatever has
      happened before: the histories are those of the step relation \<open>disturbed\<close>, and the passes that
      count are those to which the cache shows the store; one with a lagging cache deletes a good pod);
    \<^item> of the admission: \<open>Admission_Properties\<close> (what is stored resolves, and what is reserved for it
      stays in range);
    \<^item> of the measurement: \<open>Query_Reading\<close> and \<open>Source_Properties\<close> (a reader of PromQL, against which
      the generated queries are proved), \<open>Json_Printing\<close> and \<open>Measurement_Properties\<close> (the replies),
      \<open>Measured_Pair\<close>, \<open>Drift\<close> and \<open>Phantom_Properties\<close> (the float computations against exact
      arithmetic);
    \<^item> of the destinations and the start: \<open>Destination_Properties\<close>, \<open>Setup_Properties\<close>,
      \<open>Manager_Properties\<close>; of the copies: \<open>Copy_Properties\<close>.

  \<open>Example_Cluster\<close> is a concrete cluster, quantity library and metric library on which the
  witnesses run; \<open>Convergence_Properties\<close> has a concrete store.

  Fuel: \<open>ParseDuration\<close> recurses on the length of its text, which every element shortens
  (\<open>duration_loop_fuel\<close>); \<open>read_matchers\<close> on the length of the selector; the JSON reader on
  \<open>json_fuel\<close>, twice the length of the text and one, which is enough (\<open>json_fuel_enough\<close>).  All
  other functions are structural or have a measure.

  Not modelled: logging, the text of errors that end a pass, beside which request failed, and the
  output of \<open>--version\<close>; what belongs to controller-runtime (the informers and their work queue
  beside the order of requests, what it does with the watches and the predicate that
  \<open>SetupWithManager\<close> registers, leader election, the run of the manager) and the flags that other
  packages register; struct tags and print columns; the test helpers, the deployment manifests
  and the documentation.
\<close>

section \<open>Properties of a pass\<close>

text \<open>C1: a pass deletes only a pod that it has read under the phantom's
  key and that this workload controls, at once and on condition that the pod still has the
  uid that was read.\<close>

theorem delete_only_own_observed_pod:
  assumes "Reconcile L V E ns n rc w = (res, rc', later @ CDeletePod pod opts a # earlier, w')"
  shows "\<exists>sw w0 rd. api_GetShadowWorkload E ns n w = (Inr sw, w0) \<and> ownedBySw L pod sw \<and>
    CGetPod rd (sw_Namespace sw) (PhantomName (sw_Name sw)) (Inr pod) \<in> set earlier \<and>
    opts = \<lparr>do_GracePeriodSeconds = 0, do_UID = pod_UID pod\<rparr>"
  using Reconcile_call [OF assms] by (auto simp: pod_read_def delete_observed_def)

theorem delete_only_own_observed_pod_witness:
  "\<exists>later. Reconcile rat_lib map_vec_lib repin_cluster ''ns'' ''db'' None () =
     (Inr 1, None, later @ CDeletePod repin_pod \<lparr>do_GracePeriodSeconds = 0, do_UID = ''pod-1''\<rparr> None #
        example_earlier (Inr repin_pod) example_pair, ()) \<and>
   ownedBySw rat_lib repin_pod example_sw \<and> pod_UID repin_pod = ''pod-1''"
  using repin_run
  by (elim exE) (frule delete_only_own_observed_pod, rule exI, rule conjI, assumption, auto simp: repin_cluster_def)

text \<open>C2: a pass resizes only the pod it has read under the phantom's key, owned
  by the workload and pinned to its node, and only after a successful measurement whose
  clamped pair drifts past the threshold.  The patch sets requests and limits of every
  container to that pair and changes nothing else.\<close>

theorem resize_only_measured_drift:
  assumes "Reconcile L V E ns n rc w = (res, rc', later @ CPatchResize base new a # earlier, w')"
  shows "\<exists>sw w0 q cpu mem found D. api_GetShadowWorkload E ns n w = (Inr sw, w0) \<and>
    ownedBySw L base sw \<and> pod_NodeName base = spec_Node (sw_Spec sw) \<and>
    CGetPod Cached (sw_Namespace sw) (PhantomName (sw_Name sw)) (Inr base) \<in> set earlier \<and>
    CQueryPair q (Inr (cpu, mem, found)) \<in> set earlier \<and>
    D = Clamp L (PairOf L cpu mem) (up_Floor (spec_Update (sw_Spec sw))) (up_Ceiling (spec_Update (sw_Spec sw))) \<and>
    DriftExceeds L (CurrentPairOf L base) D (up_DeltaThresholdPercent (spec_Update (sw_Spec sw))) \<and>
    new = base\<lparr>pod_Containers := map (\<lambda>c. c\<lparr>ct_Requests := resource_list D, ct_Limits := resource_list D\<rparr>)
                                    (pod_Containers base)\<rparr>"
proof -
  obtain sw w0 where "api_GetShadowWorkload E ns n w = (Inr sw, w0)" "call_ok L sw earlier (CPatchResize base new a)"
    using Reconcile_call [OF assms] by blast
  moreover from this obtain cpu mem found where "measured_in earlier = Some (cpu, mem, found)" by auto
  moreover from measured_in_query [OF this] obtain q where "CQueryPair q (Inr (cpu, mem, found)) \<in> set earlier" ..
  ultimately show ?thesis by (auto simp: pod_read_def desired_of_def resized_pod_def Let_def)
qed

theorem resize_only_measured_drift_witness:
  "\<exists>later new a. Reconcile rat_lib map_vec_lib resize_cluster ''ns'' ''db'' None () =
     (Inr 30000000000, None,
      later @ CPatchResize resize_pod new a # example_earlier (Inr resize_pod) example_pair, ()) \<and>
   ownedBySw rat_lib resize_pod example_sw \<and>
   (\<exists>D. DriftExceeds rat_lib (CurrentPairOf rat_lib resize_pod) D 10 \<and>
      map ct_Requests (pod_Containers new) = [resource_list D])"
proof -
  obtain later new a where r: "Reconcile rat_lib map_vec_lib resize_cluster ''ns'' ''db'' None () =
     (Inr 30000000000, None,
      later @ CPatchResize resize_pod new a # example_earlier (Inr resize_pod) example_pair, ())"
    using resize_run by blast
  have "api_GetShadowWorkload resize_cluster ''ns'' ''db'' () = (Inr example_sw, ())"
    "up_DeltaThresholdPercent (spec_Update (sw_Spec example_sw)) = 10"
    "length (pod_Containers resize_pod) = 1"
    by (simp_all add: resize_cluster_def resize_pod_def example_spec_def example_pod_def)
  with resize_only_measured_drift [OF r] have c: "ownedBySw rat_lib resize_pod example_sw \<and>
   (\<exists>D. DriftExceeds rat_lib (CurrentPairOf rat_lib resize_pod) D 10 \<and>
      map ct_Requests (pod_Containers new) = [resource_list D])"
    by (cases "pod_Containers resize_pod") auto
  show ?thesis by (rule exI [of _ later], rule exI [of _ new], rule exI [of _ a]) (rule conjI [OF r c])
qed

text \<open>C7: no query is issued and no pod is created, deleted or resized unless the
  same pass has read the target node as eligible and found the priority class.\<close>

theorem writes_and_queries_are_gated:
  assumes "Reconcile L V E ns n rc w = (res, rc', later @ c # earlier, w')" and "gated_call c"
  shows "\<exists>sw w0 nd. api_GetShadowWorkload E ns n w = (Inr sw, w0) \<and>
    CGetNode (spec_Node (sw_Spec sw)) (Inr nd) \<in> set earlier \<and> fst (NodeEligible (Some nd)) \<and>
    CGetPriorityClass (Inr ()) \<in> set earlier"
proof -
  have "\<And>b s a. c \<noteq> CPatchStatus b s a" using assms(2) by (auto simp: gated_call_def)
  then obtain sw w0 where "api_GetShadowWorkload E ns n w = (Inr sw, w0)" "call_ok L sw earlier c"
    using Reconcile_call [OF assms(1)] by blast
  then show ?thesis using assms(2) by (cases c) (auto simp: gated_call_def gates_passed_def)
qed

theorem writes_and_queries_are_gated_witness:
  "\<exists>later pod a. Reconcile rat_lib map_vec_lib (create_cluster example_pair) ''ns'' ''db'' None () =
     (Inr 30000000000, None,
      later @ CCreatePod pod a # example_earlier (Inl NotFound) example_pair, ()) \<and>
   fst (NodeEligible (Some example_node))"
proof -
  obtain later pod a where r: "Reconcile rat_lib map_vec_lib (create_cluster example_pair) ''ns'' ''db'' None () =
     (Inr 30000000000, None, later @ CCreatePod pod a # example_earlier (Inl NotFound) example_pair, ())"
    using create_run by blast
  have "gated_call (CCreatePod pod a)" by (simp add: gated_call_def)
  from writes_and_queries_are_gated [OF r this] have c: "fst (NodeEligible (Some example_node))"
    by (auto simp: create_cluster_def example_earlier_def)
  show ?thesis by (rule exI [of _ later], rule exI [of _ pod], rule exI [of _ a]) (rule conjI [OF r c])
qed

text \<open>C8: a pass creates a pod only after the cached read of the
  phantom's key found none.  The pod is the phantom of this workload: its name, its node, its
  controller reference, and one container whose requests and limits are both the clamped
  pair.\<close>

theorem created_pod_is_the_clamped_guaranteed_phantom:
  assumes "Reconcile L V E ns n rc w = (res, rc', later @ CCreatePod pod a # earlier, w')"
    and "owner_laws L"
  shows "\<exists>sw w0 pr D. api_GetShadowWorkload E ns n w = (Inr sw, w0) \<and>
    CGetPod Cached (sw_Namespace sw) (PhantomName (sw_Name sw)) (Inl NotFound) \<in> set earlier \<and>
    pod_Name pod = PhantomName (sw_Name sw) \<and> pod_Namespace pod = sw_Namespace sw \<and>
    pod_NodeName pod = spec_Node (sw_Spec sw) \<and> k_GetControllerOf L pod = Some (controller_ref sw) \<and>
    D = Clamp L pr (up_Floor (spec_Update (sw_Spec sw))) (up_Ceiling (spec_Update (sw_Spec sw))) \<and>
    (pr = PairOf L (FFin 0) (FFin 0) \<or>
     (\<exists>q cpu mem found. CQueryPair q (Inr (cpu, mem, found)) \<in> set earlier \<and> pr = PairOf L cpu mem)) \<and>
    map (\<lambda>c. (ct_Requests c, ct_Limits c)) (pod_Containers pod) = [(resource_list D, resource_list D)]"
proof -
  obtain sw w0 where sw: "api_GetShadowWorkload E ns n w = (Inr sw, w0)" "call_ok L sw earlier (CCreatePod pod a)"
    using Reconcile_call [OF assms(1)] by blast
  then obtain sw' where sw': "same_object sw sw'" "BuildPhantomPod L sw' (desired_of L sw earlier) = Inr pod"
    by auto
  define pr where "pr = (case measured_in earlier of Some (cpu, mem, _) \<Rightarrow> PairOf L cpu mem
    | None \<Rightarrow> PairOf L (FFin 0) (FFin 0))"
  have "pr = PairOf L (FFin 0) (FFin 0) \<or>
     (\<exists>q cpu mem found. CQueryPair q (Inr (cpu, mem, found)) \<in> set earlier \<and> pr = PairOf L cpu mem)"
    using measured_in_query [of earlier] by (fastforce simp: pr_def split: option.splits)
  then show ?thesis
    using sw sw' BuildPhantomPod_pod [OF sw'(2) assms(2)]
    by (intro exI [of _ sw] exI [of _ w0] exI [of _ pr] exI [of _ "desired_of L sw earlier"])
      (auto simp: same_objectD controller_ref_same pod_read_def desired_of_def pr_def phantom_container_def)
qed

theorem created_pod_is_the_clamped_guaranteed_phantom_witness:
  "\<exists>later pod a. Reconcile rat_lib map_vec_lib (create_cluster example_pair) ''ns'' ''db'' None () =
     (Inr 30000000000, None,
      later @ CCreatePod pod a # example_earlier (Inl NotFound) example_pair, ()) \<and>
   pod_Name pod = ''shadow-db'' \<and> pod_NodeName pod = ''node-a'' \<and>
   k_GetControllerOf rat_lib pod = Some (controller_ref example_sw)"
proof -
  obtain later pod a where r: "Reconcile rat_lib map_vec_lib (create_cluster example_pair) ''ns'' ''db'' None () =
     (Inr 30000000000, None, later @ CCreatePod pod a # example_earlier (Inl NotFound) example_pair, ())"
    using create_run by blast
  have g: "api_GetShadowWorkload (create_cluster example_pair) ''ns'' ''db'' () = (Inr example_sw, ())"
    by (simp add: create_cluster_def)
  from created_pod_is_the_clamped_guaranteed_phantom [OF r rat_lib_owner_laws]
  have c: "pod_Name pod = ''shadow-db'' \<and> pod_NodeName pod = ''node-a'' \<and>
      k_GetControllerOf rat_lib pod = Some (controller_ref example_sw)"
    unfolding g by (auto simp: example_PhantomName example_sw_def example_spec_def)
  show ?thesis by (rule exI [of _ later], rule exI [of _ pod], rule exI [of _ a]) (rule conjI [OF r c])
qed

text \<open>C10: when no query pair of the pass succeeded, the pass resizes
  nothing, and a pod it creates requests exactly the floor of the policy.\<close>

theorem failed_measurement_creates_the_floor:
  assumes "Reconcile L V E ns n rc w = (res, rc', t, w')" and "measured_in t = None"
    and L: "quantity_laws L val" "owner_laws L" and c: "c \<in> set t" "gated_call c"
    and sw: "api_GetShadowWorkload E ns n w = (Inr sw, w0)" "policy_ok val (spec_Update (sw_Spec sw))"
  shows "case c of
      CPatchResize _ _ _ \<Rightarrow> False
    | CCreatePod pod _ \<Rightarrow>
        (\<exists>D. pod_Containers pod = [phantom_container D] \<and>
           val (rp_CPU D) = val (rp_CPU (up_Floor (spec_Update (sw_Spec sw)))) \<and>
           val (rp_Memory D) = val (rp_Memory (up_Floor (spec_Update (sw_Spec sw)))))
    | _ \<Rightarrow> True"
proof -
  obtain u v where t: "t = u @ c # v" using split_list [OF c(1)] by blast
  have m: "measured_in v = None"
    using measured_in_query [of v] measured_in_None [OF assms(2)] t by (cases "measured_in v") auto
  have "\<And>b s a. c \<noteq> CPatchStatus b s a" using c(2) by (auto simp: gated_call_def)
  then have ok: "call_ok L sw v c" using Reconcile_call [OF assms(1) [unfolded t]] sw(1) by fastforce
  show ?thesis
  proof (cases c)
    case (CCreatePod pod a)
    then obtain sw' where "BuildPhantomPod L sw' (desired_of L sw v) = Inr pod" using ok by auto
    from BuildPhantomPod_pod(5) [OF this L(2)] show ?thesis
      using CCreatePod m clamped_zero_is_floor [OF L(1) sw(2)] by (auto simp: desired_of_def)
  qed (use ok m in auto)
qed

theorem failed_measurement_creates_the_floor_witness:
  "\<exists>D. pod_Containers (example_fresh \<lparr>rp_CPU = 1 / 100, rp_Memory = 1024\<rparr>) = [phantom_container D] \<and>
     rp_CPU D = 1 / 100 \<and> rp_Memory D = (1024 :: rat)"
proof -
  let ?c = "CCreatePod (example_fresh \<lparr>rp_CPU = 1 / 100, rp_Memory = 1024\<rparr>)
              (Inr (example_fresh \<lparr>rp_CPU = 1 / 100, rp_Memory = 1024\<rparr>))"
  obtain s m m' where r: "Reconcile rat_lib map_vec_lib (create_cluster (Inl (QSentinel ErrPartialSample))) ''ns'' ''db'' None () =
     (Inr 30000000000, None,
      [CPatchStatus example_sw s None, CEvent EventTypeNormal reasonPhantomCreated m] @
      ?c #
      [CGetPod Cached ''ns'' ''shadow-db'' (Inl NotFound),
       CEvent EventTypeWarning reasonPrometheusUnavailable m',
       CQueryPair example_query (Inl (QSentinel ErrPartialSample)),
       CGetPriorityClass (Inr ()), CGetNode ''node-a'' (Inr example_node)], ())"
    using create_floor_run by blast
  from failed_measurement_creates_the_floor [OF r _ rat_lib_quantity_laws rat_lib_owner_laws,
      of ?c example_sw "()"]
  show ?thesis by (simp add: gated_call_def create_cluster_def policy_ok_def example_spec_def)
qed

text \<open>C12: the patched status either keeps the last measurement and the resolved
  source as they were read, and then no query pair of the pass succeeded, or replaces both by
  those of the pass, with the generation of the workload that was read.\<close>

theorem snapshot_advances_together:
  fixes L :: "'q lib" and V :: "'v vec_lib" and E :: "('q, 'w) cluster"
  assumes "Reconcile L V E ns n rc w = (res, rc', later @ CPatchStatus b s a # t, w')"
  shows "(st_LastMeasurement (sw_Status s) = st_LastMeasurement (sw_Status b) \<and>
          st_ResolvedSource (sw_Status s) = st_ResolvedSource (sw_Status b) \<and>
          (\<forall>q r. CQueryPair q (Inr r) \<notin> set t)) \<or>
    (\<exists>q cpu mem found now. CQueryPair q (Inr (cpu, mem, found)) \<in> set t \<and>
       st_LastMeasurement (sw_Status s) = Some
         \<lparr>ms_ObservedGeneration = sw_Generation b, ms_Time = now,
          ms_CPU = rp_CPU (MeasurementPairOf L cpu mem),
          ms_Memory = rp_Memory (MeasurementPairOf L cpu mem), ms_SeriesFound = found\<rparr> \<and>
       st_ResolvedSource (sw_Status s) = Some (resolved_of (Describe (sw_Spec b))))"
proof (rule Reconcile_patch_at [OF assms])
  fix w0 obs imm and p :: "('q, 'v, 'w) pass"
  assume p: "pass_ok L b p" "t = ps_trace p" "s = ps_sw (reported L V obs p)"
  then have ok: "snapshot_ok L b (measured_in (ps_trace p)) (sw_Status (ps_sw p))" by (simp add: pass_ok_def)
  show ?thesis
  proof (cases "measured_in (ps_trace p)")
    case None
    then show ?thesis using ok p measured_in_None [OF None] by (simp add: snapshot_ok_def reported_snapshot)
  next
    case (Some r)
    then show ?thesis
      using ok p measured_in_query [OF Some]
      by (cases r) (fastforce simp: snapshot_ok_def reported_snapshot measurement_of_def Let_def)
  qed
qed

theorem snapshot_advances_together_witness:
  "\<exists>s t. Reconcile rat_lib map_vec_lib (create_cluster example_pair) ''ns'' ''db'' None () =
     (Inr 30000000000, None, [] @ CPatchStatus example_sw s None # t, ()) \<and>
     (\<exists>m. st_LastMeasurement (sw_Status s) = Some m \<and> ms_ObservedGeneration m = 3 \<and> ms_SeriesFound m)"
  using create_patch_run
  by (elim exE) (frule snapshot_advances_together, rule exI, rule exI, rule conjI, assumption, auto simp: example_earlier_def example_pair_def example_sw_def)

text \<open>C13: the patched status names the phantom and the requests of a pod that the
  API server showed in this pass, in answer to the cached read, the creation or the resize;
  without such a pod the currents stay as they were.  The resize time moves only with an
  accepted resize.\<close>

theorem currents_report_an_observed_pod:
  fixes L :: "'q lib" and V :: "'v vec_lib" and E :: "('q, 'w) cluster"
  assumes "Reconcile L V E ns n rc w = (res, rc', later @ CPatchStatus b s a # t, w')"
  shows "((\<exists>pod. shown_in b t pod \<and>
            st_PhantomPod (sw_Status s) = PhantomName (sw_Name b) \<and>
            st_CurrentCPU (sw_Status s) = rp_CPU (CurrentPairOf L pod) \<and>
            st_CurrentMemory (sw_Status s) = rp_Memory (CurrentPairOf L pod)) \<or>
          (st_PhantomPod (sw_Status s) = st_PhantomPod (sw_Status b) \<and>
           st_CurrentCPU (sw_Status s) = st_CurrentCPU (sw_Status b) \<and>
           st_CurrentMemory (sw_Status s) = st_CurrentMemory (sw_Status b))) \<and>
         (st_LastResize (sw_Status s) = st_LastResize (sw_Status b) \<or>
          (\<exists>b' m pod. CPatchResize b' m (Inr pod) \<in> set t))"
proof (rule Reconcile_patch_at [OF assms])
  fix w0 obs imm and p :: "('q, 'v, 'w) pass"
  assume p: "pass_ok L b p" "t = ps_trace p" "s = ps_sw (reported L V obs p)"
    and none: "obs = None \<longrightarrow> resized_in (ps_trace p) = None \<and> ps_degradedReason p \<noteq> []"
    and obs: "\<And>pod. obs = Some pod \<Longrightarrow> \<not> imm \<and> pod_observed b (ps_trace p) pod"
  note n = pass_ok_objectD [OF p(1)]
  have ok: "currents_ok b (resized_in (ps_trace p)) (sw_Status (ps_sw p))" using p(1) by (simp add: pass_ok_def)
  have "shown_in b t pod" if "obs = Some pod" for pod
    using obs [OF that] p(2) resized_in_call by (fastforce simp: pod_observed_def shown_in_def pod_read_def)
  moreover have "st_LastResize (sw_Status s) = st_LastResize (sw_Status b) \<or>
      (\<exists>b' m pod. CPatchResize b' m (Inr pod) \<in> set t)"
    using ok p(2,3) resized_in_call [of "ps_trace p"]
    by (cases "resized_in (ps_trace p)") (auto simp: currents_ok_def reported_snapshot)
  ultimately show ?thesis
    using ok p(3) none n by (cases obs) (auto simp: currents_ok_def reported_currents)
qed

theorem currents_report_an_observed_pod_witness:
  "\<exists>s t. Reconcile rat_lib map_vec_lib (create_cluster example_pair) ''ns'' ''db'' None () =
     (Inr 30000000000, None, [] @ CPatchStatus example_sw s None # t, ()) \<and>
     (st_PhantomPod (sw_Status s) = ''shadow-db'' \<or> st_PhantomPod (sw_Status s) = [])"
  using create_patch_run
  by (elim exE) (frule currents_report_an_observed_pod, rule exI, rule exI, rule conjI, assumption, auto simp: example_PhantomName example_status_def)

text \<open>In the patched status exactly one of Ready and Degraded is true, and every reason is of the
  closed enumerations.\<close>

lemma conditions_are_complementary:
  fixes L :: "'q lib" and V :: "'v vec_lib" and E :: "('q, 'w) cluster"
  assumes "Reconcile L V E ns n rc w = (res, rc', later @ CPatchStatus b s a # t, w')"
    and "condition_laws L"
  shows "\<exists>r d. k_FindStatusCondition L (st_Conditions (sw_Status s)) ''Ready'' = Some r \<and>
    k_FindStatusCondition L (st_Conditions (sw_Status s)) ''Degraded'' = Some d \<and>
    cd_ObservedGeneration r = sw_Generation b \<and> cd_ObservedGeneration d = sw_Generation b \<and>
    ((cd_Status r = ''True'' \<and> cd_Status d = ''False'' \<and> cd_Reason r \<in> set ready_reasons \<and>
      cd_Reason d = reasonAsExpected) \<or>
     (cd_Status r = ''False'' \<and> cd_Status d = ''True'' \<and> cd_Reason r = cd_Reason d \<and>
      cd_Reason d \<in> set degraded_reasons))"
proof (rule Reconcile_patch_at [OF assms(1)])
  fix w0 obs imm and p :: "('q, 'v, 'w) pass"
  assume p: "pass_ok L b p" "s = ps_sw (reported L V obs p)"
  have r: "reasons_ok p" using p(1) by (simp add: pass_ok_def)
  from reported_conditions [OF assms(2), of V obs p] show ?thesis
    using p(2) r pass_ok_objectD(5) [OF p(1)]
    by (fastforce simp: conditionReady_def conditionDegraded_def reported_ready_def
        reported_degraded_def reasons_ok_def split: if_splits)
qed

text \<open>A pass that succeeds asks for another pass after a positive delay, unless the workload is
  gone; then it has done nothing but drop the workload's series.\<close>

lemma requeue_is_positive:
  assumes "Reconcile L V E ns n rc w = (Inr d, rc', t, w')"
  shows "0 < d \<or> (d = 0 \<and> (\<exists>w0. api_GetShadowWorkload E ns n w = (Inl NotFound, w0)) \<and> t = [] \<and>
                  rc' = RemoveShadowWorkload V rc ns n)"
  using assms
proof (cases rule: Reconcile_cases)
  case (patched sw w0 obs imm a p)
  then show ?thesis using pollInterval_pos [of sw] by (auto split: option.splits if_splits)
qed (auto split: if_splits)

text \<open>Once the containers carry the desired pair, as after an accepted resize,
  the next evaluation of the same pair issues no request and keeps the pod, for every
  threshold.\<close>

lemma settled_pod_is_left_alone:
  assumes "pod_Containers pod \<noteq> []"
    and "f_le (FFin 0) (q_AsApproximateFloat64 L (rp_CPU d))" "f_le (FFin 0) (q_AsApproximateFloat64 L (rp_Memory d))"
    and "0 \<le> sint (up_DeltaThresholdPercent (spec_Update (sw_Spec (ps_sw p))))"
    and "resizeIfDrifting L V E (resized_pod pod d) name d healthy p = (pod', q)"
  shows "pod' = resized_pod pod d \<and> ps_trace q = ps_trace p \<and> ps_sw q = ps_sw p \<and>
    ps_degradedReason q = ps_degradedReason p"
proof -
  have c: "CurrentPairOf L (resized_pod pod d) = d"
    using assms(1) by (cases "pod_Containers pod")
      (simp_all add: CurrentPairOf_def resized_pod_def Let_def resource_list_def ResourceCPU_def ResourceMemory_def)
  note d = DriftExceeds_same [OF assms(4,2,3)]
  show ?thesis using assms(5) by (cases rule: resizeIfDrifting_cases) (use c d in auto)
qed

end
